(* ===== verification/Prelude.thy ===== *)
theory Prelude
  imports Main "HOL-Library.Sublist"
begin

section \<open>Prelude: the fragment of Go the program uses\<close>

text \<open>
  What every component shares: 64-bit integers with their wrap-around, instants and
  durations in nanoseconds, byte strings with the functions of the packages
  \<open>strings\<close> and \<open>strconv\<close> the program calls, and the collections of simplification
  rules the component proofs use.  A Go string is a list of bytes (\<open>char list\<close>), so
  \<open>length\<close> is Go's \<open>len\<close>.
\<close>

named_theorems opensqs_defs \<open>definitions unfolded by component proofs\<close>

named_theorems opensqs_frame \<open>frame equations: fields an operation leaves alone\<close>

subsection \<open>Machine integers\<close>

text \<open>Go's \<open>int\<close> and \<open>int64\<close> on a 64-bit platform: arithmetic wraps.\<close>

definition wrap64 :: "int \<Rightarrow> int" where
  "wrap64 i = (i + 2 ^ 63) mod 2 ^ 64 - 2 ^ 63"

abbreviation int64_range :: "int \<Rightarrow> bool" where
  "int64_range i \<equiv> - (2 ^ 63) \<le> i \<and> i < 2 ^ 63"

abbreviation max_int64 :: int where
  "max_int64 \<equiv> 9223372036854775807"

lemma wrap64_range: "int64_range (wrap64 i)"
proof -
  have "0 \<le> (i + 2 ^ 63) mod 2 ^ 64 \<and> (i + 2 ^ 63) mod 2 ^ 64 < (2 ^ 64 :: int)" by simp
  then show ?thesis unfolding wrap64_def by auto
qed

lemma wrap64_id: "int64_range i \<Longrightarrow> wrap64 i = i"
  by (simp add: wrap64_def)

lemma mod_once: "(k::int) \<le> x \<Longrightarrow> x < 2 * k \<Longrightarrow> x mod k = x - k"
  by (metis (no_types, opaque_lifting) diff_ge_0_iff_ge diff_less_eq minus_mod_self2
      mod_pos_pos_trivial mult_2)

subsection \<open>Instants and durations\<close>

text \<open>
  A \<open>time.Time\<close> is the number of nanoseconds since the Unix epoch; Go's zero
  \<open>Time\<close> is the first of January of the year 1, which is not the epoch.
  \<open>now :: clock\<close> gives the successive readings of the clock during one call.
\<close>

type_synonym time = int
type_synonym clock = "nat \<Rightarrow> time"

definition zero_time :: time where
  "zero_time = - 62135596800000000000"

definition IsZero :: "time \<Rightarrow> bool" where
  "IsZero t \<longleftrightarrow> t = zero_time"

definition unix_milli :: "time \<Rightarrow> int" where
  "unix_milli t = t div 1000000"

definition from_unix_milli :: "int \<Rightarrow> time" where
  "from_unix_milli ms = ms * 1000000"

text \<open>\<open>time.Duration(n) * time.Second\<close> is a product of two \<open>int64\<close>.\<close>

definition seconds :: "int \<Rightarrow> int" where
  "seconds n = wrap64 (n * 1000000000)"

lemma unix_milli_mono: "s \<le> t \<Longrightarrow> unix_milli s \<le> unix_milli t"
  by (simp add: unix_milli_def zdiv_mono1)

lemma unix_milli_from [simp]: "unix_milli (from_unix_milli ms) = ms"
  by (simp add: unix_milli_def from_unix_milli_def)

lemma seconds_small: "0 \<le> n \<Longrightarrow> n \<le> 9000000000 \<Longrightarrow> seconds n = n * 1000000000"
  unfolding seconds_def by (rule wrap64_id) auto

lemma seconds_pos: "0 < n \<Longrightarrow> n \<le> 9000000000 \<Longrightarrow> 0 < seconds n"
  by (simp add: seconds_small)

subsection \<open>Strings\<close>

definition HasPrefix :: "string \<Rightarrow> string \<Rightarrow> bool" where
  "HasPrefix s p \<longleftrightarrow> take (length p) s = p"

definition HasSuffix :: "string \<Rightarrow> string \<Rightarrow> bool" where
  "HasSuffix s p \<longleftrightarrow> length p \<le> length s \<and> drop (length s - length p) s = p"

definition TrimPrefix :: "string \<Rightarrow> string \<Rightarrow> string" where
  "TrimPrefix s p = (if HasPrefix s p then drop (length p) s else s)"

definition TrimSuffix :: "string \<Rightarrow> string \<Rightarrow> string" where
  "TrimSuffix s p = (if HasSuffix s p then take (length s - length p) s else s)"

text \<open>\<open>strings.Cut(s, c)\<close> before the first, and the slice after the last, of one byte.\<close>

definition before_first :: "char \<Rightarrow> string \<Rightarrow> string" where
  "before_first c s = takeWhile (\<lambda>x. x \<noteq> c) s"

definition after_last :: "char \<Rightarrow> string \<Rightarrow> string" where
  "after_last c s = rev (takeWhile (\<lambda>x. x \<noteq> c) (rev s))"

text \<open>\<open>strings.Split\<close> by a one-byte separator.\<close>

fun Split :: "char \<Rightarrow> string \<Rightarrow> string list" where
  "Split c [] = [[]]"
| "Split c (x # xs) =
     (if x = c then [] # Split c xs
      else (case Split c xs of [] \<Rightarrow> [[x]] | p # ps \<Rightarrow> (x # p) # ps))"

fun Join :: "string \<Rightarrow> string list \<Rightarrow> string" where
  "Join sep [] = []"
| "Join sep [s] = s"
| "Join sep (s # ss) = s @ sep @ Join sep ss"

lemma HasPrefix_append [simp]: "HasPrefix (p @ s) p"
  by (simp add: HasPrefix_def)

lemma HasSuffix_append [simp]: "HasSuffix (s @ p) p"
  by (simp add: HasSuffix_def)

lemma HasSuffix_iff: "HasSuffix s p \<longleftrightarrow> (\<exists>b. s = b @ p)"
  unfolding HasSuffix_def by (metis append_take_drop_id diff_diff_cancel length_append
      length_drop le_add2 add_diff_cancel_right' append_eq_conv_conj)

lemma TrimSuffix_append [simp]: "TrimSuffix (s @ p) p = s"
  by (simp add: TrimSuffix_def)

lemma after_last_append:
  "c \<notin> set name \<Longrightarrow> after_last c (pre @ c # name) = name"
  by (simp add: after_last_def takeWhile_append)

lemma Split_nonempty [simp]: "Split c s \<noteq> []"
  by (induction s) (auto split: list.splits)

lemma Join_Cons: "ss \<noteq> [] \<Longrightarrow> Join sep (s # ss) = s @ sep @ Join sep ss"
  by (cases ss) auto

lemma Join_Cons_Cons: "Join sep ((x # p) # ps) = x # Join sep (p # ps)"
  by (cases ps) auto

lemma Join_Split: "Join [c] (Split c s) = s"
proof (induction s)
  case (Cons x xs)
  then show ?case
    by (cases "Split c xs") (auto simp: Join_Cons Join_Cons_Cons)
qed simp

lemma Split_no_sep: "c \<notin> set s \<Longrightarrow> Split c s = [s]"
  by (induction s) auto

lemma Split_append: "c \<notin> set s \<Longrightarrow> Split c (s @ c # t) = s # Split c t"
  by (induction s) auto

lemma Split_Join:
  assumes "ss \<noteq> []" "\<forall>s \<in> set ss. c \<notin> set s"
  shows "Split c (Join [c] ss) = ss"
  using assms
proof (induction ss rule: list_nonempty_induct)
  case (cons s ss)
  then show ?case using Split_append [of c s "Join [c] ss"] by (simp add: Join_Cons)
qed (simp add: Split_no_sep)

subsection \<open>Numbers and booleans as text\<close>

definition digit_char :: "nat \<Rightarrow> char" where
  "digit_char d = char_of (48 + d)"

definition digit_val :: "char \<Rightarrow> nat option" where
  "digit_val c = (let n = of_char c :: nat in if 48 \<le> n \<and> n \<le> 57 then Some (n - 48) else None)"

fun utoa :: "nat \<Rightarrow> string" where
  "utoa n = (if n < 10 then [digit_char n] else utoa (n div 10) @ [digit_char (n mod 10)])"

declare utoa.simps [simp del]

text \<open>\<open>strconv.Itoa\<close>, and \<open>fmt.Sprintf("%d", i)\<close>.\<close>

definition itoa :: "int \<Rightarrow> string" where
  "itoa i = (if i < 0 then CHR ''-'' # utoa (nat (- i)) else utoa (nat i))"

datatype num_err = NumOK | ErrSyntax | ErrRange

text \<open>
  \<open>strconv.ParseUint\<close> in base 10 stops at the first byte that is no digit, or at the
  first digit that takes the value out of 64 bits.
\<close>

fun ParseUint_loop :: "nat \<Rightarrow> string \<Rightarrow> nat \<times> num_err" where
  "ParseUint_loop n [] = (n, NumOK)"
| "ParseUint_loop n (c # cs) =
     (case digit_val c of
        None \<Rightarrow> (0, ErrSyntax)
      | Some d \<Rightarrow>
          let n1 = 10 * n + d in
          if 18446744073709551615 < n1 then (18446744073709551615, ErrRange)
          else ParseUint_loop n1 cs)"

definition ParseUint :: "string \<Rightarrow> nat \<times> num_err" where
  "ParseUint s = (if s = [] then (0, ErrSyntax) else ParseUint_loop 0 s)"

text \<open>\<open>strconv.ParseInt(s, 10, 64)\<close>, which is \<open>strconv.Atoi\<close> on a 64-bit platform.\<close>

definition ParseInt :: "string \<Rightarrow> int \<times> num_err" where
  "ParseInt s =
     (let neg = (s \<noteq> [] \<and> hd s = CHR ''-'');
          body = (if s \<noteq> [] \<and> (hd s = CHR ''-'' \<or> hd s = CHR ''+'') then tl s else s)
      in case ParseUint body of
           (un, ErrSyntax) \<Rightarrow> (0, ErrSyntax)
         | (un, e) \<Rightarrow>
             if \<not> neg \<and> 9223372036854775808 \<le> un then (9223372036854775807, ErrRange)
             else if neg \<and> 9223372036854775808 < un then (- 9223372036854775808, ErrRange)
             else ((if neg then - int un else int un), NumOK))"

abbreviation Atoi :: "string \<Rightarrow> int \<times> num_err" where
  "Atoi \<equiv> ParseInt"

definition FormatBool :: "bool \<Rightarrow> string" where
  "FormatBool b = (if b then ''true'' else ''false'')"

definition ParseBool :: "string \<Rightarrow> bool option" where
  "ParseBool s =
     (if s \<in> {''1'', ''t'', ''T'', ''true'', ''TRUE'', ''True''} then Some True
      else if s \<in> {''0'', ''f'', ''F'', ''false'', ''FALSE'', ''False''} then Some False
      else None)"

lemma ParseBool_FormatBool [simp]: "ParseBool (FormatBool b) = Some b"
  by (simp add: ParseBool_def FormatBool_def)

lemma digit_val_char [simp]: "d < 10 \<Longrightarrow> digit_val (digit_char d) = Some d"
  by (simp add: digit_val_def digit_char_def Let_def)

lemma digit_val_minus [simp]: "digit_val (CHR ''-'') = None" "digit_val (CHR ''+'') = None"
  by (simp_all add: digit_val_def)

lemma ParseUint_loop_append:
  "ParseUint_loop n xs = (m, NumOK) \<Longrightarrow> ParseUint_loop n (xs @ ys) = ParseUint_loop m ys"
  by (induction n xs rule: ParseUint_loop.induct) (auto simp: Let_def split: option.splits if_splits)

lemma ParseUint_loop_utoa:
  "n < 18446744073709551616 \<Longrightarrow> ParseUint_loop 0 (utoa n) = (n, NumOK)"
proof (induction n rule: utoa.induct)
  case (1 n)
  show ?case
  proof (cases "n < 10")
    case True
    then show ?thesis by (simp add: utoa.simps)
  next
    case False
    with 1 have "ParseUint_loop 0 (utoa (n div 10)) = (n div 10, NumOK)" by simp
    with False "1.prems" show ?thesis
      by (simp add: utoa.simps [of n] ParseUint_loop_append Let_def)
  qed
qed

lemma utoa_nonempty [simp]: "utoa n \<noteq> []"
  by (subst utoa.simps) simp

lemma hd_utoa: "\<exists>d < 10. hd (utoa n) = digit_char d"
proof (induction n rule: utoa.induct)
  case (1 n)
  then show ?case by (cases "n < 10") (auto simp: utoa.simps [of n])
qed

lemma hd_utoa_sign [simp]: "hd (utoa n) \<noteq> CHR ''-''" "hd (utoa n) \<noteq> CHR ''+''"
proof -
  obtain d where "d < 10" and "hd (utoa n) = digit_char d" using hd_utoa by blast
  then have "digit_val (hd (utoa n)) = Some d" by simp
  then show "hd (utoa n) \<noteq> CHR ''-''" and "hd (utoa n) \<noteq> CHR ''+''" by auto
qed

lemma ParseUint_utoa: "n < 18446744073709551616 \<Longrightarrow> ParseUint (utoa n) = (n, NumOK)"
  by (simp add: ParseUint_def ParseUint_loop_utoa)

lemma Atoi_itoa: "int64_range i \<Longrightarrow> Atoi (itoa i) = (i, NumOK)"
  by (auto simp: ParseInt_def itoa_def Let_def ParseUint_utoa)

lemma itoa_inj: "int64_range i \<Longrightarrow> int64_range j \<Longrightarrow> itoa i = itoa j \<Longrightarrow> i = j"
  by (metis Atoi_itoa prod.inject)

lemma Atoi_range: "Atoi s = (i, e) \<Longrightarrow> int64_range i"
  by (auto simp: ParseInt_def Let_def split: prod.splits num_err.splits if_splits)

text \<open>Printing is injective on all integers, not only on those that parse back.\<close>

lemma utoa_value: "foldl (\<lambda>n c. 10 * n + the (digit_val c)) 0 (utoa n) = n"
proof (induction n rule: utoa.induct)
  case (1 n)
  then show ?case by (cases "n < 10") (simp_all add: utoa.simps [of n])
qed

lemma utoa_eq [simp]: "utoa m = utoa n \<longleftrightarrow> m = n"
  by (metis utoa_value)

lemma itoa_eq [simp]: "itoa i = itoa j \<longleftrightarrow> i = j"
proof
  assume "itoa i = itoa j"
  moreover have "utoa m \<noteq> CHR ''-'' # s" for m s
    using hd_utoa_sign(1) [of m] by (metis list.sel(1))
  ultimately show "i = j" by (auto simp: itoa_def split: if_splits) metis+
qed simp

lemma FormatBool_eq [simp]: "FormatBool x = FormatBool y \<longleftrightarrow> x = y"
  by (cases x; cases y) (simp_all add: FormatBool_def)

end
