(* ===== verification/SQSTypes.thy ===== *)
theory SQSTypes
  imports Prelude
begin

section \<open>Messages, errors and limits of the API\<close>

text \<open>
  The data of \<^verbatim>\<open>pkgs/v1/queue/types\<close> (\<^verbatim>\<open>types.go\<close>, \<^verbatim>\<open>constants.go\<close>) and the error factories
  of \<^verbatim>\<open>pkgs/v1/queue/errors.go\<close>.  A Go map whose keys are enumerated is an association
  list with distinct keys; \<open>nil\<close> and the empty map are both the empty list.
\<close>

type_synonym 'v gomap = "(string \<times> 'v) list"

subsection \<open>Constants\<close>

definition SQSVersion :: string where "SQSVersion = ''2012-11-05''"

definition EmptyRequestID :: string where
  "EmptyRequestID = ''00000000-0000-0000-0000-000000000000''"

definition QueryProtocolContentType :: string where
  "QueryProtocolContentType = ''application/x-www-form-urlencoded''"

definition JSONProtocolContentType :: string where
  "JSONProtocolContentType = ''application/x-amz-json-1.0''"

definition DefaultVisibilityTimeout :: int where "DefaultVisibilityTimeout = 30"
definition DefaultMessageRetentionPeriod :: int where "DefaultMessageRetentionPeriod = 345600"
definition DefaultMaximumMessageSize :: int where "DefaultMaximumMessageSize = 262144"
definition DefaultDelaySeconds :: int where "DefaultDelaySeconds = 0"
definition DefaultReceiveMessageWaitTime :: int where "DefaultReceiveMessageWaitTime = 0"

definition MaxVisibilityTimeout :: int where "MaxVisibilityTimeout = 43200"
definition MaxMessageRetentionPeriod :: int where "MaxMessageRetentionPeriod = 1209600"
definition MaxMaximumMessageSize :: int where "MaxMaximumMessageSize = 262144"
definition MaxDelaySeconds :: int where "MaxDelaySeconds = 900"
definition MaxReceiveMessageWaitTime :: int where "MaxReceiveMessageWaitTime = 20"
definition MaxNumberOfMessages :: int where "MaxNumberOfMessages = 10"
definition MaxBatchEntries :: int where "MaxBatchEntries = 10"
definition MaxQueueNameLength :: int where "MaxQueueNameLength = 80"
definition MaxDeduplicationIdLength :: int where "MaxDeduplicationIdLength = 128"
definition MaxMessageGroupIdLength :: int where "MaxMessageGroupIdLength = 128"
definition MaxKmsDataKeyReusePeriodSeconds :: int where "MaxKmsDataKeyReusePeriodSeconds = 86400"
definition MaxQueueTags :: int where "MaxQueueTags = 50"
definition MaxTagKeyLength :: int where "MaxTagKeyLength = 128"
definition MaxTagValueLength :: int where "MaxTagValueLength = 256"

definition MinMessageRetentionPeriod :: int where "MinMessageRetentionPeriod = 60"
definition MinMaximumMessageSize :: int where "MinMaximumMessageSize = 1024"
definition MinVisibilityTimeout :: int where "MinVisibilityTimeout = 0"
definition MinDelaySeconds :: int where "MinDelaySeconds = 0"
definition MinReceiveMessageWaitTime :: int where "MinReceiveMessageWaitTime = 0"
definition MinKmsDataKeyReusePeriodSeconds :: int where "MinKmsDataKeyReusePeriodSeconds = 60"

lemmas limit_defs =
  DefaultVisibilityTimeout_def DefaultMessageRetentionPeriod_def DefaultMaximumMessageSize_def
  DefaultDelaySeconds_def DefaultReceiveMessageWaitTime_def
  MaxVisibilityTimeout_def MaxMessageRetentionPeriod_def MaxMaximumMessageSize_def
  MaxDelaySeconds_def MaxReceiveMessageWaitTime_def MaxNumberOfMessages_def MaxBatchEntries_def
  MaxQueueNameLength_def MaxDeduplicationIdLength_def MaxMessageGroupIdLength_def
  MaxKmsDataKeyReusePeriodSeconds_def MaxQueueTags_def MaxTagKeyLength_def MaxTagValueLength_def
  MinMessageRetentionPeriod_def MinMaximumMessageSize_def MinVisibilityTimeout_def
  MinDelaySeconds_def MinReceiveMessageWaitTime_def MinKmsDataKeyReusePeriodSeconds_def

subsection \<open>Messages\<close>

record message_attribute =
  DataType :: string
  StringValue :: string
  BinaryValue :: string

record message =
  MessageID :: string
  ReceiptHandle :: string
  MD5OfBody :: string
  MD5OfMessageAttributes :: string
  Body :: string
  MessageAttributes :: "message_attribute gomap"
  Attributes :: "string gomap"
  MD5OfMessageSystemAttributes :: string
  SystemAttributes :: "message_attribute gomap"
  SentTimestamp :: time
  ReceivedTimestamp :: time
  FirstReceivedTimestamp :: time
  ApproximateReceiveCount :: int
  ApproximateFirstReceiveTimestamp :: time
  SequenceNumber :: string
  MessageDeduplicationID :: string
  MessageGroupID :: string
  VisibilityDeadline :: time
  IsVisible :: bool

text \<open>The zero value of the struct, from which a composite literal starts.\<close>

definition zero_message :: message where
  "zero_message = \<lparr> MessageID = '''', ReceiptHandle = '''', MD5OfBody = '''',
     MD5OfMessageAttributes = '''', Body = '''', MessageAttributes = [], Attributes = [],
     MD5OfMessageSystemAttributes = '''', SystemAttributes = [], SentTimestamp = zero_time,
     ReceivedTimestamp = zero_time, FirstReceivedTimestamp = zero_time,
     ApproximateReceiveCount = 0, ApproximateFirstReceiveTimestamp = zero_time,
     SequenceNumber = '''', MessageDeduplicationID = '''', MessageGroupID = '''',
     VisibilityDeadline = zero_time, IsVisible = False \<rparr>"

record receipt_handle_info =
  QueueName :: string
  InfoMessageID :: string
  ReceiveTimestamp :: time
  RandomNonce :: string

subsection \<open>Errors\<close>

text \<open>
  An \<open>error\<close> value is an SQS error or the text of \<open>fmt.Errorf\<close>.  \<open>%q\<close> is
  \<open>quote\<close>: Go's escapes for ASCII text; bytes of other code points are left as they are.
\<close>

record sqs_error =
  CodeValue :: string
  HTTPStatusValue :: int
  ErrorTypeValue :: string
  ErrorMessageValue :: string

datatype go_error = SQSErr sqs_error | Errorf string

fun error_text :: "go_error \<Rightarrow> string" where
  "error_text (SQSErr e) = CodeValue e @ '': '' @ ErrorMessageValue e"
| "error_text (Errorf s) = s"

fun code_of :: "go_error \<Rightarrow> string option" where
  "code_of (SQSErr e) = Some (CodeValue e)"
| "code_of (Errorf s) = None"

definition hex_digit :: "nat \<Rightarrow> char" where
  "hex_digit n = (if n < 10 then char_of (48 + n) else char_of (87 + n))"

definition hex_byte :: "char \<Rightarrow> string" where
  "hex_byte c = [hex_digit (of_char c div 16), hex_digit (of_char c mod 16)]"

definition EncodeToString_hex :: "string \<Rightarrow> string" where
  "EncodeToString_hex s = concat (map hex_byte s)"

definition quote_char :: "char \<Rightarrow> string" where
  "quote_char c =
     (let n = of_char c :: nat; bs = CHR 0x5C in
      if n = 34 \<or> n = 92 then [bs, c]
      else if n = 7 then [bs, CHR ''a''] else if n = 8 then [bs, CHR ''b'']
      else if n = 9 then [bs, CHR ''t''] else if n = 10 then [bs, CHR ''n'']
      else if n = 11 then [bs, CHR ''v''] else if n = 12 then [bs, CHR ''f'']
      else if n = 13 then [bs, CHR ''r'']
      else if n < 32 \<or> n = 127 then [bs, CHR ''x''] @ hex_byte c else [c])"

definition quote :: "string \<Rightarrow> string" where
  "quote s = [CHR 0x22] @ concat (map quote_char s) @ [CHR 0x22]"

definition sender_error :: "string \<Rightarrow> int \<Rightarrow> string \<Rightarrow> go_error" where
  "sender_error code status msg =
     SQSErr \<lparr> CodeValue = code, HTTPStatusValue = status, ErrorTypeValue = ''Sender'',
              ErrorMessageValue = msg \<rparr>"

definition default_msg :: "string \<Rightarrow> string \<Rightarrow> string" where
  "default_msg msg dflt = (if msg = '''' then dflt else msg)"

definition NewInvalidAction :: "string \<Rightarrow> go_error" where
  "NewInvalidAction msg = sender_error ''InvalidAction'' 400
     (default_msg msg ''The action is not valid for this endpoint.'')"

definition NewQueueDoesNotExist :: "string \<Rightarrow> go_error" where
  "NewQueueDoesNotExist msg = sender_error ''AWS.SimpleQueueService.NonExistentQueue'' 400
     (default_msg msg ''The specified queue does not exist.'')"

definition NewInvalidParameterValue :: "string \<Rightarrow> go_error" where
  "NewInvalidParameterValue msg = sender_error ''InvalidParameterValue'' 400 msg"

definition NewInvalidAttributeName :: "string \<Rightarrow> go_error" where
  "NewInvalidAttributeName msg = sender_error ''InvalidAttributeName'' 400 msg"

definition NewInvalidQueryParameter :: "string \<Rightarrow> go_error" where
  "NewInvalidQueryParameter msg = sender_error ''InvalidQueryParameter'' 400 msg"

definition NewMissingParameter :: "string \<Rightarrow> go_error" where
  "NewMissingParameter msg = sender_error ''MissingParameter'' 400 msg"

definition NewQueueNameExists :: "string \<Rightarrow> go_error" where
  "NewQueueNameExists msg = sender_error ''QueueAlreadyExists'' 400
     (default_msg msg
        ''A queue already exists with the same name and a different value for attribute.'')"

definition NewTooManyEntriesInBatchRequest :: "string \<Rightarrow> go_error" where
  "NewTooManyEntriesInBatchRequest msg =
     sender_error ''AWS.SimpleQueueService.TooManyEntriesInBatch'' 400 msg"

definition NewBatchEntryIdsNotDistinct :: "string \<Rightarrow> go_error" where
  "NewBatchEntryIdsNotDistinct msg =
     sender_error ''AWS.SimpleQueueService.BatchEntryIdsNotDistinct'' 400 msg"

definition NewInvalidMessageContents :: "string \<Rightarrow> go_error" where
  "NewInvalidMessageContents msg = sender_error ''InvalidMessageContents'' 400 msg"

definition NewInvalidAttributeValue :: "string \<Rightarrow> go_error" where
  "NewInvalidAttributeValue msg = sender_error ''InvalidAttributeValue'' 400 msg"

definition NewReceiptHandleIsInvalid :: "string \<Rightarrow> go_error" where
  "NewReceiptHandleIsInvalid msg = sender_error ''ReceiptHandleIsInvalid'' 400 msg"

definition NewOverLimit :: "string \<Rightarrow> go_error" where
  "NewOverLimit msg = sender_error ''OverLimit'' 403 msg"

definition NewInternalError :: "string \<Rightarrow> go_error" where
  "NewInternalError msg =
     SQSErr \<lparr> CodeValue = ''InternalError'', HTTPStatusValue = 500, ErrorTypeValue = ''Receiver'',
              ErrorMessageValue = default_msg msg ''Internal error.'' \<rparr>"

definition NewInvalidMessageID :: "string \<Rightarrow> go_error" where
  "NewInvalidMessageID msg = sender_error ''InvalidMessageId'' 400 msg"

definition NewUnsupportedOperation :: "string \<Rightarrow> go_error" where
  "NewUnsupportedOperation msg = sender_error ''UnsupportedOperation'' 400 msg"

definition NewPurgeQueueInProgress :: "string \<Rightarrow> go_error" where
  "NewPurgeQueueInProgress msg =
     sender_error ''AWS.SimpleQueueService.PurgeQueueInProgress'' 403
       (default_msg msg ''There is a purge request already in progress for this queue.'')"

lemmas error_defs =
  sender_error_def NewInvalidAction_def NewQueueDoesNotExist_def NewInvalidParameterValue_def
  NewInvalidAttributeName_def NewInvalidQueryParameter_def NewMissingParameter_def
  NewQueueNameExists_def NewTooManyEntriesInBatchRequest_def NewBatchEntryIdsNotDistinct_def
  NewInvalidMessageContents_def NewInvalidAttributeValue_def NewReceiptHandleIsInvalid_def
  NewOverLimit_def NewInternalError_def NewInvalidMessageID_def NewUnsupportedOperation_def
  NewPurgeQueueInProgress_def

text \<open>\<open>fmt.Errorf("store is closed")\<close>, the error every store gives once closed.\<close>

definition store_closed :: go_error where
  "store_closed = Errorf ''store is closed''"

definition invalid_handle :: "string \<Rightarrow> go_error" where
  "invalid_handle h = NewReceiptHandleIsInvalid (''Receipt handle '' @ h @ '' is invalid.'')"

lemma invalid_handle_code [simp]: "code_of (invalid_handle h) = Some ''ReceiptHandleIsInvalid''"
  by (simp add: invalid_handle_def error_defs)

lemma store_closed_code [simp]: "code_of store_closed = None"
  by (simp add: store_closed_def)

end
