(* ===== verification/Limits.thy ===== *)
theory Limits
  imports SQSTypes
begin

section \<open>Limits on messages and queues\<close>

text \<open>
  \<^verbatim>\<open>pkgs/v1/queue/limits.go\<close>.  A check returns \<open>None\<close> where the code returns
  \<open>nil\<close>, and \<open>Some\<close> error otherwise.
\<close>

datatype LimitsMode = StrictMode | RelaxedMode

text \<open>The relaxed limit is doubled; on overflow of \<open>int\<close> it is the greatest \<open>int\<close>.\<close>

definition effectiveMax :: "LimitsMode \<Rightarrow> int \<Rightarrow> int" where
  "effectiveMax mode maxMessageSize =
     (if mode = RelaxedMode then
        let e = wrap64 (maxMessageSize * 2) in if e < maxMessageSize then max_int64 else e
      else maxMessageSize)"

definition VerifyMessageSize :: "LimitsMode \<Rightarrow> string \<Rightarrow> int \<Rightarrow> go_error option" where
  "VerifyMessageSize mode body maxMessageSize =
     (let e = effectiveMax mode maxMessageSize in
      if int (length body) > e then
        Some (NewInvalidParameterValue (''Message too long: '' @ itoa (int (length body)) @
          '' bytes exceeds maximum '' @ itoa e @ '' bytes''))
      else None)"

definition VerifyBatchSize :: "int \<Rightarrow> go_error option" where
  "VerifyBatchSize entryCount =
     (if entryCount > MaxBatchEntries then
        Some (NewTooManyEntriesInBatchRequest (''Maximum number of entries per request are '' @
          itoa MaxBatchEntries @ ''. You have sent '' @ itoa entryCount))
      else None)"

text \<open>The range checks, with the text of the code's format string.\<close>

definition range_error :: "string \<Rightarrow> int \<Rightarrow> int \<Rightarrow> int \<Rightarrow> go_error" where
  "range_error name lo hi got =
     NewInvalidParameterValue (name @ '' must be between '' @ itoa lo @ '' and '' @ itoa hi @
       '', got '' @ itoa got)"

definition VerifyVisibilityTimeout :: "int \<Rightarrow> go_error option" where
  "VerifyVisibilityTimeout timeout =
     (if timeout < 0 \<or> timeout > MaxVisibilityTimeout
      then Some (range_error ''VisibilityTimeout'' 0 MaxVisibilityTimeout timeout) else None)"

definition VerifyDelaySeconds :: "int \<Rightarrow> go_error option" where
  "VerifyDelaySeconds delay =
     (if delay < 0 \<or> delay > MaxDelaySeconds
      then Some (range_error ''DelaySeconds'' 0 MaxDelaySeconds delay) else None)"

definition VerifyReceiveMessageWaitTime :: "int \<Rightarrow> go_error option" where
  "VerifyReceiveMessageWaitTime waitTime =
     (if waitTime < 0 \<or> waitTime > MaxReceiveMessageWaitTime
      then Some (range_error ''WaitTimeSeconds'' 0 MaxReceiveMessageWaitTime waitTime) else None)"

definition VerifyMaxNumberOfMessages :: "int \<Rightarrow> go_error option" where
  "VerifyMaxNumberOfMessages maxMessages =
     (if maxMessages < 1 \<or> maxMessages > MaxNumberOfMessages
      then Some (range_error ''MaxNumberOfMessages'' 1 MaxNumberOfMessages maxMessages) else None)"

definition VerifyMessageRetentionPeriod :: "int \<Rightarrow> go_error option" where
  "VerifyMessageRetentionPeriod retention =
     (if retention < MinMessageRetentionPeriod \<or> retention > MaxMessageRetentionPeriod
      then Some (range_error ''MessageRetentionPeriod'' MinMessageRetentionPeriod
             MaxMessageRetentionPeriod retention) else None)"

definition VerifyMaximumMessageSize :: "int \<Rightarrow> go_error option" where
  "VerifyMaximumMessageSize sz =
     (if sz < MinMaximumMessageSize \<or> sz > MaxMaximumMessageSize
      then Some (range_error ''MaximumMessageSize'' MinMaximumMessageSize
             MaxMaximumMessageSize sz) else None)"

subsection \<open>Queue names\<close>

text \<open>
  The code ranges over the code points of the name.  A code point outside ASCII is made of
  bytes from 128 on, none of which is a valid character, so the loop stops at the same
  place over the bytes; the text of the error shows the first offending byte, where Go
  prints the whole code point.
\<close>

definition name_char :: "char \<Rightarrow> bool" where
  "name_char c =
     (let n = of_char c :: nat in
      (97 \<le> n \<and> n \<le> 122) \<or> (65 \<le> n \<and> n \<le> 90) \<or> (48 \<le> n \<and> n \<le> 57) \<or>
      c = CHR ''-'' \<or> c = CHR ''_'')"

fun validateQueueNameChars :: "string \<Rightarrow> go_error option" where
  "validateQueueNameChars [] = None"
| "validateQueueNameChars (c # cs) =
     (if \<not> name_char c then Some (NewInvalidParameterValue (''Invalid character in QueueName: '' @ [c]))
      else validateQueueNameChars cs)"

definition VerifyQueueName :: "string \<Rightarrow> go_error option" where
  "VerifyQueueName name =
     (if length name = 0 then Some (NewInvalidParameterValue ''QueueName must not be empty'')
      else if int (length name) > MaxQueueNameLength then
        Some (NewInvalidParameterValue (''QueueName too long: '' @ itoa (int (length name)) @
          '' characters, maximum is '' @ itoa MaxQueueNameLength))
      else if HasSuffix name ''.fifo'' then
        validateQueueNameChars (TrimSuffix name ''.fifo'')
      else validateQueueNameChars name)"

definition VerifyDeduplicationId :: "string \<Rightarrow> go_error option" where
  "VerifyDeduplicationId i =
     (if int (length i) > MaxDeduplicationIdLength then
        Some (NewInvalidParameterValue (''MessageDeduplicationId too long: '' @
          itoa (int (length i)) @ '' characters, maximum is '' @ itoa MaxDeduplicationIdLength))
      else None)"

definition VerifyMessageGroupId :: "string \<Rightarrow> go_error option" where
  "VerifyMessageGroupId i =
     (if int (length i) > MaxMessageGroupIdLength then
        Some (NewInvalidParameterValue (''MessageGroupId too long: '' @
          itoa (int (length i)) @ '' characters, maximum is '' @ itoa MaxMessageGroupIdLength))
      else None)"

subsection \<open>What the checks accept\<close>

lemma validateQueueNameChars_None:
  "validateQueueNameChars name = None \<longleftrightarrow> (\<forall>c \<in> set name. name_char c)"
  by (induction name) auto

lemma name_char_dot [simp]: "\<not> name_char CHR ''.''"
  by (simp add: name_char_def)

lemma effectiveMax_ge:
  assumes "0 \<le> m" and "m < 2 ^ 63"
  shows "effectiveMax mode m = (if mode = RelaxedMode then min (2 * m) max_int64 else m)"
proof (cases "m < 2 ^ 62")
  case True
  with assms have "wrap64 (m * 2) = m * 2" by (intro wrap64_id) auto
  with assms True show ?thesis by (simp add: effectiveMax_def Let_def)
next
  case False
  with assms have "(m * 2 + 2 ^ 63) mod 2 ^ 64 = m * 2 + 2 ^ 63 - 2 ^ 64"
    by (intro mod_once) auto
  with assms False show ?thesis by (simp add: effectiveMax_def wrap64_def Let_def)
qed

text \<open>
  A queue name passes \<open>VerifyQueueName\<close> exactly when it has 1 to 80 bytes and
  consists of letters, digits, hyphens and underscores, with an optional \<open>.fifo\<close> at
  the end and nowhere else a dot.
\<close>

theorem VerifyQueueName_iff:
  "VerifyQueueName name = None \<longleftrightarrow>
     name \<noteq> [] \<and> length name \<le> 80 \<and>
     (\<exists>base. (\<forall>c \<in> set base. name_char c) \<and> (name = base \<or> name = base @ ''.fifo''))"
proof (cases "HasSuffix name ''.fifo''")
  case True
  then obtain b where b: "name = b @ ''.fifo''" by (auto simp: HasSuffix_iff)
  have "\<not> (\<forall>c \<in> set name. name_char c)" by (simp add: b)
  then show ?thesis
    by (auto simp: VerifyQueueName_def limit_defs b validateQueueNameChars_None)
next
  case False
  then have "\<nexists>b. name = b @ ''.fifo''" by (simp add: HasSuffix_iff)
  with False show ?thesis
    by (auto simp: VerifyQueueName_def limit_defs validateQueueNameChars_None)
qed

lemma VerifyQueueName_iff_witness: "VerifyQueueName ''jobs-1.fifo'' = None"
proof -
  have "\<forall>c \<in> set ''jobs-1''. name_char c" by (simp add: name_char_def)
  then show ?thesis
    unfolding VerifyQueueName_iff by (intro conjI exI [of _ "''jobs-1''"]) simp_all
qed

end
