(* ===== verification/RedrivePolicy.thy ===== *)
theory RedrivePolicy
  imports SQSTypes
begin

section \<open>Redrive policies\<close>

text \<open>
  \<^verbatim>\<open>pkgs/v1/queue/dlq/redrive.go\<close>.  The JSON package is a parameter: \<open>unmarshal\<close> is
  \<open>json.Unmarshal\<close> into the struct of a string and a \<open>json.Number\<close> (\<open>None\<close>
  for an error, a missing field is the empty string), \<open>marshal\<close> is \<open>json.Marshal\<close>
  of a map of strings.
\<close>

type_synonym json_policy = "string \<Rightarrow> (string \<times> string) option"

record RedrivePolicy =
  DeadLetterTargetArn :: string
  MaxReceiveCount :: int

definition ParseRedrivePolicy :: "json_policy \<Rightarrow> string \<Rightarrow> go_error + RedrivePolicy" where
  "ParseRedrivePolicy unmarshal jsonStr =
     (if jsonStr = '''' then Inl (Errorf ''empty redrive policy'')
      else case unmarshal jsonStr of
        None \<Rightarrow> Inl (Errorf ''invalid redrive policy JSON'')
      | Some (arn, number) \<Rightarrow>
          if arn = '''' then Inl (Errorf ''redrive policy missing deadLetterTargetArn'')
          else case ParseInt number of
            (count, NumOK) \<Rightarrow> Inr \<lparr> DeadLetterTargetArn = arn, MaxReceiveCount = count \<rparr>
          | (count, _) \<Rightarrow> Inl (Errorf ''invalid maxReceiveCount in redrive policy''))"

definition RedrivePolicy_String :: "((string \<times> string) list \<Rightarrow> string) \<Rightarrow> RedrivePolicy \<Rightarrow> string" where
  "RedrivePolicy_String marshal rp =
     marshal [(''deadLetterTargetArn'', DeadLetterTargetArn rp),
              (''maxReceiveCount'', itoa (MaxReceiveCount rp))]"

lemma ParseRedrivePolicy_arn:
  "ParseRedrivePolicy unmarshal s = Inr rp \<Longrightarrow> DeadLetterTargetArn rp \<noteq> ''''"
  by (auto simp: ParseRedrivePolicy_def split: option.splits if_splits prod.splits num_err.splits)

lemma ParseRedrivePolicy_empty [simp]: "ParseRedrivePolicy unmarshal '''' = Inl (Errorf ''empty redrive policy'')"
  by (simp add: ParseRedrivePolicy_def)

end
