(* ===== verification/Attributes.thy ===== *)
theory Attributes
  imports Limits RedrivePolicy
begin

section \<open>Queue attributes\<close>

text \<open>
  \<^verbatim>\<open>pkgs/v1/queue/attributes.go\<close>.  The struct without its mutex (each method holds it
  from start to end), read and written by attribute name.  An update that fails returns the
  error and leaves the struct alone.  Field \<open>qa_X\<close> is the Go field \<open>X\<close>.
\<close>

record queue_attributes =
  qa_VisibilityTimeout :: int
  qa_DelaySeconds :: int
  qa_MaximumMessageSize :: int
  qa_MessageRetentionPeriod :: int
  qa_ReceiveMessageWaitTimeSeconds :: int
  qa_QueueArn :: string
  qa_Policy :: string
  qa_RedrivePolicy :: string
  qa_FifoQueue :: bool
  qa_ContentBasedDeduplication :: bool
  qa_KmsMasterKeyId :: string
  qa_KmsDataKeyReusePeriodSeconds :: int
  qa_DeduplicationScope :: string
  qa_FifoThroughputLimit :: string
  qa_SqsManagedSseEnabled :: bool

definition NewDefaultQueueAttributes :: queue_attributes where
  "NewDefaultQueueAttributes = \<lparr>
     qa_VisibilityTimeout = DefaultVisibilityTimeout,
     qa_DelaySeconds = DefaultDelaySeconds,
     qa_MaximumMessageSize = DefaultMaximumMessageSize,
     qa_MessageRetentionPeriod = DefaultMessageRetentionPeriod,
     qa_ReceiveMessageWaitTimeSeconds = DefaultReceiveMessageWaitTime,
     qa_QueueArn = '''',
     qa_Policy = '''',
     qa_RedrivePolicy = '''',
     qa_FifoQueue = False,
     qa_ContentBasedDeduplication = False,
     qa_KmsMasterKeyId = '''',
     qa_KmsDataKeyReusePeriodSeconds = 0,
     qa_DeduplicationScope = '''',
     qa_FifoThroughputLimit = '''',
     qa_SqsManagedSseEnabled = True \<rparr>"

definition GetAttribute :: "queue_attributes \<Rightarrow> string \<Rightarrow> string option" where
  "GetAttribute a name =
     (if name = ''VisibilityTimeout'' then Some (itoa (qa_VisibilityTimeout a))
      else if name = ''DelaySeconds'' then Some (itoa (qa_DelaySeconds a))
      else if name = ''MaximumMessageSize'' then Some (itoa (qa_MaximumMessageSize a))
      else if name = ''MessageRetentionPeriod'' then Some (itoa (qa_MessageRetentionPeriod a))
      else if name = ''ReceiveMessageWaitTimeSeconds'' then Some (itoa (qa_ReceiveMessageWaitTimeSeconds a))
      else if name = ''QueueArn'' then Some (qa_QueueArn a)
      else if name = ''Policy'' then Some (qa_Policy a)
      else if name = ''RedrivePolicy'' then Some (qa_RedrivePolicy a)
      else if name = ''FifoQueue'' then Some (FormatBool (qa_FifoQueue a))
      else if name = ''ContentBasedDeduplication'' then Some (FormatBool (qa_ContentBasedDeduplication a))
      else if name = ''KmsMasterKeyId'' then Some (qa_KmsMasterKeyId a)
      else if name = ''KmsDataKeyReusePeriodSeconds'' then Some (itoa (qa_KmsDataKeyReusePeriodSeconds a))
      else if name = ''DeduplicationScope'' then Some (qa_DeduplicationScope a)
      else if name = ''FifoThroughputLimit'' then Some (qa_FifoThroughputLimit a)
      else if name = ''SqsManagedSseEnabled'' then Some (FormatBool (qa_SqsManagedSseEnabled a))
      else None)"

subsection \<open>Setting attributes\<close>

text \<open>The three kinds of case of the switch: a bounded integer, a boolean, a redrive policy.\<close>

definition set_int :: "string \<Rightarrow> int \<Rightarrow> int \<Rightarrow> string \<Rightarrow> (int \<Rightarrow> queue_attributes) \<Rightarrow> go_error + queue_attributes" where
  "set_int name lo hi val upd =
     (case Atoi val of
        (v, NumOK) \<Rightarrow>
          if v < lo \<or> v > hi then
            Inl (Errorf (name @ '' must be between '' @ itoa lo @ '' and '' @ itoa hi))
          else Inr (upd v)
      | (v, _) \<Rightarrow> Inl (Errorf (''invalid '' @ name @ '': '' @ val)))"

definition set_bool :: "string \<Rightarrow> string \<Rightarrow> (bool \<Rightarrow> queue_attributes) \<Rightarrow> go_error + queue_attributes" where
  "set_bool name val upd =
     (case ParseBool val of
        Some v \<Rightarrow> Inr (upd v)
      | None \<Rightarrow> Inl (Errorf (''invalid '' @ name @ '': '' @ val)))"

definition set_policy :: "json_policy \<Rightarrow> string \<Rightarrow> queue_attributes \<Rightarrow> go_error + queue_attributes" where
  "set_policy J val a' =
     (case ParseRedrivePolicy J val of
        Inl e \<Rightarrow> Inl (Errorf (''invalid RedrivePolicy: '' @ error_text e))
      | Inr rp \<Rightarrow>
          if DeadLetterTargetArn rp = '''' then
            Inl (Errorf ''invalid RedrivePolicy: deadLetterTargetArn is required'')
          else if MaxReceiveCount rp < 1 \<or> MaxReceiveCount rp > 1000 then
            Inl (Errorf ''invalid RedrivePolicy: maxReceiveCount must be between 1 and 1000'')
          else Inr a')"

definition SetAttribute :: "json_policy \<Rightarrow> queue_attributes \<Rightarrow> string \<Rightarrow> string \<Rightarrow> go_error + queue_attributes" where
  "SetAttribute J a name val =
     (if name = ''VisibilityTimeout'' then set_int ''VisibilityTimeout'' MinVisibilityTimeout MaxVisibilityTimeout val (\<lambda>v. a\<lparr>qa_VisibilityTimeout := v\<rparr>)
      else if name = ''DelaySeconds'' then set_int ''DelaySeconds'' MinDelaySeconds MaxDelaySeconds val (\<lambda>v. a\<lparr>qa_DelaySeconds := v\<rparr>)
      else if name = ''MaximumMessageSize'' then set_int ''MaximumMessageSize'' MinMaximumMessageSize MaxMaximumMessageSize val (\<lambda>v. a\<lparr>qa_MaximumMessageSize := v\<rparr>)
      else if name = ''MessageRetentionPeriod'' then set_int ''MessageRetentionPeriod'' MinMessageRetentionPeriod MaxMessageRetentionPeriod val (\<lambda>v. a\<lparr>qa_MessageRetentionPeriod := v\<rparr>)
      else if name = ''ReceiveMessageWaitTimeSeconds'' then set_int ''ReceiveMessageWaitTimeSeconds'' MinReceiveMessageWaitTime MaxReceiveMessageWaitTime val (\<lambda>v. a\<lparr>qa_ReceiveMessageWaitTimeSeconds := v\<rparr>)
      else if name = ''QueueArn'' then Inr (a\<lparr>qa_QueueArn := val\<rparr>)
      else if name = ''Policy'' then Inr (a\<lparr>qa_Policy := val\<rparr>)
      else if name = ''RedrivePolicy'' then set_policy J val (a\<lparr>qa_RedrivePolicy := val\<rparr>)
      else if name = ''FifoQueue'' then set_bool ''FifoQueue'' val (\<lambda>v. a\<lparr>qa_FifoQueue := v\<rparr>)
      else if name = ''ContentBasedDeduplication'' then set_bool ''ContentBasedDeduplication'' val (\<lambda>v. a\<lparr>qa_ContentBasedDeduplication := v\<rparr>)
      else if name = ''KmsMasterKeyId'' then Inr (a\<lparr>qa_KmsMasterKeyId := val\<rparr>)
      else if name = ''KmsDataKeyReusePeriodSeconds'' then set_int ''KmsDataKeyReusePeriodSeconds'' MinKmsDataKeyReusePeriodSeconds MaxKmsDataKeyReusePeriodSeconds val (\<lambda>v. a\<lparr>qa_KmsDataKeyReusePeriodSeconds := v\<rparr>)
      else if name = ''DeduplicationScope'' then Inr (a\<lparr>qa_DeduplicationScope := val\<rparr>)
      else if name = ''FifoThroughputLimit'' then Inr (a\<lparr>qa_FifoThroughputLimit := val\<rparr>)
      else if name = ''SqsManagedSseEnabled'' then set_bool ''SqsManagedSseEnabled'' val (\<lambda>v. a\<lparr>qa_SqsManagedSseEnabled := v\<rparr>)
      else Inl (Errorf (''unknown attribute: '' @ name)))"

text \<open>The unlocked copy of the same switch, which \<open>SetAttributes\<close> runs on a clone.\<close>

definition validateAndSet :: "json_policy \<Rightarrow> queue_attributes \<Rightarrow> string \<Rightarrow> string \<Rightarrow> go_error + queue_attributes" where
  "validateAndSet J a name val =
     (if name = ''VisibilityTimeout'' then set_int ''VisibilityTimeout'' MinVisibilityTimeout MaxVisibilityTimeout val (\<lambda>v. a\<lparr>qa_VisibilityTimeout := v\<rparr>)
      else if name = ''DelaySeconds'' then set_int ''DelaySeconds'' MinDelaySeconds MaxDelaySeconds val (\<lambda>v. a\<lparr>qa_DelaySeconds := v\<rparr>)
      else if name = ''MaximumMessageSize'' then set_int ''MaximumMessageSize'' MinMaximumMessageSize MaxMaximumMessageSize val (\<lambda>v. a\<lparr>qa_MaximumMessageSize := v\<rparr>)
      else if name = ''MessageRetentionPeriod'' then set_int ''MessageRetentionPeriod'' MinMessageRetentionPeriod MaxMessageRetentionPeriod val (\<lambda>v. a\<lparr>qa_MessageRetentionPeriod := v\<rparr>)
      else if name = ''ReceiveMessageWaitTimeSeconds'' then set_int ''ReceiveMessageWaitTimeSeconds'' MinReceiveMessageWaitTime MaxReceiveMessageWaitTime val (\<lambda>v. a\<lparr>qa_ReceiveMessageWaitTimeSeconds := v\<rparr>)
      else if name = ''QueueArn'' then Inr (a\<lparr>qa_QueueArn := val\<rparr>)
      else if name = ''Policy'' then Inr (a\<lparr>qa_Policy := val\<rparr>)
      else if name = ''RedrivePolicy'' then set_policy J val (a\<lparr>qa_RedrivePolicy := val\<rparr>)
      else if name = ''FifoQueue'' then set_bool ''FifoQueue'' val (\<lambda>v. a\<lparr>qa_FifoQueue := v\<rparr>)
      else if name = ''ContentBasedDeduplication'' then set_bool ''ContentBasedDeduplication'' val (\<lambda>v. a\<lparr>qa_ContentBasedDeduplication := v\<rparr>)
      else if name = ''KmsMasterKeyId'' then Inr (a\<lparr>qa_KmsMasterKeyId := val\<rparr>)
      else if name = ''KmsDataKeyReusePeriodSeconds'' then set_int ''KmsDataKeyReusePeriodSeconds'' MinKmsDataKeyReusePeriodSeconds MaxKmsDataKeyReusePeriodSeconds val (\<lambda>v. a\<lparr>qa_KmsDataKeyReusePeriodSeconds := v\<rparr>)
      else if name = ''DeduplicationScope'' then Inr (a\<lparr>qa_DeduplicationScope := val\<rparr>)
      else if name = ''FifoThroughputLimit'' then Inr (a\<lparr>qa_FifoThroughputLimit := val\<rparr>)
      else if name = ''SqsManagedSseEnabled'' then set_bool ''SqsManagedSseEnabled'' val (\<lambda>v. a\<lparr>qa_SqsManagedSseEnabled := v\<rparr>)
      else Inl (Errorf (''unknown attribute: '' @ name)))"

text \<open>
  \<open>SetAttributes\<close> ranges over a Go map, whose order is not determined: the list gives the
  entries in the order of one run.
\<close>

fun set_all :: "json_policy \<Rightarrow> queue_attributes \<Rightarrow> string gomap \<Rightarrow> go_error + queue_attributes" where
  "set_all J clone [] = Inr clone"
| "set_all J clone ((name, val) # rest) =
     (case validateAndSet J clone name val of
        Inl e \<Rightarrow> Inl e
      | Inr clone' \<Rightarrow> set_all J clone' rest)"

definition cloneUnlocked :: "queue_attributes \<Rightarrow> queue_attributes" where
  "cloneUnlocked a = \<lparr>
     qa_VisibilityTimeout = qa_VisibilityTimeout a,
     qa_DelaySeconds = qa_DelaySeconds a,
     qa_MaximumMessageSize = qa_MaximumMessageSize a,
     qa_MessageRetentionPeriod = qa_MessageRetentionPeriod a,
     qa_ReceiveMessageWaitTimeSeconds = qa_ReceiveMessageWaitTimeSeconds a,
     qa_QueueArn = qa_QueueArn a,
     qa_Policy = qa_Policy a,
     qa_RedrivePolicy = qa_RedrivePolicy a,
     qa_FifoQueue = qa_FifoQueue a,
     qa_ContentBasedDeduplication = qa_ContentBasedDeduplication a,
     qa_KmsMasterKeyId = qa_KmsMasterKeyId a,
     qa_KmsDataKeyReusePeriodSeconds = qa_KmsDataKeyReusePeriodSeconds a,
     qa_DeduplicationScope = qa_DeduplicationScope a,
     qa_FifoThroughputLimit = qa_FifoThroughputLimit a,
     qa_SqsManagedSseEnabled = qa_SqsManagedSseEnabled a \<rparr>"

definition SetAttributes :: "json_policy \<Rightarrow> queue_attributes \<Rightarrow> string gomap \<Rightarrow> go_error option \<times> queue_attributes" where
  "SetAttributes J a attrs =
     (case set_all J (cloneUnlocked a) attrs of
        Inl e \<Rightarrow> (Some e, a)
      | Inr clone \<Rightarrow> (None, a\<lparr>
          qa_VisibilityTimeout := qa_VisibilityTimeout clone,
          qa_DelaySeconds := qa_DelaySeconds clone,
          qa_MaximumMessageSize := qa_MaximumMessageSize clone,
          qa_MessageRetentionPeriod := qa_MessageRetentionPeriod clone,
          qa_ReceiveMessageWaitTimeSeconds := qa_ReceiveMessageWaitTimeSeconds clone,
          qa_QueueArn := qa_QueueArn clone,
          qa_Policy := qa_Policy clone,
          qa_RedrivePolicy := qa_RedrivePolicy clone,
          qa_FifoQueue := qa_FifoQueue clone,
          qa_ContentBasedDeduplication := qa_ContentBasedDeduplication clone,
          qa_KmsMasterKeyId := qa_KmsMasterKeyId clone,
          qa_KmsDataKeyReusePeriodSeconds := qa_KmsDataKeyReusePeriodSeconds clone,
          qa_DeduplicationScope := qa_DeduplicationScope clone,
          qa_FifoThroughputLimit := qa_FifoThroughputLimit clone,
          qa_SqsManagedSseEnabled := qa_SqsManagedSseEnabled clone \<rparr>))"

definition AllAttributes :: "queue_attributes \<Rightarrow> string gomap" where
  "AllAttributes a = [
     (''VisibilityTimeout'', itoa (qa_VisibilityTimeout a)),
     (''DelaySeconds'', itoa (qa_DelaySeconds a)),
     (''MaximumMessageSize'', itoa (qa_MaximumMessageSize a)),
     (''MessageRetentionPeriod'', itoa (qa_MessageRetentionPeriod a)),
     (''ReceiveMessageWaitTimeSeconds'', itoa (qa_ReceiveMessageWaitTimeSeconds a)),
     (''QueueArn'', qa_QueueArn a),
     (''Policy'', qa_Policy a),
     (''RedrivePolicy'', qa_RedrivePolicy a),
     (''FifoQueue'', FormatBool (qa_FifoQueue a)),
     (''ContentBasedDeduplication'', FormatBool (qa_ContentBasedDeduplication a)),
     (''KmsMasterKeyId'', qa_KmsMasterKeyId a),
     (''KmsDataKeyReusePeriodSeconds'', itoa (qa_KmsDataKeyReusePeriodSeconds a)),
     (''DeduplicationScope'', qa_DeduplicationScope a),
     (''FifoThroughputLimit'', qa_FifoThroughputLimit a),
     (''SqsManagedSseEnabled'', FormatBool (qa_SqsManagedSseEnabled a))]"

definition validAttributes :: "string list" where
  "validAttributes = [
     ''VisibilityTimeout'',
     ''DelaySeconds'',
     ''MaximumMessageSize'',
     ''MessageRetentionPeriod'',
     ''ReceiveMessageWaitTimeSeconds'',
     ''QueueArn'',
     ''Policy'',
     ''RedrivePolicy'',
     ''FifoQueue'',
     ''ContentBasedDeduplication'',
     ''KmsMasterKeyId'',
     ''KmsDataKeyReusePeriodSeconds'',
     ''DeduplicationScope'',
     ''FifoThroughputLimit'',
     ''SqsManagedSseEnabled'']"

subsection \<open>What an update does\<close>

text \<open>
  The value a name has after an update, read field by field: \<open>attr_merge J a m\<close> takes
  from the map \<open>m\<close> every attribute it holds and the rest from \<open>a\<close>.
\<close>

definition pick_int :: "(string \<rightharpoonup> string) \<Rightarrow> string \<Rightarrow> int \<Rightarrow> int" where
  "pick_int m name old = (case m name of None \<Rightarrow> old | Some v \<Rightarrow> fst (Atoi v))"

definition pick_bool :: "(string \<rightharpoonup> string) \<Rightarrow> string \<Rightarrow> bool \<Rightarrow> bool" where
  "pick_bool m name old = (case m name of None \<Rightarrow> old | Some v \<Rightarrow> ParseBool v = Some True)"

definition pick_text :: "(string \<rightharpoonup> string) \<Rightarrow> string \<Rightarrow> string \<Rightarrow> string" where
  "pick_text m name old = (case m name of None \<Rightarrow> old | Some v \<Rightarrow> v)"

definition attr_merge :: "queue_attributes \<Rightarrow> (string \<rightharpoonup> string) \<Rightarrow> queue_attributes" where
  "attr_merge a m = \<lparr>
     qa_VisibilityTimeout = pick_int m ''VisibilityTimeout'' (qa_VisibilityTimeout a),
     qa_DelaySeconds = pick_int m ''DelaySeconds'' (qa_DelaySeconds a),
     qa_MaximumMessageSize = pick_int m ''MaximumMessageSize'' (qa_MaximumMessageSize a),
     qa_MessageRetentionPeriod = pick_int m ''MessageRetentionPeriod'' (qa_MessageRetentionPeriod a),
     qa_ReceiveMessageWaitTimeSeconds = pick_int m ''ReceiveMessageWaitTimeSeconds'' (qa_ReceiveMessageWaitTimeSeconds a),
     qa_QueueArn = pick_text m ''QueueArn'' (qa_QueueArn a),
     qa_Policy = pick_text m ''Policy'' (qa_Policy a),
     qa_RedrivePolicy = pick_text m ''RedrivePolicy'' (qa_RedrivePolicy a),
     qa_FifoQueue = pick_bool m ''FifoQueue'' (qa_FifoQueue a),
     qa_ContentBasedDeduplication = pick_bool m ''ContentBasedDeduplication'' (qa_ContentBasedDeduplication a),
     qa_KmsMasterKeyId = pick_text m ''KmsMasterKeyId'' (qa_KmsMasterKeyId a),
     qa_KmsDataKeyReusePeriodSeconds = pick_int m ''KmsDataKeyReusePeriodSeconds'' (qa_KmsDataKeyReusePeriodSeconds a),
     qa_DeduplicationScope = pick_text m ''DeduplicationScope'' (qa_DeduplicationScope a),
     qa_FifoThroughputLimit = pick_text m ''FifoThroughputLimit'' (qa_FifoThroughputLimit a),
     qa_SqsManagedSseEnabled = pick_bool m ''SqsManagedSseEnabled'' (qa_SqsManagedSseEnabled a) \<rparr>"

definition attr_valid :: "json_policy \<Rightarrow> string \<Rightarrow> string \<Rightarrow> bool" where
  "attr_valid J name val \<longleftrightarrow> \<not> isl (SetAttribute J NewDefaultQueueAttributes name val)"

lemmas set_defs = set_int_def set_bool_def set_policy_def

lemma validateAndSet_eq: "validateAndSet J a name val = SetAttribute J a name val"
  by (simp only: validateAndSet_def SetAttribute_def)

lemma cloneUnlocked_id [simp]: "cloneUnlocked a = a"
  by (simp add: cloneUnlocked_def)

lemma set_int_Inr:
  "set_int n lo hi v upd = Inr a' \<longleftrightarrow>
     snd (Atoi v) = NumOK \<and> lo \<le> fst (Atoi v) \<and> fst (Atoi v) \<le> hi \<and> a' = upd (fst (Atoi v))"
  by (auto simp: set_int_def split: prod.splits num_err.splits)

lemma set_bool_Inr:
  "set_bool n v upd = Inr a' \<longleftrightarrow> ParseBool v \<noteq> None \<and> a' = upd (ParseBool v = Some True)"
  by (auto simp: set_bool_def split: option.splits)

lemma set_policy_Inr:
  "set_policy J v a = Inr a' \<longleftrightarrow>
     (\<exists>rp. ParseRedrivePolicy J v = Inr rp \<and> 1 \<le> MaxReceiveCount rp \<and> MaxReceiveCount rp \<le> 1000)
     \<and> a' = a"
  using ParseRedrivePolicy_arn
  by (auto simp: set_policy_def split: sum.splits)

lemmas set_Inr = set_int_Inr set_bool_Inr set_policy_Inr

lemma SetAttribute_name:
  assumes "SetAttribute J a name val = Inr a'"
  shows "name \<in> set validAttributes"
proof (rule ccontr)
  assume "\<not> ?thesis"
  with assms show False by (simp add: SetAttribute_def validAttributes_def)
qed

lemma valid_name_cases:
  assumes "name \<in> set validAttributes"
    and "list_all P validAttributes"
  shows "P name"
  using assms by (auto simp: list_all_iff)

lemmas pick_defs = pick_int_def pick_bool_def pick_text_def

lemma SetAttribute_merge_all:
  "list_all (\<lambda>name. SetAttribute J a name val = Inr a' \<longrightarrow> a' = attr_merge a [name \<mapsto> val]) validAttributes"
  by (cases a) (simp add: validAttributes_def SetAttribute_def set_Inr attr_merge_def pick_defs)

lemma SetAttribute_merge: "SetAttribute J a name val = Inr a' \<Longrightarrow> a' = attr_merge a [name \<mapsto> val]"
  using SetAttribute_name SetAttribute_merge_all [of J a val a']
  by (auto simp: list_all_iff)

lemma SetAttribute_indep_all:
  "list_all (\<lambda>name. (\<exists>a'. SetAttribute J a name val = Inr a') \<longrightarrow>
     (\<exists>b'. SetAttribute J b name val = Inr b')) validAttributes"
  by (simp add: validAttributes_def SetAttribute_def set_Inr)

text \<open>Whether a value is accepted does not depend on the current attributes.\<close>

lemma SetAttribute_accepts:
  "(\<exists>a'. SetAttribute J a name val = Inr a') \<longleftrightarrow> attr_valid J name val"
proof -
  have "\<exists>b'. SetAttribute J b name val = Inr b'" if "\<exists>a'. SetAttribute J a name val = Inr a'" for a b
    using that SetAttribute_name SetAttribute_indep_all [of J a val b]
    by (auto simp: list_all_iff)
  then show ?thesis unfolding attr_valid_def by (metis isl_def sum.exhaust sum.distinct(1))
qed

lemma SetAttribute_valid:
  "attr_valid J name val \<Longrightarrow> SetAttribute J a name val = Inr (attr_merge a [name \<mapsto> val])"
  using SetAttribute_accepts [of J a name val] SetAttribute_merge [of J a name val] by blast

lemma SetAttribute_invalid:
  "\<not> attr_valid J name val \<Longrightarrow> \<exists>e. SetAttribute J a name val = Inl e"
  using SetAttribute_accepts [of J a name val] by (cases "SetAttribute J a name val") auto

lemma pick_merge:
  "m k = None \<Longrightarrow> pick_int m name (pick_int [k \<mapsto> v] name x) = pick_int (m(k \<mapsto> v)) name x"
  "m k = None \<Longrightarrow> pick_bool m name (pick_bool [k \<mapsto> v] name b) = pick_bool (m(k \<mapsto> v)) name b"
  "m k = None \<Longrightarrow> pick_text m name (pick_text [k \<mapsto> v] name t) = pick_text (m(k \<mapsto> v)) name t"
  by (auto simp: pick_defs split: option.splits)

lemma pick_empty [simp]:
  "pick_int Map.empty name x = x" "pick_bool Map.empty name b = b" "pick_text Map.empty name t = t"
  by (simp_all add: pick_defs)

lemma attr_merge_empty [simp]: "attr_merge a Map.empty = a"
  by (simp add: attr_merge_def)

lemma attr_merge_merge:
  "m k = None \<Longrightarrow> attr_merge (attr_merge a [k \<mapsto> v]) m = attr_merge a (m(k \<mapsto> v))"
  by (simp add: attr_merge_def pick_merge del: fun_upd_apply)

lemma set_all_Inr:
  "distinct (map fst l) \<Longrightarrow> \<forall>(n, v) \<in> set l. attr_valid J n v \<Longrightarrow>
   set_all J a l = Inr (attr_merge a (map_of l))"
proof (induction l arbitrary: a)
  case (Cons p l)
  obtain n v where p: "p = (n, v)" by fastforce
  then have n: "map_of l n = None" using Cons.prems by (auto simp: map_of_eq_None_iff)
  have "set_all J a (p # l) = set_all J (attr_merge a [n \<mapsto> v]) l"
    using Cons.prems p by (simp add: validateAndSet_eq SetAttribute_valid)
  also have "\<dots> = Inr (attr_merge (attr_merge a [n \<mapsto> v]) (map_of l))"
    using Cons p by simp
  also have "\<dots> = Inr (attr_merge a (map_of (p # l)))"
    using attr_merge_merge [of "map_of l" n a v] n p by (simp add: fun_upd_def)
  finally show ?case .
qed simp

lemma set_all_Inl:
  "\<not> (\<forall>(n, v) \<in> set l. attr_valid J n v) \<Longrightarrow> isl (set_all J a l)"
proof (induction l arbitrary: a)
  case (Cons p l)
  obtain n v where p: "p = (n, v)" by fastforce
  show ?case
  proof (cases "attr_valid J n v")
    case True
    with Cons p show ?thesis by (auto simp: validateAndSet_eq SetAttribute_valid)
  next
    case False
    with p show ?thesis
      using SetAttribute_invalid [of J n v a] by (auto simp: validateAndSet_eq)
  qed
qed simp

lemmas set_all_eq = set_all_Inr set_all_Inl

lemma SetAttributes_clone:
  "set_all J a l = Inr c \<Longrightarrow> SetAttributes J a l = (None, c)"
  by (cases a; cases c) (simp add: SetAttributes_def)

lemma SetAttributes_error:
  "isl (set_all J a l) \<Longrightarrow> \<exists>e. SetAttributes J a l = (Some e, a)"
  by (auto simp: SetAttributes_def isl_def)

subsection \<open>Properties\<close>

text \<open>
  \<open>SetAttributes\<close> is all or nothing: when every entry is acceptable the result is the
  field-by-field merge of the request into the attributes, and otherwise an error is returned
  and nothing changes.  The result is therefore the same for every order in which Go may
  enumerate the request's map.
\<close>

theorem SetAttributes_all_or_nothing:
  assumes "distinct (map fst l)"
  shows "if \<forall>(n, v) \<in> set l. attr_valid J n v
         then SetAttributes J a l = (None, attr_merge a (map_of l))
         else \<exists>e. SetAttributes J a l = (Some e, a)"
  using assms by (simp add: set_all_eq SetAttributes_clone SetAttributes_error)

definition attrs_bounded :: "queue_attributes \<Rightarrow> bool" where
  "attrs_bounded a \<longleftrightarrow>
     0 \<le> qa_VisibilityTimeout a \<and> qa_VisibilityTimeout a \<le> 43200 \<and>
     0 \<le> qa_DelaySeconds a \<and> qa_DelaySeconds a \<le> 900 \<and>
     1024 \<le> qa_MaximumMessageSize a \<and> qa_MaximumMessageSize a \<le> 262144 \<and>
     60 \<le> qa_MessageRetentionPeriod a \<and> qa_MessageRetentionPeriod a \<le> 1209600 \<and>
     0 \<le> qa_ReceiveMessageWaitTimeSeconds a \<and> qa_ReceiveMessageWaitTimeSeconds a \<le> 20 \<and>
     (qa_KmsDataKeyReusePeriodSeconds a = 0 \<or>
      60 \<le> qa_KmsDataKeyReusePeriodSeconds a \<and> qa_KmsDataKeyReusePeriodSeconds a \<le> 86400)"

lemma attrs_bounded_default: "attrs_bounded NewDefaultQueueAttributes"
  by (simp add: attrs_bounded_def NewDefaultQueueAttributes_def limit_defs)

lemma SetAttribute_bounded_all:
  "attrs_bounded a \<Longrightarrow>
   list_all (\<lambda>name. \<forall>a'. SetAttribute J a name val = Inr a' \<longrightarrow> attrs_bounded a') validAttributes"
  by (simp add: validAttributes_def SetAttribute_def set_Inr attrs_bounded_def limit_defs)

lemma SetAttribute_bounded:
  "attrs_bounded a \<Longrightarrow> SetAttribute J a name val = Inr a' \<Longrightarrow> attrs_bounded a'"
  using SetAttribute_name SetAttribute_bounded_all [of a J val] by (auto simp: list_all_iff)

lemma set_all_bounded: "attrs_bounded a \<Longrightarrow> set_all J a l = Inr a' \<Longrightarrow> attrs_bounded a'"
  by (induction J a l rule: set_all.induct)
    (auto simp: validateAndSet_eq split: sum.splits dest: SetAttribute_bounded)

text \<open>
  C19.  Attributes that start within the limits of the API stay within them whatever update is
  requested: no call of \<open>SetAttributes\<close>, accepted or refused, takes a numeric attribute
  out of its range.
\<close>

theorem SetAttributes_bounded:
  assumes "attrs_bounded a"
  shows "attrs_bounded (snd (SetAttributes J a l))"
proof (cases "set_all J a l")
  case (Inl e)
  then show ?thesis using assms by (simp add: SetAttributes_def)
next
  case (Inr c)
  then show ?thesis using assms by (simp add: SetAttributes_clone set_all_bounded)
qed

theorem SetAttributes_bounded_witness:
  "attrs_bounded (snd (SetAttributes (\<lambda>_. None) NewDefaultQueueAttributes
     [(''DelaySeconds'', ''17''), (''VisibilityTimeout'', ''43200'')]))"
  by (rule SetAttributes_bounded [OF attrs_bounded_default])

lemma AllAttributes_lookup: "map_of (AllAttributes a) name = GetAttribute a name"
  by (simp add: AllAttributes_def GetAttribute_def)

lemma AllAttributes_names: "map fst (AllAttributes a) = validAttributes"
  by (simp add: AllAttributes_def validAttributes_def)

lemma GetAttribute_name: "GetAttribute a name = Some v \<Longrightarrow> name \<in> set validAttributes"
  unfolding AllAttributes_lookup [symmetric] AllAttributes_names [symmetric, of a]
  by (metis map_of_SomeD fst_conv image_eqI list.set_map)

lemma Set_Get_all:
  "attrs_bounded a \<Longrightarrow> qa_KmsDataKeyReusePeriodSeconds a \<noteq> 0 \<Longrightarrow>
   list_all (\<lambda>name. name \<noteq> ''RedrivePolicy'' \<longrightarrow>
     SetAttribute J a name (the (GetAttribute a name)) = Inr a) validAttributes"
  by (cases a) (simp add: validAttributes_def SetAttribute_def GetAttribute_def set_Inr
      attrs_bounded_def limit_defs Atoi_itoa)

text \<open>
  Printing an attribute and setting it back is the identity: the text \<open>GetAttribute\<close>
  returns is accepted by \<open>SetAttribute\<close> and changes nothing.  The two exceptions are real:
  a redrive policy must be valid JSON (it may be unset), and \<open>KmsDataKeyReusePeriodSeconds\<close>
  starts at 0, which its own range check refuses.
\<close>

theorem SetAttribute_GetAttribute:
  assumes "attrs_bounded a" and "qa_KmsDataKeyReusePeriodSeconds a \<noteq> 0"
    and "GetAttribute a name = Some v" and "name \<noteq> ''RedrivePolicy''"
  shows "SetAttribute J a name v = Inr a"
  using Set_Get_all [OF assms(1,2), of J] GetAttribute_name [OF assms(3)] assms(3,4)
  by (auto simp: list_all_iff)

end
