(* ===== verification/StoreCommon.thy ===== *)
theory StoreCommon
  imports SQSTypes
begin

section \<open>What the message stores share\<close>

text \<open>
  \<^verbatim>\<open>pkgs/v1/queue/store/store.go\<close>: the store interface, the receipt handles, the redrive
  preparation and the deduplication cache.  The hash functions and the JSON text of a
  receipt are parameters, gathered in \<open>env\<close>: \<open>sha256\<close> and \<open>hmac\<close> return the raw
  digest, \<open>marshal_info\<close> is \<open>json.Marshal\<close> of the receipt information, \<open>None\<close>
  for its error.  Random nonces are an argument of the calls that draw them.
\<close>

record env =
  sha256 :: "string \<Rightarrow> string"
  hmac :: "string \<Rightarrow> string \<Rightarrow> string"
  marshal_info :: "receipt_handle_info \<Rightarrow> string option"

text \<open>The callback of a redrive is the closure built by the manager over the ARN of the DLQ.\<close>

record StoreConfig =
  cfg_IsFifo :: bool
  cfg_ContentBasedDeduplication :: bool
  cfg_MaxReceiveCount :: int
  cfg_RedriveFunc :: "string option"
  cfg_MessageRetentionPeriod :: int

subsection \<open>Receipt handles\<close>

definition base64_char :: "nat \<Rightarrow> char" where
  "base64_char n = (if n < 26 then char_of (65 + n) else if n < 52 then char_of (71 + n)
     else if n < 62 then char_of (n - 4) else if n = 62 then CHR ''+'' else CHR ''/'')"

fun base64 :: "string \<Rightarrow> string" where
  "base64 [] = []"
| "base64 [a] =
     (let x = of_char a :: nat
      in [base64_char (x div 4), base64_char (x mod 4 * 16), CHR ''='', CHR ''=''])"
| "base64 [a, b] =
     (let x = of_char a :: nat; y = of_char b
      in [base64_char (x div 4), base64_char (x mod 4 * 16 + y div 16),
          base64_char (y mod 16 * 4), CHR ''=''])"
| "base64 (a # b # c # rest) =
     (let x = of_char a :: nat; y = of_char b; z = of_char c
      in [base64_char (x div 4), base64_char (x mod 4 * 16 + y div 16),
          base64_char (y mod 16 * 4 + z div 64), base64_char (z mod 64)] @ base64 rest)"

lemma base64_empty [simp]: "base64 s = [] \<longleftrightarrow> s = []"
  by (cases s rule: base64.cases) (auto simp: Let_def)

definition json_handle :: "string \<Rightarrow> string \<Rightarrow> string" where
  "json_handle data signature =
     (let q = [CHR 0x22] in
      ''{'' @ q @ ''data'' @ q @ '':'' @ q @ data @ q @ '','' @
      q @ ''signature'' @ q @ '':'' @ q @ signature @ q @ ''}'')"

definition GenerateReceiptHandle ::
  "env \<Rightarrow> string \<Rightarrow> string \<Rightarrow> time \<Rightarrow> string \<Rightarrow> string \<Rightarrow> string option" where
  "GenerateReceiptHandle E queueName messageID now serverSecret nonce =
     (case marshal_info E \<lparr> QueueName = queueName, InfoMessageID = messageID,
                            ReceiveTimestamp = now, RandomNonce = nonce \<rparr> of
        None \<Rightarrow> None
      | Some data \<Rightarrow>
          let signature = hmac E serverSecret data
          in Some (base64 (json_handle (base64 data) (EncodeToString_hex signature))))"

text \<open>\<open>generateReceiptHandle\<close> of the three stores: the empty handle on an error.\<close>

definition generateReceiptHandle ::
  "env \<Rightarrow> string \<Rightarrow> string \<Rightarrow> string \<Rightarrow> time \<Rightarrow> string \<Rightarrow> string" where
  "generateReceiptHandle E queueName serverSecret messageID now nonce =
     (case GenerateReceiptHandle E queueName messageID now serverSecret nonce of
        None \<Rightarrow> '''' | Some handle \<Rightarrow> handle)"

text \<open>
  \<open>json.Marshal\<close> of the receipt information fails only for a timestamp whose year has
  more than four digits; the invariants of the stores assume it succeeds.
\<close>

definition receipts_ok :: "env \<Rightarrow> bool" where
  "receipts_ok E \<longleftrightarrow> (\<forall>i. marshal_info E i \<noteq> None)"

lemma handle_nonempty:
  "receipts_ok E \<Longrightarrow> generateReceiptHandle E q secret mid now nonce \<noteq> ''''"
  by (auto simp: generateReceiptHandle_def GenerateReceiptHandle_def receipts_ok_def
      json_handle_def Let_def split: option.splits)

lemma handle_empty:
  "generateReceiptHandle E q secret mid now nonce = '''' \<longleftrightarrow>
   marshal_info E \<lparr> QueueName = q, InfoMessageID = mid, ReceiveTimestamp = now,
                    RandomNonce = nonce \<rparr> = None"
  by (auto simp: generateReceiptHandle_def GenerateReceiptHandle_def json_handle_def Let_def
      split: option.splits)

subsection \<open>Redrive and deduplication\<close>

definition PrepareForRedrive :: "message \<Rightarrow> message" where
  "PrepareForRedrive msg =
     msg\<lparr> ReceiptHandle := '''', IsVisible := True, ApproximateReceiveCount := 0 \<rparr>"

definition ComputeContentBasedDedupID :: "env \<Rightarrow> string \<Rightarrow> string" where
  "ComputeContentBasedDedupID E body = EncodeToString_hex (sha256 E body)"

type_synonym dedup_cache = "string \<Rightarrow> time option"

definition CleanExpiredDedupEntries :: "dedup_cache \<Rightarrow> time \<Rightarrow> dedup_cache" where
  "CleanExpiredDedupEntries cache now =
     (\<lambda>i. case cache i of
            Some expiry \<Rightarrow> if now > expiry then None else Some expiry
          | None \<Rightarrow> None)"

definition dedup_window :: int where
  "dedup_window = 5 * 60 * 1000000000"

text \<open>
  The FIFO block that opens \<open>SendMessage\<close> in all three stores, in the same words: clean
  the cache, find the deduplication ID, refuse a duplicate silently, otherwise enter the ID
  and number the message.  The first component tells a duplicate.
\<close>

definition dedup_id :: "env \<Rightarrow> bool \<Rightarrow> message \<Rightarrow> string" where
  "dedup_id E contentBased msg =
     (if MessageDeduplicationID msg = '''' \<and> contentBased
      then ComputeContentBasedDedupID E (Body msg) else MessageDeduplicationID msg)"

definition fifo_admit ::
  "env \<Rightarrow> bool \<Rightarrow> clock \<Rightarrow> dedup_cache \<Rightarrow> int \<Rightarrow> message \<Rightarrow> bool \<times> dedup_cache \<times> int \<times> message"
where
  "fifo_admit E contentBased now cache counter msg =
     (let cache1 = CleanExpiredDedupEntries cache (now 0);
          dedupID = dedup_id E contentBased msg
      in if dedupID \<noteq> '''' \<and> cache1 dedupID \<noteq> None then (True, cache1, counter, msg)
         else
           let cache2 = (if dedupID \<noteq> '''' then cache1(dedupID \<mapsto> now 1 + dedup_window) else cache1);
               counter' = wrap64 (counter + 1)
           in (False, cache2, counter', msg\<lparr> SequenceNumber := itoa counter' \<rparr>))"

definition retention_cutoff :: "int \<Rightarrow> time \<Rightarrow> time" where
  "retention_cutoff period now =
     (let retention = (if period \<le> 0 then DefaultMessageRetentionPeriod else period)
      in now + seconds (- retention))"

lemma CleanExpired_Some:
  "CleanExpiredDedupEntries cache now i = Some e \<longleftrightarrow> cache i = Some e \<and> now \<le> e"
  by (auto simp: CleanExpiredDedupEntries_def split: option.splits)

lemma fifo_admit_message:
  "fifo_admit E c now cache counter msg = (d, cache', counter', msg') \<Longrightarrow>
   MessageID msg' = MessageID msg \<and> Body msg' = Body msg \<and>
   MessageGroupID msg' = MessageGroupID msg \<and> MessageDeduplicationID msg' = MessageDeduplicationID msg"
  by (auto simp: fifo_admit_def Let_def split: if_splits)

lemma fifo_admit_counter:
  "fifo_admit E c now cache counter msg = (d, cache', counter', msg') \<Longrightarrow>
   (if d then counter' = counter \<and> msg' = msg
    else counter' = wrap64 (counter + 1) \<and> msg' = msg\<lparr> SequenceNumber := itoa counter' \<rparr>)"
  by (auto simp: fifo_admit_def Let_def split: if_splits)

lemma retention_cutoff_less:
  assumes "period \<le> 9000000000"
  shows "retention_cutoff period now < now"
proof -
  let ?r = "if period \<le> 0 then DefaultMessageRetentionPeriod else period"
  have "0 < ?r" "?r \<le> 9000000000" using assms by (auto simp: DefaultMessageRetentionPeriod_def)
  then have "seconds (- ?r) = - ?r * 1000000000"
    unfolding seconds_def by (intro wrap64_id) auto
  with \<open>0 < ?r\<close> show ?thesis by (simp add: retention_cutoff_def)
qed

subsection \<open>The store interface\<close>

text \<open>
  The interface \<open>Store\<close> as a table of operations over a state \<open>'s\<close>.  A call takes the
  clock, and the nonces it may draw, as arguments; \<open>SendMessage\<close> also returns the message
  it was handed, whose fields it sets through the pointer.  \<open>op_ReceiveMessages\<close> is a
  call that does not wait (\<open>waitTimeSeconds <= 0\<close>); its second component lists the
  messages it gave to the redrive callback.
\<close>

record 's store_ops =
  op_SendMessage :: "clock \<Rightarrow> message \<Rightarrow> int \<Rightarrow> 's \<Rightarrow> go_error option \<times> message \<times> 's"
  op_ReceiveMessages ::
    "clock \<Rightarrow> (nat \<Rightarrow> string) \<Rightarrow> int \<Rightarrow> int \<Rightarrow> 's \<Rightarrow> (go_error + message list) \<times> message list \<times> 's"
  op_DeleteMessage :: "string \<Rightarrow> 's \<Rightarrow> go_error option \<times> 's"
  op_ChangeMessageVisibility :: "clock \<Rightarrow> string \<Rightarrow> int \<Rightarrow> 's \<Rightarrow> go_error option \<times> 's"
  op_ApproximateNumberOfMessages :: "time \<Rightarrow> 's \<Rightarrow> int"
  op_ApproximateNumberOfMessagesNotVisible :: "time \<Rightarrow> 's \<Rightarrow> int"
  op_ApproximateNumberOfMessagesDelayed :: "time \<Rightarrow> 's \<Rightarrow> int"
  op_Purge :: "'s \<Rightarrow> go_error option \<times> 's"
  op_Close :: "'s \<Rightarrow> go_error option \<times> 's"

end
