(* ===== verification/GoText.thy ===== *)
theory GoText
  imports Prelude
begin

section \<open>Text: runes, case and white space\<close>

text \<open>
  The rest of Go's string functions the server uses: \<open>range\<close> over a string, which decodes
  UTF-8 and replaces a byte that starts no valid sequence by U+FFFD, and the functions of
  \<open>strings\<close> on letters and white space.
\<close>

abbreviation byte_of :: "char \<Rightarrow> nat" where
  "byte_of c \<equiv> of_char c"

definition between :: "nat \<Rightarrow> nat \<Rightarrow> char \<Rightarrow> bool" where
  "between lo hi c \<longleftrightarrow> lo \<le> byte_of c \<and> byte_of c \<le> hi"

abbreviation continuation :: "char \<Rightarrow> bool" where
  "continuation \<equiv> between 128 191"

text \<open>The number of bytes of the valid sequence a text starts with; 0 when there is none.\<close>

definition rune_len :: "string \<Rightarrow> nat" where
  "rune_len s =
     (case s of
        [] \<Rightarrow> 0
      | a # s1 \<Rightarrow>
          if byte_of a < 128 then 1
          else
            (case s1 of
               [] \<Rightarrow> 0
             | b # s2 \<Rightarrow>
                 if between 194 223 a then (if continuation b then 2 else 0)
                 else
                   (case s2 of
                      [] \<Rightarrow> 0
                    | c # s3 \<Rightarrow>
                        if between 224 239 a then
                          (if (if byte_of a = 224 then between 160 191 b
                               else if byte_of a = 237 then between 128 159 b else continuation b)
                              \<and> continuation c then 3 else 0)
                        else
                          (case s3 of
                             [] \<Rightarrow> 0
                           | d # s4 \<Rightarrow>
                               if between 240 244 a \<and>
                                  (if byte_of a = 240 then between 144 191 b
                                   else if byte_of a = 244 then between 128 143 b else continuation b)
                                  \<and> continuation c \<and> continuation d then 4 else 0))))"

text \<open>The runes of a text, each as the bytes of its UTF-8 encoding.\<close>

definition rune_error :: string where
  "rune_error = [char_of (239 :: nat), char_of (191 :: nat), char_of (189 :: nat)]"

function runes :: "string \<Rightarrow> string list" where
  "runes [] = []"
| "runes (c # s) =
     (if rune_len (c # s) = 0 then rune_error # runes s
      else take (rune_len (c # s)) (c # s) # runes (drop (rune_len (c # s)) (c # s)))"
  by pat_completeness auto
termination by (relation "measure length") auto

definition valid_utf8 :: "string \<Rightarrow> bool" where
  "valid_utf8 s \<longleftrightarrow> concat (runes s) = s"

definition lower_char :: "char \<Rightarrow> char" where
  "lower_char c = (if between 65 90 c then char_of (byte_of c + 32) else c)"

text \<open>\<open>u\<close> is the Unicode lower case of a rune outside ASCII, a table of the library.\<close>

definition ToLower :: "(string \<Rightarrow> string) \<Rightarrow> string \<Rightarrow> string" where
  "ToLower u s =
     (if \<forall>c \<in> set s. byte_of c < 128 then map lower_char s
      else concat (map (\<lambda>r. case r of [c] \<Rightarrow> [lower_char c] | _ \<Rightarrow> u r) (runes s)))"

text \<open>The white space of Unicode, as the bytes of each rune.\<close>

definition space_runes :: "string list" where
  "space_runes = map (map char_of)
     [[9], [10], [11], [12], [13], [32 :: nat], [194, 133], [194, 160], [225, 154, 128], [226, 128, 128],
      [226, 128, 129], [226, 128, 130], [226, 128, 131], [226, 128, 132], [226, 128, 133], [226, 128, 134],
      [226, 128, 135], [226, 128, 136], [226, 128, 137], [226, 128, 138], [226, 128, 168], [226, 128, 169],
      [226, 128, 175], [226, 129, 159], [227, 128, 128]]"

function trim_front :: "string list \<Rightarrow> string \<Rightarrow> string" where
  "trim_front ps s =
     (case find (\<lambda>p. p \<noteq> [] \<and> HasPrefix s p) ps of
        None \<Rightarrow> s
      | Some p \<Rightarrow> trim_front ps (drop (length p) s))"
  by pat_completeness auto
termination
proof (relation "measure (length \<circ> snd)")
  fix ps s p assume "find (\<lambda>p. p \<noteq> [] \<and> HasPrefix s p) ps = Some p"
  then have "p \<noteq> []" "take (length p) s = p" by (auto simp: find_Some_iff HasPrefix_def)
  then have "s \<noteq> []" "0 < length p" by auto
  then show "((ps, drop (length p) s), ps, s) \<in> measure (length \<circ> snd)" by simp
qed simp

declare trim_front.simps [simp del]

definition TrimSpace :: "string \<Rightarrow> string" where
  "TrimSpace s = rev (trim_front (map rev space_runes) (rev (trim_front space_runes s)))"

text \<open>A byte in percent encoding.\<close>

definition upper_hex :: "nat \<Rightarrow> char" where
  "upper_hex n = (if n < 10 then char_of (48 + n) else char_of (55 + n))"

definition percent :: "char \<Rightarrow> string" where
  "percent c = [CHR ''%'', upper_hex (of_char c div 16), upper_hex (of_char c mod 16)]"

lemma rune_len_ascii [simp]: "byte_of c < 128 \<Longrightarrow> rune_len (c # s) = 1"
  by (simp add: rune_len_def)

lemma runes_ascii: "\<forall>c \<in> set s. byte_of c < 128 \<Longrightarrow> runes s = map (\<lambda>c. [c]) s"
  by (induction s) simp_all

lemma concat_singletons [simp]: "concat (map (\<lambda>c. [c]) s) = s"
  by (induction s) simp_all

lemma valid_utf8_ascii: "\<forall>c \<in> set s. byte_of c < 128 \<Longrightarrow> valid_utf8 s"
  by (simp add: valid_utf8_def runes_ascii)

definition plain :: "char \<Rightarrow> bool" where
  "plain c \<longleftrightarrow> between 33 127 c"

lemma trim_front_plain:
  assumes "s = [] \<or> plain (hd s)" "\<forall>p \<in> set ps. p \<noteq> [] \<longrightarrow> \<not> plain (hd p)"
  shows "trim_front ps s = s"
proof -
  have "\<not> (p \<noteq> [] \<and> HasPrefix s p)" if "p \<in> set ps" for p
    using assms that by (cases p; cases s) (auto simp: HasPrefix_def)
  then have "find (\<lambda>p. p \<noteq> [] \<and> HasPrefix s p) ps = None" by (simp add: find_None_iff)
  then show ?thesis by (simp add: trim_front.simps)
qed

lemma space_runes_plain:
  "\<forall>p \<in> set space_runes. p \<noteq> [] \<longrightarrow> \<not> plain (hd p)"
  "\<forall>p \<in> set (map rev space_runes). p \<noteq> [] \<longrightarrow> \<not> plain (hd p)"
  by (simp_all add: space_runes_def plain_def between_def)

lemma TrimSpace_plain: "s = [] \<or> plain (hd s) \<and> plain (last s) \<Longrightarrow> TrimSpace s = s"
  by (auto simp: TrimSpace_def trim_front_plain space_runes_plain hd_rev)

lemma TrimSpace_blank: "TrimSpace (CHR '' '' # s) = TrimSpace s"
proof -
  have "find (\<lambda>p. p \<noteq> [] \<and> HasPrefix (CHR '' '' # s) p) space_runes = Some '' ''"
  proof -
    have "char_of (32 :: nat) = CHR '' ''"
      "char_of (9 :: nat) \<noteq> CHR '' ''" "char_of (10 :: nat) \<noteq> CHR '' ''" "char_of (11 :: nat) \<noteq> CHR '' ''"
      "char_of (12 :: nat) \<noteq> CHR '' ''" "char_of (13 :: nat) \<noteq> CHR '' ''" by code_simp+
    then show ?thesis by (simp add: space_runes_def HasPrefix_def)
  qed
  then have "trim_front space_runes (CHR '' '' # s) = trim_front space_runes s"
    by (subst trim_front.simps) simp
  then show ?thesis by (simp add: TrimSpace_def)
qed

lemma ToLower_ascii: "\<forall>c \<in> set s. byte_of c < 128 \<Longrightarrow> ToLower u s = map lower_char s"
  by (simp add: ToLower_def)

end
