(* ===== verification/QueueManager.thy ===== *)
theory QueueManager
  imports Attributes StoreCommon "HOL-Library.AList" GoText
begin

section \<open>Queues and the queue manager\<close>

text \<open>
  \<^verbatim>\<open>pkgs/v1/queue/queue.go\<close> and \<^verbatim>\<open>pkgs/v1/queue/manager.go\<close>, over any store: the table
  of store operations is an argument of what calls the store, the store factory an argument
  of \<open>CreateQueue\<close>.  The map of queues is an association list with distinct keys; where
  the code ranges over the map, the order of the list is the order of that run.  Each method
  of the manager holds its mutex from start to end; what \<open>Shutdown\<close> does after it released
  the mutex works on the copy it took.
\<close>

record 's queue =
  q_name :: string
  q_attributes :: queue_attributes
  q_tags :: "string gomap"
  q_store :: 's
  q_lastPurgedAt :: time

record 's manager =
  qm_queues :: "(string \<times> 's queue) list"
  qm_nodeAddress :: string
  qm_accountID :: string
  qm_region :: string
  qm_serverSecret :: string

subsection \<open>Queues\<close>

definition NewQueue :: "string \<Rightarrow> queue_attributes option \<Rightarrow> 's \<Rightarrow> 's queue" where
  "NewQueue name attrs messageStore =
     \<lparr> q_name = name,
       q_attributes = (case attrs of None \<Rightarrow> NewDefaultQueueAttributes | Some a \<Rightarrow> a),
       q_tags = [], q_store = messageStore, q_lastPurgedAt = zero_time \<rparr>"

definition SetTags :: "string gomap \<Rightarrow> 's queue \<Rightarrow> 's queue" where
  "SetTags tags q = q\<lparr> q_tags := tags \<rparr>"

definition UpdateTags :: "(string gomap \<Rightarrow> string gomap) \<Rightarrow> 's queue \<Rightarrow> 's queue" where
  "UpdateTags fn q = q\<lparr> q_tags := fn (q_tags q) \<rparr>"

definition IsFifo :: "'s queue \<Rightarrow> bool" where
  "IsFifo q =
     (case GetAttribute (q_attributes q) ''FifoQueue'' of
        Some val \<Rightarrow> (case ParseBool val of Some b \<Rightarrow> b | None \<Rightarrow> False)
      | None \<Rightarrow> False)"

definition purgeCooldown :: int where
  "purgeCooldown = 60 * 1000000000"

text \<open>
  The text gives the seconds left, from a second reading of the clock; the code truncates a
  floating-point number of seconds towards zero, the model the exact number.
\<close>

definition trunc_seconds :: "int \<Rightarrow> int" where
  "trunc_seconds d = (if 0 \<le> d then d div 1000000000 else - ((- d) div 1000000000))"

definition CheckPurgeCooldown :: "clock \<Rightarrow> 's queue \<Rightarrow> go_error option" where
  "CheckPurgeCooldown now q =
     (if \<not> IsZero (q_lastPurgedAt q) \<and> now 0 - q_lastPurgedAt q < purgeCooldown then
        Some (NewPurgeQueueInProgress (''Must wait '' @
          itoa (trunc_seconds (purgeCooldown - (now 1 - q_lastPurgedAt q)) + 1) @
          '' seconds before purging queue '' @ q_name q @ '' again.''))
      else None)"

definition MarkPurged :: "time \<Rightarrow> 's queue \<Rightarrow> 's queue" where
  "MarkPurged now q = q\<lparr> q_lastPurgedAt := now \<rparr>"

definition Queue_GetAttribute :: "'s store_ops \<Rightarrow> time \<Rightarrow> 's queue \<Rightarrow> string \<Rightarrow> string option" where
  "Queue_GetAttribute ops now q name =
     (if name = ''ApproximateNumberOfMessages'' then
        Some (itoa (op_ApproximateNumberOfMessages ops now (q_store q)))
      else if name = ''ApproximateNumberOfMessagesNotVisible'' then
        Some (itoa (op_ApproximateNumberOfMessagesNotVisible ops now (q_store q)))
      else if name = ''ApproximateNumberOfMessagesDelayed'' then
        Some (itoa (op_ApproximateNumberOfMessagesDelayed ops now (q_store q)))
      else GetAttribute (q_attributes q) name)"

text \<open>
  \<open>url.URL.String\<close> for a URL of a scheme, a host and a path: \<open>net/url\<close> escapes every
  byte it does not allow in that place, and puts a slash between host and path.
\<close>

definition url_alnum :: "char \<Rightarrow> bool" where
  "url_alnum c =
     (let n = of_char c :: nat in
      (97 \<le> n \<and> n \<le> 122) \<or> (65 \<le> n \<and> n \<le> 90) \<or> (48 \<le> n \<and> n \<le> 57))"

definition escape_path :: "string \<Rightarrow> string" where
  "escape_path s =
     concat (map (\<lambda>c. if url_alnum c \<or> c \<in> set ''-_.~$&+,/:;=@'' then [c] else percent c) s)"

definition escape_host :: "string \<Rightarrow> string" where
  "escape_host s =
     concat (map (\<lambda>c. if url_alnum c \<or> c \<in> set ''-_.~!$&()*+,;=:[]<>'' \<or> c = CHR 0x27 \<or> c = CHR 0x22
                      then [c] else percent c) s)"

definition url_string :: "string \<Rightarrow> string \<Rightarrow> string \<Rightarrow> string" where
  "url_string scheme host path =
     (let p = escape_path path in
      scheme @ '':'' @ (if host \<noteq> '''' \<or> path \<noteq> '''' then ''//'' else '''') @ escape_host host @
      (if p \<noteq> '''' \<and> hd p \<noteq> CHR ''/'' \<and> host \<noteq> '''' then ''/'' else '''') @ p)"

definition Queue_URL :: "string \<Rightarrow> string \<Rightarrow> 's queue \<Rightarrow> string" where
  "Queue_URL nodeAddress accountID q =
     (let (scheme, addr) =
        (if HasPrefix nodeAddress ''https://'' then (''https'', TrimPrefix nodeAddress ''https://'')
         else (''http'', TrimPrefix nodeAddress ''http://''))
      in url_string scheme addr (accountID @ ''/'' @ q_name q))"

definition buildQueueARN :: "string \<Rightarrow> string \<Rightarrow> string \<Rightarrow> string" where
  "buildQueueARN region accountID name =
     ''arn:aws:sqs:'' @ region @ '':'' @ accountID @ '':'' @ name"

definition Queue_ARN :: "string \<Rightarrow> string \<Rightarrow> 's queue \<Rightarrow> string" where
  "Queue_ARN region accountID q = buildQueueARN region accountID (q_name q)"

subsection \<open>Names, URLs and ARNs\<close>

definition ExtractQueueNameFromURL :: "string \<Rightarrow> string" where
  "ExtractQueueNameFromURL queueURL =
     (if queueURL = '''' then ''''
      else after_last (CHR ''/'') (TrimSuffix (before_first (CHR ''?'') queueURL) ''/''))"

definition attributesMatch :: "queue_attributes \<Rightarrow> queue_attributes \<Rightarrow> bool" where
  "attributesMatch a b =
     (let aAttrs = filter (\<lambda>kv. fst kv \<noteq> ''QueueArn'') (AllAttributes a);
          bAttrs = filter (\<lambda>kv. fst kv \<noteq> ''QueueArn'') (AllAttributes b)
      in length aAttrs = length bAttrs \<and>
         list_all (\<lambda>(k, v). map_of bAttrs k = Some v) aAttrs)"

subsection \<open>The manager\<close>

definition NewQueueManager :: "string \<Rightarrow> string \<Rightarrow> string \<Rightarrow> string \<Rightarrow> 's manager" where
  "NewQueueManager nodeAddress accountID region serverSecret =
     \<lparr> qm_queues = [], qm_nodeAddress = nodeAddress, qm_accountID = accountID,
       qm_region = region, qm_serverSecret = serverSecret \<rparr>"

definition no_such_queue :: "string \<Rightarrow> go_error" where
  "no_such_queue name = NewQueueDoesNotExist (''The specified queue does not exist: '' @ name)"

type_synonym 's factory = "string \<Rightarrow> int \<Rightarrow> string \<Rightarrow> StoreConfig \<Rightarrow> go_error + 's"

text \<open>The configuration of the store: redrive only for a positive maximum receive count.\<close>

definition redrive_config ::
  "json_policy \<Rightarrow> string \<Rightarrow> queue_attributes \<Rightarrow> go_error + StoreConfig" where
  "redrive_config J name attrs =
     (let storeCfg = \<lparr> cfg_IsFifo = qa_FifoQueue attrs,
            cfg_ContentBasedDeduplication = qa_ContentBasedDeduplication attrs,
            cfg_MaxReceiveCount = 0, cfg_RedriveFunc = None,
            cfg_MessageRetentionPeriod = qa_MessageRetentionPeriod attrs \<rparr>
      in if qa_RedrivePolicy attrs \<noteq> '''' then
           (case ParseRedrivePolicy J (qa_RedrivePolicy attrs) of
              Inl e \<Rightarrow> Inl (Errorf (''invalid redrive policy for queue '' @ quote name @ '': '' @ error_text e))
            | Inr rp \<Rightarrow>
                if MaxReceiveCount rp > 0 then
                  Inr (storeCfg\<lparr> cfg_MaxReceiveCount := MaxReceiveCount rp,
                                 cfg_RedriveFunc := Some (DeadLetterTargetArn rp) \<rparr>)
                else Inr storeCfg)
         else Inr storeCfg)"

definition CreateQueue ::
  "json_policy \<Rightarrow> 's factory \<Rightarrow> string \<Rightarrow> queue_attributes option \<Rightarrow> 's manager
   \<Rightarrow> (go_error + 's queue) \<times> 's manager" where
  "CreateQueue J factory name attrs qm =
     (case map_of (qm_queues qm) name of
        Some existing \<Rightarrow>
          (case attrs of
             Some a \<Rightarrow>
               if \<not> attributesMatch (q_attributes existing) a then (Inl (NewQueueNameExists ''''), qm)
               else (Inr existing, qm)
           | None \<Rightarrow> (Inr existing, qm))
      | None \<Rightarrow>
          let a = (case attrs of None \<Rightarrow> NewDefaultQueueAttributes | Some a \<Rightarrow> a);
              a' = a\<lparr> qa_QueueArn := buildQueueARN (qm_region qm) (qm_accountID qm) name \<rparr>
          in case redrive_config J name a' of
               Inl e \<Rightarrow> (Inl e, qm)
             | Inr storeCfg \<Rightarrow>
                 (case factory name (qa_VisibilityTimeout a') (qm_serverSecret qm) storeCfg of
                    Inl e \<Rightarrow>
                      (Inl (Errorf (''failed to create store for queue '' @ quote name @ '': '' @ error_text e)), qm)
                  | Inr msgStore \<Rightarrow>
                      let q = NewQueue name (Some a') msgStore
                      in (Inr q, qm\<lparr> qm_queues := AList.update name q (qm_queues qm) \<rparr>)))"

definition DeleteQueue :: "'s store_ops \<Rightarrow> string \<Rightarrow> 's manager \<Rightarrow> go_error option \<times> 's manager" where
  "DeleteQueue ops name qm =
     (case map_of (qm_queues qm) name of
        None \<Rightarrow> (Some (no_such_queue name), qm)
      | Some q \<Rightarrow>
          (case op_Close ops (q_store q) of
             (Some e, st) \<Rightarrow>
               (Some (Errorf (''failed to close store for queue '' @ quote name @ '': '' @ error_text e)),
                qm\<lparr> qm_queues := AList.update name (q\<lparr> q_store := st \<rparr>) (qm_queues qm) \<rparr>)
           | (None, st) \<Rightarrow> (None, qm\<lparr> qm_queues := AList.delete name (qm_queues qm) \<rparr>)))"

definition LookupQueue :: "string \<Rightarrow> 's manager \<Rightarrow> go_error + 's queue" where
  "LookupQueue name qm =
     (case map_of (qm_queues qm) name of
        None \<Rightarrow> Inl (no_such_queue name)
      | Some q \<Rightarrow> Inr q)"

definition LookupQueueByURL :: "string \<Rightarrow> 's manager \<Rightarrow> go_error + 's queue" where
  "LookupQueueByURL queueURL qm =
     (let name = ExtractQueueNameFromURL queueURL in
      if name = '''' then Inl (NewInvalidParameterValue (''Invalid queue URL: '' @ queueURL))
      else LookupQueue name qm)"

definition ListQueues :: "string \<Rightarrow> 's manager \<Rightarrow> 's queue list" where
  "ListQueues pre qm =
     filter (\<lambda>q. pre = '''' \<or> HasPrefix (q_name q) pre) (map snd (qm_queues qm))"

definition ListQueueURLs :: "string \<Rightarrow> 's manager \<Rightarrow> string list" where
  "ListQueueURLs pre qm =
     map (Queue_URL (qm_nodeAddress qm) (qm_accountID qm)) (ListQueues pre qm)"

definition put_store :: "string \<Rightarrow> 's queue \<Rightarrow> 's \<Rightarrow> 's manager \<Rightarrow> 's manager" where
  "put_store name q st qm =
     qm\<lparr> qm_queues := AList.update name (q\<lparr> q_store := st \<rparr>) (qm_queues qm) \<rparr>"

definition PurgeQueue :: "'s store_ops \<Rightarrow> string \<Rightarrow> 's manager \<Rightarrow> go_error option \<times> 's manager" where
  "PurgeQueue ops name qm =
     (case LookupQueue name qm of
        Inl e \<Rightarrow> (Some e, qm)
      | Inr q \<Rightarrow> let (err, st) = op_Purge ops (q_store q) in (err, put_store name q st qm))"

definition QueueURL :: "string \<Rightarrow> 's manager \<Rightarrow> string" where
  "QueueURL name qm =
     (case LookupQueue name qm of
        Inl e \<Rightarrow> ''http://'' @ qm_nodeAddress qm @ ''/'' @ qm_accountID qm @ ''/'' @ name
      | Inr q \<Rightarrow> Queue_URL (qm_nodeAddress qm) (qm_accountID qm) q)"

definition LookupQueueByArn :: "string \<Rightarrow> 's manager \<Rightarrow> go_error + 's queue" where
  "LookupQueueByArn arn qm =
     (if CHR '':'' \<in> set arn then LookupQueue (after_last (CHR '':'') arn) qm
      else Inl (NewQueueDoesNotExist (''Invalid ARN or queue does not exist: '' @ arn)))"

text \<open>
  The redrive callback.  A missing dead-letter queue, and a failed send, are logged and the
  message is lost: the first component tells whether it was accepted.
\<close>

definition redriveMessage ::
  "'s store_ops \<Rightarrow> clock \<Rightarrow> string \<Rightarrow> message \<Rightarrow> 's manager \<Rightarrow> bool \<times> 's manager" where
  "redriveMessage ops now dlqArn msg qm =
     (case LookupQueueByArn dlqArn qm of
        Inl e \<Rightarrow> (False, qm)
      | Inr dlqQueue \<Rightarrow>
          let (err, msg', st) = op_SendMessage ops now (PrepareForRedrive msg) 0 (q_store dlqQueue)
          in (err = None, put_store (after_last (CHR '':'') dlqArn) dlqQueue st qm))"

text \<open>
  \<open>Shutdown\<close> takes the whole map away, then closes the stores one by one until the
  context is done; \<open>ctx_done k\<close> tells whether the context has an error at the check before
  the \<open>k\<close>-th store.  The second component lists the stores it closed.
\<close>

fun close_all ::
  "'s store_ops \<Rightarrow> (nat \<Rightarrow> bool) \<Rightarrow> nat \<Rightarrow> (string \<times> 's queue) list \<Rightarrow> go_error list
   \<Rightarrow> go_error list \<times> bool \<times> (string \<times> 's) list" where
  "close_all ops ctx_done k [] errs = (errs, False, [])"
| "close_all ops ctx_done k ((name, q) # rest) errs =
     (if ctx_done k then (errs, True, [])
      else
        let (err, st) = op_Close ops (q_store q);
            errs' = (case err of
                       None \<Rightarrow> errs
                     | Some e \<Rightarrow> errs @ [Errorf (''failed to close store for queue '' @ name @ '': '' @ error_text e)]);
            (es, stopped, closed) = close_all ops ctx_done (Suc k) rest errs'
        in (es, stopped, (name, st) # closed))"

definition Shutdown ::
  "'s store_ops \<Rightarrow> (nat \<Rightarrow> bool) \<Rightarrow> 's manager \<Rightarrow> go_error list \<times> bool \<times> (string \<times> 's) list \<times> 's manager"
where
  "Shutdown ops ctx_done qm =
     (let (errs, interrupted, closed) = close_all ops ctx_done 0 (qm_queues qm) []
      in (errs, interrupted, closed, qm\<lparr> qm_queues := [] \<rparr>))"

subsection \<open>Names, URLs and ARNs: round trips\<close>

text \<open>
  \<open>attributesMatch\<close>, which compares the texts of all attributes, holds exactly when
  the two attribute structs agree in every field but the ARN.
\<close>

theorem attributesMatch_iff:
  "attributesMatch a b \<longleftrightarrow> a\<lparr> qa_QueueArn := arn \<rparr> = b\<lparr> qa_QueueArn := arn \<rparr>"
  by (cases a; cases b) (auto simp: attributesMatch_def AllAttributes_def)

lemma valid_name_chars:
  assumes "VerifyQueueName name = None" "c \<in> set name"
  shows "name_char c \<or> c \<in> set ''.fifo''"
  using assms by (auto simp: VerifyQueueName_iff)

lemma takeWhile_neq_all: "c \<notin> set s \<Longrightarrow> takeWhile (\<lambda>x. x \<noteq> c) s = s"
  unfolding takeWhile_eq_all_conv by auto

lemma after_last_plain: "c \<notin> set s \<Longrightarrow> after_last c s = s"
  by (simp add: after_last_def takeWhile_neq_all)

lemma before_first_plain: "c \<notin> set s \<Longrightarrow> before_first c s = s"
  by (simp add: before_first_def takeWhile_neq_all)

lemma upper_hex_range: "n < 16 \<Longrightarrow> upper_hex n \<in> set ''0123456789ABCDEF''"
proof -
  have "list_all (\<lambda>n. upper_hex n \<in> set ''0123456789ABCDEF'') [0..<16]" by code_simp
  then show "n < 16 \<Longrightarrow> upper_hex n \<in> set ''0123456789ABCDEF''"
    unfolding list_all_iff by simp
qed

lemma percent_no_query: "CHR ''?'' \<notin> set (percent c)"
proof -
  have "(of_char c :: nat) < 256" by simp
  then have "(of_char c :: nat) div 16 < 16" "(of_char c :: nat) mod 16 < 16"
    by (simp_all add: less_mult_imp_div_less)
  from this [THEN upper_hex_range] show ?thesis by (auto simp: percent_def)
qed

lemma alnum_no_query: "\<not> url_alnum CHR ''?''"
  by code_simp

lemma escape_no_query: "CHR ''?'' \<notin> set (escape_path s)" "CHR ''?'' \<notin> set (escape_host s)"
  by (simp_all add: escape_path_def escape_host_def alnum_no_query percent_no_query)

lemma not_name_char: "\<not> name_char CHR ''/''" "\<not> name_char CHR '':''" "\<not> name_char CHR ''?''"
  by code_simp+

lemma name_char_unescaped: "name_char c \<or> c \<in> set ''.fifo'' \<Longrightarrow> escape_path [c] = [c]"
proof -
  assume c: "name_char c \<or> c \<in> set ''.fifo''"
  have "name_char c \<Longrightarrow> url_alnum c \<or> c = CHR ''-'' \<or> c = CHR ''_''"
    by (simp add: name_char_def url_alnum_def Let_def)
  moreover have "list_all (\<lambda>c. url_alnum c \<or> c = CHR ''.'') ''.fifo''" by code_simp
  ultimately have "url_alnum c \<or> c \<in> set ''-_.''" using c unfolding list_all_iff by auto
  then show ?thesis by (auto simp: escape_path_def)
qed

lemma escape_path_append: "escape_path (s @ t) = escape_path s @ escape_path t"
  by (simp add: escape_path_def)

lemma escape_path_name: "VerifyQueueName name = None \<Longrightarrow> escape_path name = name"
proof -
  assume ok: "VerifyQueueName name = None"
  have "\<forall>c \<in> set s. name_char c \<or> c \<in> set ''.fifo'' \<Longrightarrow> escape_path s = s" for s
  proof (induction s)
    case (Cons c s)
    then show ?case
      using name_char_unescaped [of c] escape_path_append [of "[c]" s] by simp
  qed (simp add: escape_path_def)
  then show ?thesis using valid_name_chars [OF ok] by blast
qed

lemma name_no_sep:
  assumes "VerifyQueueName name = None"
  shows "CHR ''/'' \<notin> set name" "CHR '':'' \<notin> set name" "CHR ''?'' \<notin> set name" "name \<noteq> ''''"
proof -
  show "CHR ''/'' \<notin> set name" "CHR '':'' \<notin> set name" "CHR ''?'' \<notin> set name"
    using valid_name_chars [OF assms, of "CHR ''/''"] valid_name_chars [OF assms, of "CHR '':''"]
      valid_name_chars [OF assms, of "CHR ''?''"] not_name_char by auto
  show "name \<noteq> ''''" using assms by (auto simp: VerifyQueueName_def)
qed

lemma ExtractQueueNameFromURL_aux:
  assumes "VerifyQueueName (q_name q) = None"
  shows "ExtractQueueNameFromURL (Queue_URL node account q) = q_name q"
proof -
  note nm = name_no_sep [OF assms]
  have path: "escape_path (account @ ''/'' @ q_name q) = escape_path account @ ''/'' @ q_name q"
    using escape_path_name [OF assms] escape_path_append [of account "''/'' @ q_name q"]
      escape_path_append [of "''/''" "q_name q"]
    by (simp add: escape_path_def)
  have "\<exists>pre. Queue_URL node account q = pre @ ''/'' @ q_name q \<and> CHR ''?'' \<notin> set pre"
  proof -
    obtain scheme addr where sa: "(if HasPrefix node ''https://'' then (''https'', TrimPrefix node ''https://'')
         else (''http'', TrimPrefix node ''http://'')) = (scheme, addr)" "CHR ''?'' \<notin> set scheme"
      by (cases "HasPrefix node ''https://''") auto
    let ?pre = "scheme @ '':'' @ ''//'' @ escape_host addr @
      (if escape_path (account @ ''/'' @ q_name q) \<noteq> '''' \<and>
          hd (escape_path (account @ ''/'' @ q_name q)) \<noteq> CHR ''/'' \<and> addr \<noteq> '''' then ''/'' else '''') @
      escape_path account"
    have "Queue_URL node account q = ?pre @ ''/'' @ q_name q"
      using sa(1) by (simp add: Queue_URL_def url_string_def path [simplified] Let_def)
    moreover have "CHR ''?'' \<notin> set ?pre" using sa(2) escape_no_query by simp
    ultimately show ?thesis by blast
  qed
  then obtain pre where pre: "Queue_URL node account q = pre @ ''/'' @ q_name q" "CHR ''?'' \<notin> set pre"
    by blast
  have "CHR ''?'' \<notin> set (Queue_URL node account q)" using pre nm(3) by simp
  moreover have "\<not> HasSuffix (pre @ ''/'' @ q_name q) ''/''"
  proof
    assume "HasSuffix (pre @ ''/'' @ q_name q) ''/''"
    then obtain b where "pre @ ''/'' @ q_name q = b @ ''/''" by (auto simp: HasSuffix_iff)
    then have "last (q_name q) = CHR ''/''" using nm(4) by (metis last_append last_snoc append_is_Nil_conv)
    then show False using nm(1,4) last_in_set by metis
  qed
  ultimately show ?thesis
    using after_last_append [of "CHR ''/''" "q_name q" pre] nm(1) pre(1)
    by (simp add: ExtractQueueNameFromURL_def before_first_plain TrimSuffix_def)
qed

text \<open>
  The URL a queue with a valid name is given leads back to its name, whatever the node
  address and the account are.
\<close>

theorem ExtractQueueNameFromURL_Queue_URL:
  assumes "VerifyQueueName (q_name q) = None"
  shows "ExtractQueueNameFromURL (Queue_URL node account q) = q_name q"
  using assms by (rule ExtractQueueNameFromURL_aux)

lemma ExtractQueueNameFromURL_Queue_URL_witness:
  "ExtractQueueNameFromURL (Queue_URL ''https://localhost:9324'' ''000000000000''
     (NewQueue ''jobs.fifo'' None ())) = ''jobs.fifo''"
proof -
  have "VerifyQueueName (q_name (NewQueue ''jobs.fifo'' None ())) = None" by code_simp
  from ExtractQueueNameFromURL_Queue_URL [OF this] show ?thesis by (simp add: NewQueue_def)
qed

lemma LookupQueueByArn_build:
  "CHR '':'' \<notin> set name \<Longrightarrow> LookupQueueByArn (buildQueueARN region account name) qm = LookupQueue name qm"
  using after_last_append [of "CHR '':''" name "''arn:aws:sqs:'' @ region @ '':'' @ account"]
  by (simp add: LookupQueueByArn_def buildQueueARN_def)

subsection \<open>The registry\<close>

text \<open>A well-formed manager: one queue for each name, each under its own name.\<close>

definition manager_ok :: "'s manager \<Rightarrow> bool" where
  "manager_ok qm \<longleftrightarrow>
     distinct (map fst (qm_queues qm)) \<and> list_all (\<lambda>(n, q). q_name q = n) (qm_queues qm)"

lemma manager_ok_update:
  "manager_ok qm \<Longrightarrow> q_name q = n \<Longrightarrow> manager_ok (qm\<lparr> qm_queues := AList.update n q (qm_queues qm) \<rparr>)"
proof -
  assume ok: "manager_ok qm" and q: "q_name q = n"
  have "list_all (\<lambda>(n, q). q_name q = n) l \<Longrightarrow> list_all (\<lambda>(n, q). q_name q = n) (AList.update n q l)" for l
    using q by (induction l) auto
  then show ?thesis using ok by (simp add: manager_ok_def distinct_update)
qed

lemma manager_ok_delete:
  "manager_ok qm \<Longrightarrow> manager_ok (qm\<lparr> qm_queues := AList.delete n (qm_queues qm) \<rparr>)"
proof -
  assume ok: "manager_ok qm"
  have "list_all P l \<Longrightarrow> list_all P (AList.delete n l)" for P :: "string \<times> 'a queue \<Rightarrow> bool" and l
    by (simp add: list_all_iff AList.delete_eq)
  then show ?thesis using ok by (simp add: manager_ok_def distinct_delete)
qed

lemma manager_ok_lookup: "manager_ok qm \<Longrightarrow> map_of (qm_queues qm) n = Some q \<Longrightarrow> q_name q = n"
  by (auto simp: manager_ok_def list_all_iff dest!: map_of_SomeD)

lemma CreateQueue_cases:
  "CreateQueue J factory name attrs qm = (r, qm') \<Longrightarrow>
   (\<exists>e. r = Inl e \<and> qm' = qm) \<or>
   (\<exists>q. r = Inr q \<and> map_of (qm_queues qm) name = Some q \<and> qm' = qm) \<or>
   (\<exists>q. r = Inr q \<and> map_of (qm_queues qm) name = None \<and> q_name q = name \<and> q_tags q = [] \<and>
      qa_QueueArn (q_attributes q) = buildQueueARN (qm_region qm) (qm_accountID qm) name \<and>
      qm' = qm\<lparr> qm_queues := AList.update name q (qm_queues qm) \<rparr>)"
  by (auto simp: CreateQueue_def Let_def NewQueue_def split: option.splits sum.splits if_splits)


lemma LookupQueue_update:
  "LookupQueue n (qm\<lparr> qm_queues := AList.update name q (qm_queues qm) \<rparr>) =
   (if n = name then Inr q else LookupQueue n qm)"
  by (simp add: LookupQueue_def update_conv')

text \<open>
  A queue \<open>CreateQueue\<close> returned under a valid name is found by its name, by the URL
  the manager gives for it and by its ARN; the other queues stay as they were; and creating
  it again without attributes returns it unchanged.
\<close>

theorem create_then_found:
  assumes "manager_ok qm" "VerifyQueueName name = None"
    and "CreateQueue J factory name attrs qm = (Inr q, qm')"
  shows "LookupQueue name qm' = Inr q \<and> LookupQueueByURL (QueueURL name qm') qm' = Inr q \<and>
    LookupQueueByArn (buildQueueARN region account name) qm' = Inr q \<and>
    (\<forall>n. n \<noteq> name \<longrightarrow> LookupQueue n qm' = LookupQueue n qm) \<and>
    CreateQueue J factory name None qm' = (Inr q, qm')"
proof -
  have found: "LookupQueue name qm' = Inr q \<and> q_name q = name \<and>
      (\<forall>n. n \<noteq> name \<longrightarrow> LookupQueue n qm' = LookupQueue n qm)"
    using CreateQueue_cases [OF assms(3)] assms(1)
    by (auto simp: LookupQueue_update manager_ok_lookup) (simp add: LookupQueue_def)
  then have nm: "VerifyQueueName (q_name q) = None" using assms(2) by simp
  have "LookupQueueByURL (QueueURL name qm') qm' = Inr q"
    using found ExtractQueueNameFromURL_aux [OF nm] name_no_sep(4) [OF assms(2)]
    by (simp add: LookupQueueByURL_def QueueURL_def)
  moreover have "LookupQueueByArn (buildQueueARN region account name) qm' = Inr q"
    using found LookupQueueByArn_build name_no_sep(2) [OF assms(2)] by metis
  moreover have "CreateQueue J factory name None qm' = (Inr q, qm')"
    using found by (auto simp: CreateQueue_def LookupQueue_def split: option.splits)
  ultimately show ?thesis using found by blast
qed

lemma create_then_found_witness:
  "\<exists>q qm'. CreateQueue (\<lambda>_. None) (\<lambda>name vt secret cfg. Inr (name, vt)) ''jobs'' None
       (NewQueueManager ''localhost:9324'' ''000000000000'' ''us-east-1'' ''s'') = (Inr q, qm') \<and>
     LookupQueueByURL (QueueURL ''jobs'' qm') qm' = Inr q \<and> q_store q = (''jobs'', 30)"
proof -
  let ?qm = "NewQueueManager ''localhost:9324'' ''000000000000'' ''us-east-1'' ''s'' :: (string \<times> int) manager"
  let ?f = "\<lambda>name vt (secret :: string) (cfg :: StoreConfig). Inr (name, vt) :: go_error + (string \<times> int)"
  have ok: "manager_ok ?qm" by (simp add: manager_ok_def NewQueueManager_def)
  have nm: "VerifyQueueName ''jobs'' = None" by code_simp
  obtain q qm' where c: "CreateQueue (\<lambda>_. None) ?f ''jobs'' None ?qm = (Inr q, qm')"
    by (simp add: CreateQueue_def NewQueueManager_def redrive_config_def NewDefaultQueueAttributes_def Let_def)
  moreover have "q_store q = (''jobs'', 30)"
    using c by (auto simp: CreateQueue_def NewQueueManager_def redrive_config_def Let_def
        NewDefaultQueueAttributes_def NewQueue_def limit_defs)
  ultimately show ?thesis using create_then_found [OF ok nm c] by blast
qed

text \<open>
  A deleted queue is gone: every lookup of it reports \<open>NonExistentQueue\<close>, the other
  queues stay as they were, and creating the name again asks the factory for a new store.
\<close>

theorem delete_then_gone:
  assumes "DeleteQueue ops name qm = (None, qm')"
  shows "LookupQueue name qm' = Inl (no_such_queue name) \<and>
    (\<forall>n. n \<noteq> name \<longrightarrow> LookupQueue n qm' = LookupQueue n qm) \<and>
    (\<forall>a s. factory name (qa_VisibilityTimeout a) (qm_serverSecret qm)
         \<lparr> cfg_IsFifo = qa_FifoQueue a, cfg_ContentBasedDeduplication = qa_ContentBasedDeduplication a,
           cfg_MaxReceiveCount = 0, cfg_RedriveFunc = None,
           cfg_MessageRetentionPeriod = qa_MessageRetentionPeriod a \<rparr> = Inr s \<longrightarrow>
       qa_RedrivePolicy a = '''' \<longrightarrow>
       (\<exists>q qm''. CreateQueue J factory name (Some a) qm' = (Inr q, qm'') \<and> q_store q = s))"
proof -
  have qm': "qm' = qm\<lparr> qm_queues := AList.delete name (qm_queues qm) \<rparr>"
    using assms by (auto simp: DeleteQueue_def split: option.splits prod.splits)
  have m: "map_of (qm_queues qm') name = None" "qm_serverSecret qm' = qm_serverSecret qm"
    by (simp_all add: qm' delete_conv')
  have "LookupQueue n qm' = LookupQueue n qm" if "n \<noteq> name" for n
    using that by (simp add: LookupQueue_def qm')
  then show ?thesis
    using m by (simp add: LookupQueue_def CreateQueue_def redrive_config_def NewQueue_def Let_def)
qed

text \<open>
  After a purge at \<open>t\<close> another purge of the queue is refused during 60 seconds, with a
  hint of 1 to 60 seconds, and allowed from then on.
\<close>

theorem purge_cooldown:
  assumes "\<not> IsZero t" "t < now 1" "now 0 \<le> now 1" "now 1 \<le> t + purgeCooldown"
  shows "(now 0 < t + purgeCooldown \<longrightarrow>
      (\<exists>k. 1 \<le> k \<and> k \<le> 60 \<and> CheckPurgeCooldown now (MarkPurged t q) =
        Some (NewPurgeQueueInProgress (''Must wait '' @ itoa k @ '' seconds before purging queue '' @
          q_name q @ '' again.'')))) \<and>
    (\<forall>now'. t + purgeCooldown \<le> now' 0 \<longrightarrow> CheckPurgeCooldown now' (MarkPurged t q) = None)"
proof (intro conjI impI allI)
  assume lt: "now 0 < t + purgeCooldown"
  let ?d = "purgeCooldown - (now 1 - t)"
  have "0 \<le> ?d" "?d < purgeCooldown" using assms by auto
  then have "0 \<le> trunc_seconds ?d" "trunc_seconds ?d \<le> 59"
    by (auto simp: trunc_seconds_def purgeCooldown_def)
  then show "\<exists>k. 1 \<le> k \<and> k \<le> 60 \<and> CheckPurgeCooldown now (MarkPurged t q) =
        Some (NewPurgeQueueInProgress (''Must wait '' @ itoa k @ '' seconds before purging queue '' @
          q_name q @ '' again.''))"
    using assms(1) lt
    by (intro exI [of _ "trunc_seconds ?d + 1"]) (simp add: CheckPurgeCooldown_def MarkPurged_def)
qed (simp add: CheckPurgeCooldown_def MarkPurged_def)

lemma purge_cooldown_witness:
  "\<exists>k. 1 \<le> k \<and> k \<le> 60 \<and> CheckPurgeCooldown (\<lambda>_. 1000000000) (MarkPurged 0 (NewQueue ''q'' None ())) =
     Some (NewPurgeQueueInProgress (''Must wait '' @ itoa k @ '' seconds before purging queue '' @
       q_name (NewQueue ''q'' None ()) @ '' again.''))"
  using purge_cooldown [of 0 "\<lambda>_. 1000000000" "NewQueue ''q'' None ()"]
  by (simp add: IsZero_def zero_time_def purgeCooldown_def)

lemma close_all_spec:
  "(\<And>k. \<not> ctx_done k) \<Longrightarrow> close_all ops ctx_done k l errs =
   (errs @ concat (map (\<lambda>(n, q). case fst (op_Close ops (q_store q)) of
        None \<Rightarrow> [] | Some e \<Rightarrow> [Errorf (''failed to close store for queue '' @ n @ '': '' @ error_text e)]) l),
    False, map (\<lambda>(n, q). (n, snd (op_Close ops (q_store q)))) l)"
  by (induction l arbitrary: k errs) (auto simp: Let_def split: option.splits prod.splits)

text \<open>
  \<open>Shutdown\<close> always empties the registry; unless its context ends it closes every
  store, and it reports an error for exactly those whose \<open>Close\<close> failed.
\<close>

theorem shutdown_closes_all:
  assumes "\<And>k. \<not> ctx_done k"
  shows "\<exists>errs closed qm'. Shutdown ops ctx_done qm = (errs, False, closed, qm') \<and> qm_queues qm' = [] \<and>
    map fst closed = map fst (qm_queues qm) \<and>
    (errs = [] \<longleftrightarrow> (\<forall>(n, q) \<in> set (qm_queues qm). fst (op_Close ops (q_store q)) = None)) \<and>
    (\<forall>(n, q) \<in> set (qm_queues qm). (n, snd (op_Close ops (q_store q))) \<in> set closed)"
  by (auto simp: Shutdown_def close_all_spec [OF assms] split: option.splits intro: rev_image_eqI)

text \<open>A store that only counts how often it was closed, for the witnesses of this theory.\<close>

definition counter_ops :: "nat store_ops" where
  "counter_ops = \<lparr> op_SendMessage = (\<lambda>_ m _ s. (None, m, s)),
     op_ReceiveMessages = (\<lambda>_ _ _ _ s. (Inr [], [], s)), op_DeleteMessage = (\<lambda>_ s. (None, s)),
     op_ChangeMessageVisibility = (\<lambda>_ _ _ s. (None, s)),
     op_ApproximateNumberOfMessages = (\<lambda>_ _. 0),
     op_ApproximateNumberOfMessagesNotVisible = (\<lambda>_ _. 0),
     op_ApproximateNumberOfMessagesDelayed = (\<lambda>_ _. 0),
     op_Purge = (\<lambda>s. (None, s)), op_Close = (\<lambda>s. (None, Suc s)) \<rparr>"

definition one_queue :: "nat manager" where
  "one_queue = (NewQueueManager ''h'' ''a'' ''r'' ''s'')
     \<lparr> qm_queues := [(''jobs'', NewQueue ''jobs'' None 0)] \<rparr>"

lemma shutdown_closes_all_witness:
  "\<exists>errs closed qm'. Shutdown counter_ops (\<lambda>_. False) one_queue = (errs, False, closed, qm') \<and>
     qm_queues qm' = [] \<and> map fst closed = [''jobs''] \<and> errs = []"
proof -
  obtain errs closed qm' where "Shutdown counter_ops (\<lambda>_. False) one_queue = (errs, False, closed, qm')"
    "qm_queues qm' = []" "map fst closed = map fst (qm_queues one_queue)"
    "errs = [] \<longleftrightarrow>
      (\<forall>(n, q) \<in> set (qm_queues one_queue). fst (op_Close counter_ops (q_store q)) = None)"
    using shutdown_closes_all [of "\<lambda>_. False" counter_ops one_queue] by blast
  then show ?thesis by (simp add: one_queue_def counter_ops_def)
qed

lemma delete_then_gone_witness:
  "\<exists>qm'. DeleteQueue counter_ops ''jobs'' one_queue = (None, qm') \<and>
     LookupQueue ''jobs'' qm' = Inl (no_such_queue ''jobs'')"
proof -
  obtain qm' where d: "DeleteQueue counter_ops ''jobs'' one_queue = (None, qm')"
    by (simp add: DeleteQueue_def counter_ops_def one_queue_def)
  with delete_then_gone [OF d] show ?thesis by blast
qed


end
