(* ===== verification/MemoryStore.thy ===== *)
theory MemoryStore
  imports StoreCommon
begin

section \<open>The in-memory store\<close>

text \<open>
  \<^verbatim>\<open>pkgs/v1/queue/store/memory/memory.go\<close>.  The store keeps pointers to
  \<open>memoryMessage\<close> cells: the slice \<open>messages\<close>, the per-group slices and the closures
  of the visibility timers all point to the same cells, and a closure keeps its cell after
  the message left the slice.  So the model has a heap of cells, and lists of addresses.
  A timer of \<open>time.AfterFunc\<close> is armed, or has fired: then its goroutine waits for the
  mutex, and \<open>Stop\<close> no longer prevents it.  An operation of this theory is what the code
  does while it holds the mutex.
\<close>

record memoryMessage =
  mm_msg :: message
  mm_visibleAt :: time
  mm_receiptHandle :: string
  mm_receiveCount :: int
  mm_firstReceived :: time
  mm_visibilityTimer :: "nat option"

datatype timer_body = OnReceive | OnChange

record timer =
  tm_body :: timer_body
  tm_cell :: nat
  tm_handle :: string
  tm_deadline :: time
  tm_fired :: bool

record memory_store =
  ms_heap :: "nat \<Rightarrow> memoryMessage"
  ms_next_cell :: nat
  ms_timers :: "nat \<Rightarrow> timer option"
  ms_next_timer :: nat
  ms_messages :: "nat list"
  ms_queueName :: string
  ms_visibilityTimeout :: int
  ms_notify :: bool
  ms_serverSecret :: string
  ms_closed :: bool
  ms_isFifo :: bool
  ms_contentBasedDeduplication :: bool
  ms_dedupCache :: dedup_cache
  ms_messageGroups :: "string \<Rightarrow> nat list option"
  ms_inFlightGroups :: "string \<Rightarrow> bool"
  ms_sequenceCounter :: int
  ms_maxReceiveCount :: int
  ms_redriveFunc :: "string option"
  ms_messageRetentionPeriod :: int

definition zero_cell :: memoryMessage where
  "zero_cell = \<lparr> mm_msg = zero_message, mm_visibleAt = zero_time, mm_receiptHandle = '''',
     mm_receiveCount = 0, mm_firstReceived = zero_time, mm_visibilityTimer = None \<rparr>"

definition NewMemoryStore :: "string \<Rightarrow> int \<Rightarrow> string \<Rightarrow> StoreConfig \<Rightarrow> memory_store" where
  "NewMemoryStore queueName visibilityTimeout serverSecret cfg = \<lparr>
     ms_heap = (\<lambda>_. zero_cell), ms_next_cell = 0, ms_timers = (\<lambda>_. None), ms_next_timer = 0,
     ms_messages = [], ms_queueName = queueName, ms_visibilityTimeout = visibilityTimeout,
     ms_notify = False, ms_serverSecret = serverSecret, ms_closed = False,
     ms_isFifo = cfg_IsFifo cfg,
     ms_contentBasedDeduplication = cfg_ContentBasedDeduplication cfg,
     ms_dedupCache = (\<lambda>_. None), ms_messageGroups = (\<lambda>_. None),
     ms_inFlightGroups = (\<lambda>_. False), ms_sequenceCounter = 0,
     ms_maxReceiveCount = cfg_MaxReceiveCount cfg, ms_redriveFunc = cfg_RedriveFunc cfg,
     ms_messageRetentionPeriod = cfg_MessageRetentionPeriod cfg \<rparr>"

subsection \<open>Cells and timers\<close>

abbreviation group_of :: "memory_store \<Rightarrow> nat \<Rightarrow> string" where
  "group_of s a \<equiv> MessageGroupID (mm_msg (ms_heap s a))"

abbreviation handle_of :: "memory_store \<Rightarrow> nat \<Rightarrow> string" where
  "handle_of s a \<equiv> mm_receiptHandle (ms_heap s a)"

text \<open>The test that opens every piece of group handling: a FIFO store and a group.\<close>

definition grouped :: "memory_store \<Rightarrow> nat \<Rightarrow> bool" where
  "grouped s a \<longleftrightarrow> ms_isFifo s \<and> group_of s a \<noteq> ''''"

definition set_cell :: "nat \<Rightarrow> memoryMessage \<Rightarrow> memory_store \<Rightarrow> memory_store" where
  "set_cell a mm s = s\<lparr> ms_heap := (ms_heap s)(a := mm) \<rparr>"

definition notifyWaiters :: "memory_store \<Rightarrow> memory_store" where
  "notifyWaiters s = s\<lparr> ms_notify := True \<rparr>"

definition Stop :: "nat option \<Rightarrow> memory_store \<Rightarrow> memory_store" where
  "Stop t s =
     (case t of
        None \<Rightarrow> s
      | Some i \<Rightarrow>
          (case ms_timers s i of
             Some tm \<Rightarrow> if tm_fired tm then s else s\<lparr> ms_timers := (ms_timers s)(i := None) \<rparr>
           | None \<Rightarrow> s))"

definition AfterFunc ::
  "timer_body \<Rightarrow> nat \<Rightarrow> string \<Rightarrow> time \<Rightarrow> memory_store \<Rightarrow> nat \<times> memory_store" where
  "AfterFunc body a handle deadline s =
     (let i = ms_next_timer s in
      (i, s\<lparr> ms_timers := (ms_timers s)(i \<mapsto>
              \<lparr> tm_body = body, tm_cell = a, tm_handle = handle, tm_deadline = deadline,
                tm_fired = False \<rparr>),
            ms_next_timer := Suc i \<rparr>))"

definition clear_group :: "nat \<Rightarrow> memory_store \<Rightarrow> memory_store" where
  "clear_group a s =
     (if grouped s a
      then s\<lparr> ms_inFlightGroups := (ms_inFlightGroups s)(group_of s a := False) \<rparr> else s)"

subsection \<open>Retention and removal\<close>

definition expired :: "time \<Rightarrow> memory_store \<Rightarrow> nat \<Rightarrow> bool" where
  "expired now s a \<longleftrightarrow>
     SentTimestamp (mm_msg (ms_heap s a)) < retention_cutoff (ms_messageRetentionPeriod s) now"

fun stop_expired :: "time \<Rightarrow> nat list \<Rightarrow> memory_store \<Rightarrow> memory_store" where
  "stop_expired now [] s = s"
| "stop_expired now (a # as) s =
     stop_expired now as
       (if expired now s a then Stop (mm_visibilityTimer (ms_heap s a)) s else s)"

definition deleteExpiredMessagesLocked :: "time \<Rightarrow> memory_store \<Rightarrow> memory_store" where
  "deleteExpiredMessagesLocked now s =
     (stop_expired now (ms_messages s) s)
       \<lparr> ms_messages := filter (\<lambda>a. \<not> expired now s a) (ms_messages s) \<rparr>"

definition removeFromMessageGroup :: "nat \<Rightarrow> memory_store \<Rightarrow> memory_store" where
  "removeFromMessageGroup a s =
     (let g = group_of s a;
          group = (case ms_messageGroups s g of None \<Rightarrow> [] | Some l \<Rightarrow> l);
          groups = (if a \<in> set group then (ms_messageGroups s)(g \<mapsto> remove1 a group)
                    else ms_messageGroups s);
          left = (case groups g of None \<Rightarrow> [] | Some l \<Rightarrow> l)
      in s\<lparr> ms_messageGroups := (if left = [] then groups(g := None) else groups) \<rparr>)"

definition removeMessage :: "nat \<Rightarrow> memory_store \<Rightarrow> memory_store" where
  "removeMessage a s =
     (let s1 = Stop (mm_visibilityTimer (ms_heap s a)) s;
          s2 = (if grouped s1 a then removeFromMessageGroup a (clear_group a s1) else s1)
      in s2\<lparr> ms_messages := remove1 a (ms_messages s2) \<rparr>)"

subsection \<open>Sending\<close>

definition SendMessage ::
  "env \<Rightarrow> clock \<Rightarrow> message \<Rightarrow> int \<Rightarrow> memory_store \<Rightarrow> go_error option \<times> message \<times> memory_store" where
  "SendMessage E now msg delaySeconds s =
     (if ms_closed s then (Some store_closed, msg, s)
      else
        let (dup, cache, counter, msg1) =
              (if ms_isFifo s
               then fifo_admit E (ms_contentBasedDeduplication s) now (ms_dedupCache s)
                      (ms_sequenceCounter s) msg
               else (False, ms_dedupCache s, ms_sequenceCounter s, msg));
            s1 = s\<lparr> ms_dedupCache := cache, ms_sequenceCounter := counter \<rparr>
        in if dup then (None, msg, s1)
           else
             let visibleAt = (if delaySeconds > 0 then now 2 + seconds delaySeconds else now 2);
                 msg2 = msg1\<lparr> SentTimestamp := now 3, IsVisible := (delaySeconds = 0) \<rparr>;
                 a = ms_next_cell s1;
                 mm = zero_cell\<lparr> mm_msg := msg2, mm_visibleAt := visibleAt \<rparr>;
                 s2 = (set_cell a mm s1)
                        \<lparr> ms_next_cell := Suc a, ms_messages := ms_messages s1 @ [a] \<rparr>;
                 s3 = (if grouped s2 a
                       then s2\<lparr> ms_messageGroups := (ms_messageGroups s2)(group_of s2 a \<mapsto>
                              (case ms_messageGroups s2 (group_of s2 a) of
                                 None \<Rightarrow> [a] | Some l \<Rightarrow> l @ [a])) \<rparr>
                       else s2);
                 s4 = (if delaySeconds = 0 then notifyWaiters s3 else s3)
             in (None, msg2, s4))"

subsection \<open>Receiving\<close>

definition receiveMessage ::
  "env \<Rightarrow> int \<Rightarrow> time \<Rightarrow> string \<Rightarrow> nat \<Rightarrow> memory_store \<Rightarrow> message \<times> memory_store" where
  "receiveMessage E visibilityTimeout now nonce a s =
     (let mm = ms_heap s a;
          count = mm_receiveCount mm + 1;
          first = (if IsZero (mm_firstReceived mm) then now else mm_firstReceived mm);
          visibleAt = now + seconds visibilityTimeout;
          handle = generateReceiptHandle E (ms_queueName s) (ms_serverSecret s)
                     (MessageID (mm_msg mm)) now nonce;
          s1 = (if grouped s a
                then s\<lparr> ms_inFlightGroups := (ms_inFlightGroups s)(group_of s a := True) \<rparr> else s);
          s2 = Stop (mm_visibilityTimer mm) s1;
          (i, s3) = AfterFunc OnReceive a handle visibleAt s2;
          msg = (mm_msg mm)\<lparr> IsVisible := False, ReceiptHandle := handle,
                  ApproximateReceiveCount := count, ReceivedTimestamp := now,
                  ApproximateFirstReceiveTimestamp := first \<rparr>
      in (msg, set_cell a \<lparr> mm_msg = msg, mm_visibleAt = visibleAt, mm_receiptHandle = handle,
                            mm_receiveCount = count, mm_firstReceived = first,
                            mm_visibilityTimer = Some i \<rparr> s3))"

text \<open>A message the loop of \<open>ReceiveMessages\<close> takes at \<open>now\<close>.\<close>

definition receivable :: "time \<Rightarrow> memory_store \<Rightarrow> nat \<Rightarrow> bool" where
  "receivable now s a \<longleftrightarrow>
     \<not> mm_visibleAt (ms_heap s a) > now \<and>
     \<not> (grouped s a \<and> ms_inFlightGroups s (group_of s a))"

fun receive_scan ::
  "env \<Rightarrow> int \<Rightarrow> int \<Rightarrow> time \<Rightarrow> (nat \<Rightarrow> string) \<Rightarrow> nat list \<Rightarrow> message list \<Rightarrow> memory_store
   \<Rightarrow> message list \<times> memory_store" where
  "receive_scan E maxMessages vt now rnd [] result s = (result, s)"
| "receive_scan E maxMessages vt now rnd (a # as) result s =
     (if receivable now s a then
        let (msg, s') = receiveMessage E vt now (rnd (length result)) a s;
            result' = result @ [msg]
        in if int (length result') \<ge> maxMessages then (result', s')
           else receive_scan E maxMessages vt now rnd as result' s'
      else receive_scan E maxMessages vt now rnd as result s)"

definition effective_timeout :: "int \<Rightarrow> memory_store \<Rightarrow> int" where
  "effective_timeout visibilityTimeout s =
     (if visibilityTimeout \<le> 0 then ms_visibilityTimeout s else visibilityTimeout)"

text \<open>One turn of the loop, from \<open>Lock\<close> to \<open>Unlock\<close>.\<close>

definition receive_poll ::
  "env \<Rightarrow> int \<Rightarrow> int \<Rightarrow> time \<Rightarrow> (nat \<Rightarrow> string) \<Rightarrow> memory_store
   \<Rightarrow> (go_error + message list) \<times> memory_store" where
  "receive_poll E maxMessages vt now rnd s =
     (if ms_closed s then (Inl store_closed, s)
      else
        let s1 = deleteExpiredMessagesLocked now s;
            (result, s2) = receive_scan E maxMessages vt now rnd (ms_messages s1) [] s1
        in (Inr result, s2))"

text \<open>
  The whole call.  Between two turns the mutex is free: a \<open>turn\<close> gives the clock reading
  of the turn, the time left until the deadline when it ends, what the other goroutines do
  to the store meanwhile, and how the \<open>select\<close> ends.  When the turns run out the call is
  still waiting: the result is \<open>None\<close>.
\<close>

datatype wake = Notified | TimedOut | Cancelled

record turn =
  tn_now :: time
  tn_nonces :: "nat \<Rightarrow> string"
  tn_remaining :: int
  tn_others :: "memory_store \<Rightarrow> memory_store"
  tn_wake :: wake

definition context_error :: go_error where
  "context_error = Errorf ''context canceled''"

fun receive_turns ::
  "env \<Rightarrow> int \<Rightarrow> int \<Rightarrow> int \<Rightarrow> turn list \<Rightarrow> memory_store
   \<Rightarrow> (go_error + message list) option \<times> memory_store" where
  "receive_turns E maxMessages vt waitTimeSeconds [] s = (None, s)"
| "receive_turns E maxMessages vt waitTimeSeconds (p # ps) s =
     (case receive_poll E maxMessages vt (tn_now p) (tn_nonces p) s of
        (Inl e, s') \<Rightarrow> (Some (Inl e), s')
      | (Inr result, s') \<Rightarrow>
          if result \<noteq> [] then (Some (Inr result), s')
          else if waitTimeSeconds \<le> 0 then (Some (Inr []), s')
          else if tn_remaining p \<le> 0 then (Some (Inr []), s')
          else
            let s'' = tn_others p s' in
            (case tn_wake p of
               Notified \<Rightarrow>
                 receive_turns E maxMessages vt waitTimeSeconds ps (s''\<lparr> ms_notify := False \<rparr>)
             | TimedOut \<Rightarrow> (Some (Inr []), s'')
             | Cancelled \<Rightarrow> (Some (Inl context_error), s'')))"

definition ReceiveMessages ::
  "env \<Rightarrow> turn list \<Rightarrow> int \<Rightarrow> int \<Rightarrow> int \<Rightarrow> memory_store
   \<Rightarrow> (go_error + message list) option \<times> memory_store" where
  "ReceiveMessages E turns maxMessages visibilityTimeout waitTimeSeconds s =
     receive_turns E maxMessages (effective_timeout visibilityTimeout s) waitTimeSeconds turns s"

text \<open>The call with \<open>waitTimeSeconds <= 0\<close>, which takes one turn.\<close>

definition ReceiveNow ::
  "env \<Rightarrow> clock \<Rightarrow> (nat \<Rightarrow> string) \<Rightarrow> int \<Rightarrow> int \<Rightarrow> memory_store
   \<Rightarrow> (go_error + message list) \<times> memory_store" where
  "ReceiveNow E now rnd maxMessages visibilityTimeout s =
     receive_poll E maxMessages (effective_timeout visibilityTimeout s) (now 0) rnd s"

subsection \<open>Deleting, changing visibility, timers\<close>

definition find_handle :: "string \<Rightarrow> memory_store \<Rightarrow> nat option" where
  "find_handle h s =
     find (\<lambda>a. mm_receiptHandle (ms_heap s a) = h \<and> mm_receiptHandle (ms_heap s a) \<noteq> '''')
       (ms_messages s)"

definition DeleteMessage :: "string \<Rightarrow> memory_store \<Rightarrow> go_error option \<times> memory_store" where
  "DeleteMessage receiptHandle s =
     (case find_handle receiptHandle s of
        Some a \<Rightarrow> (None, notifyWaiters (removeMessage a s))
      | None \<Rightarrow> (Some (invalid_handle receiptHandle), s))"

definition ChangeMessageVisibility ::
  "clock \<Rightarrow> string \<Rightarrow> int \<Rightarrow> memory_store \<Rightarrow> go_error option \<times> memory_store" where
  "ChangeMessageVisibility now receiptHandle visibilityTimeout s =
     (case find_handle receiptHandle s of
        None \<Rightarrow> (Some (invalid_handle receiptHandle), s)
      | Some a \<Rightarrow>
          let mm = ms_heap s a;
              s1 = Stop (mm_visibilityTimer mm) s
          in if visibilityTimeout = 0 then
               let s2 = set_cell a (mm\<lparr> mm_visibleAt := now 0, mm_receiptHandle := '''',
                          mm_msg := (mm_msg mm)\<lparr> IsVisible := True \<rparr>,
                          mm_visibilityTimer := None \<rparr>) s1
               in (None, notifyWaiters (clear_group a s2))
             else
               let visibleAt = now 0 + seconds visibilityTimeout;
                   (i, s2) = AfterFunc OnChange a (mm_receiptHandle mm) visibleAt s1
               in (None, set_cell a (mm\<lparr> mm_visibleAt := visibleAt,
                          mm_visibilityTimer := Some i \<rparr>) s2))"

text \<open>
  The test for a redrive, and the body of a timer once its goroutine holds the mutex.  The
  first component is the message handed to the redrive callback.
\<close>

definition must_redrive :: "memory_store \<Rightarrow> nat \<Rightarrow> bool" where
  "must_redrive s a \<longleftrightarrow>
     ms_maxReceiveCount s > 0 \<and> mm_receiveCount (ms_heap s a) \<ge> ms_maxReceiveCount s \<and>
     ms_redriveFunc s \<noteq> None"

definition redrive_cell :: "nat \<Rightarrow> memory_store \<Rightarrow> message \<times> memory_store" where
  "redrive_cell a s =
     (let s1 = removeMessage a s;
          msg = PrepareForRedrive (mm_msg (ms_heap s1 a))
      in (msg, set_cell a ((ms_heap s1 a)\<lparr> mm_msg := msg \<rparr>) s1))"

definition show_cell :: "nat \<Rightarrow> memory_store \<Rightarrow> memory_store" where
  "show_cell a s =
     set_cell a ((ms_heap s a)\<lparr> mm_msg := (mm_msg (ms_heap s a))\<lparr> IsVisible := True \<rparr> \<rparr>) s"

definition forget_cell :: "nat \<Rightarrow> memory_store \<Rightarrow> memory_store" where
  "forget_cell a s =
     clear_group a
       (set_cell a ((ms_heap s a)\<lparr> mm_receiptHandle := '''', mm_visibilityTimer := None \<rparr>) s)"

definition run_timer :: "nat \<Rightarrow> memory_store \<Rightarrow> message option \<times> memory_store" where
  "run_timer i s0 =
     (case ms_timers s0 i of
        None \<Rightarrow> (None, s0)
      | Some tm \<Rightarrow>
          let s = s0\<lparr> ms_timers := (ms_timers s0)(i := None) \<rparr>;
              a = tm_cell tm
          in case tm_body tm of
               OnReceive \<Rightarrow>
                 if ms_closed s then (None, s)
                 else if mm_receiptHandle (ms_heap s a) \<noteq> tm_handle tm then (None, s)
                 else if must_redrive s a then
                   let (msg, s1) = redrive_cell a s in (Some msg, notifyWaiters s1)
                 else (None, notifyWaiters (forget_cell a (show_cell a s)))
             | OnChange \<Rightarrow>
                 if mm_receiptHandle (ms_heap s a) \<noteq> tm_handle tm then (None, s)
                 else if must_redrive s a then
                   let (msg, s1) = redrive_cell a s
                   in (Some msg, notifyWaiters (forget_cell a s1))
                 else (None, notifyWaiters (forget_cell a (show_cell a s))))"

subsection \<open>Counts, purge, close\<close>

definition ApproximateNumberOfMessages :: "time \<Rightarrow> memory_store \<Rightarrow> int" where
  "ApproximateNumberOfMessages now s =
     int (length (filter (\<lambda>a. \<not> mm_visibleAt (ms_heap s a) > now) (ms_messages s)))"

definition ApproximateNumberOfMessagesNotVisible :: "time \<Rightarrow> memory_store \<Rightarrow> int" where
  "ApproximateNumberOfMessagesNotVisible now s =
     int (length (filter (\<lambda>a. mm_visibleAt (ms_heap s a) > now \<and> mm_receiptHandle (ms_heap s a) \<noteq> '''')
       (ms_messages s)))"

definition ApproximateNumberOfMessagesDelayed :: "time \<Rightarrow> memory_store \<Rightarrow> int" where
  "ApproximateNumberOfMessagesDelayed now s =
     int (length (filter (\<lambda>a. mm_visibleAt (ms_heap s a) > now \<and> mm_receiptHandle (ms_heap s a) = '''')
       (ms_messages s)))"

fun stop_all :: "nat list \<Rightarrow> memory_store \<Rightarrow> memory_store" where
  "stop_all [] s = s"
| "stop_all (a # as) s = stop_all as (Stop (mm_visibilityTimer (ms_heap s a)) s)"

definition Purge :: "memory_store \<Rightarrow> memory_store" where
  "Purge s =
     notifyWaiters ((stop_all (ms_messages s) s)
       \<lparr> ms_messages := [], ms_dedupCache := (\<lambda>_. None), ms_messageGroups := (\<lambda>_. None),
         ms_inFlightGroups := (\<lambda>_. False), ms_sequenceCounter := 0 \<rparr>)"

definition Close :: "memory_store \<Rightarrow> memory_store" where
  "Close s = stop_all (ms_messages s) (s\<lparr> ms_closed := True \<rparr>)"

text \<open>The store as a value of the interface.\<close>

definition memory_ops :: "env \<Rightarrow> memory_store store_ops" where
  "memory_ops E = \<lparr>
     op_SendMessage = SendMessage E,
     op_ReceiveMessages = (\<lambda>now rnd n vt s.
       let (r, s') = ReceiveNow E now rnd n vt s in (r, [], s')),
     op_DeleteMessage = DeleteMessage,
     op_ChangeMessageVisibility = ChangeMessageVisibility,
     op_ApproximateNumberOfMessages = ApproximateNumberOfMessages,
     op_ApproximateNumberOfMessagesNotVisible = ApproximateNumberOfMessagesNotVisible,
     op_ApproximateNumberOfMessagesDelayed = ApproximateNumberOfMessagesDelayed,
     op_Purge = (\<lambda>s. (None, Purge s)),
     op_Close = (\<lambda>s. (None, Close s)) \<rparr>"

end
