(* ===== verification/MemoryInvariants.thy ===== *)
theory MemoryInvariants
  imports MemoryStore
begin

section \<open>The in-memory store: runs and their invariant\<close>

text \<open>
  A run interleaves the critical sections of the store: the calls of its interface, the
  turns of waiting receivers and the bodies of the timers.  In a \<^emph>\<open>prompt\<close> run a timer's
  body runs as soon as the timer fires.  The invariant \<open>mem_inv\<close> holds in every prompt
  run: it ties each armed timer to the message it will release, and it holds the FIFO
  promise, one message in flight for each group.
\<close>

datatype store_call =
    CSend message int
  | CReceive int int "nat \<Rightarrow> string"
  | CDelete string
  | CChange string int
  | CPurge
  | CClose

fun mem_call :: "env \<Rightarrow> clock \<Rightarrow> store_call \<Rightarrow> memory_store \<Rightarrow> memory_store" where
  "mem_call E now (CSend msg delay) s = snd (snd (SendMessage E now msg delay s))"
| "mem_call E now (CReceive n vt rnd) s = snd (receive_poll E n vt (now 0) rnd s)"
| "mem_call E now (CDelete h) s = snd (DeleteMessage h s)"
| "mem_call E now (CChange h vt) s = snd (ChangeMessageVisibility now h vt s)"
| "mem_call E now CPurge s = Purge s"
| "mem_call E now CClose s = Close s"

inductive prompt_step :: "env \<Rightarrow> memory_store \<Rightarrow> memory_store \<Rightarrow> bool" for E where
  Call: "prompt_step E s (mem_call E now c s)"
| Timer: "ms_timers s i = Some tm \<Longrightarrow> prompt_step E s (snd (run_timer i s))"

inductive_cases prompt_stepE: "prompt_step E s s'"

text \<open>\<open>prompt_run E n s s'\<close>: a run of \<open>n\<close> steps.\<close>

inductive prompt_run :: "env \<Rightarrow> nat \<Rightarrow> memory_store \<Rightarrow> memory_store \<Rightarrow> bool" for E where
  Nil: "prompt_run E 0 s s"
| Step: "prompt_run E n s s' \<Longrightarrow> prompt_step E s' s'' \<Longrightarrow> prompt_run E (Suc n) s s''"

text \<open>
  Without promptness a timer first fires, which only marks it, and its body runs later:
  other calls may take the mutex in between.
\<close>

inductive racy_step :: "env \<Rightarrow> memory_store \<Rightarrow> memory_store \<Rightarrow> bool" for E where
  RCall: "racy_step E s (mem_call E now c s)"
| Fire: "ms_timers s i = Some tm \<Longrightarrow>
    racy_step E s (s\<lparr> ms_timers := (ms_timers s)(i \<mapsto> tm\<lparr> tm_fired := True \<rparr>) \<rparr>)"
| Body: "ms_timers s i = Some tm \<Longrightarrow> tm_fired tm \<Longrightarrow> racy_step E s (snd (run_timer i s))"

inductive racy_run :: "env \<Rightarrow> memory_store \<Rightarrow> memory_store \<Rightarrow> bool" for E where
  RNil: "racy_run E s s"
| RStep: "racy_run E s s' \<Longrightarrow> racy_step E s' s'' \<Longrightarrow> racy_run E s s''"

subsection \<open>The invariant\<close>

definition timer_ok :: "memory_store \<Rightarrow> nat \<Rightarrow> timer \<Rightarrow> bool" where
  "timer_ok s i tm \<longleftrightarrow>
     \<not> tm_fired tm \<and> i < ms_next_timer s \<and> tm_cell tm \<in> set (ms_messages s) \<and>
     mm_visibilityTimer (ms_heap s (tm_cell tm)) = Some i \<and>
     tm_handle tm = handle_of s (tm_cell tm) \<and> tm_handle tm \<noteq> '''' \<and>
     tm_deadline tm = mm_visibleAt (ms_heap s (tm_cell tm))"

definition cell_ok :: "memory_store \<Rightarrow> nat \<Rightarrow> bool" where
  "cell_ok s a \<longleftrightarrow>
     a < ms_next_cell s \<and>
     (mm_visibilityTimer (ms_heap s a) = None \<longrightarrow> handle_of s a = '''') \<and>
     (\<forall>i. mm_visibilityTimer (ms_heap s a) = Some i \<longrightarrow>
        handle_of s a \<noteq> '''' \<and> i < ms_next_timer s \<and>
        (ms_timers s i = None \<longrightarrow> ms_closed s) \<and>
        (\<forall>tm. ms_timers s i = Some tm \<longrightarrow> tm_cell tm = a)) \<and>
     (grouped s a \<and> handle_of s a \<noteq> '''' \<longrightarrow> ms_inFlightGroups s (group_of s a))"

definition lone_in_flight :: "memory_store \<Rightarrow> bool" where
  "lone_in_flight s \<longleftrightarrow>
     (\<forall>a \<in> set (ms_messages s). \<forall>b \<in> set (ms_messages s).
        grouped s a \<and> grouped s b \<and> group_of s a = group_of s b \<and>
        handle_of s a \<noteq> '''' \<and> handle_of s b \<noteq> '''' \<longrightarrow> a = b)"

definition mem_inv :: "memory_store \<Rightarrow> bool" where
  "mem_inv s \<longleftrightarrow>
     distinct (ms_messages s) \<and> (\<forall>a \<in> set (ms_messages s). cell_ok s a) \<and>
     (\<forall>i tm. ms_timers s i = Some tm \<longrightarrow> timer_ok s i tm) \<and> lone_in_flight s"

lemmas inv_defs = mem_inv_def timer_ok_def cell_ok_def lone_in_flight_def

lemma mem_invI:
  assumes "distinct (ms_messages s)" "\<And>a. a \<in> set (ms_messages s) \<Longrightarrow> cell_ok s a"
    "\<And>i tm. ms_timers s i = Some tm \<Longrightarrow> timer_ok s i tm" "lone_in_flight s"
  shows "mem_inv s"
  using assms by (simp add: mem_inv_def)

lemma mem_inv_distinct: "mem_inv s \<Longrightarrow> distinct (ms_messages s)"
  and mem_inv_cell: "mem_inv s \<Longrightarrow> a \<in> set (ms_messages s) \<Longrightarrow> cell_ok s a"
  and mem_inv_timer: "mem_inv s \<Longrightarrow> ms_timers s i = Some tm \<Longrightarrow> timer_ok s i tm"
  and mem_inv_lone: "mem_inv s \<Longrightarrow> lone_in_flight s"
  by (simp_all add: mem_inv_def)

subsection \<open>Operations as record updates\<close>

definition stop_timers :: "nat option \<Rightarrow> (nat \<Rightarrow> timer option) \<Rightarrow> nat \<Rightarrow> timer option" where
  "stop_timers t T =
     (\<lambda>i. if t = Some i then (case T i of Some tm \<Rightarrow> if tm_fired tm then Some tm else None
                              | None \<Rightarrow> None) else T i)"

lemma Stop_eq: "Stop t s = s\<lparr> ms_timers := stop_timers t (ms_timers s) \<rparr>"
  by (cases s) (auto simp: Stop_def stop_timers_def fun_eq_iff split: option.splits)

lemma stop_timers_SomeD: "stop_timers t T i = Some tm \<Longrightarrow> T i = Some tm"
  by (auto simp: stop_timers_def split: if_splits option.splits)

lemma stop_timers_other: "t \<noteq> Some i \<Longrightarrow> stop_timers t T i = T i"
  by (simp add: stop_timers_def)

lemma stop_timers_unfired:
  "T i = Some tm \<Longrightarrow> \<not> tm_fired tm \<Longrightarrow> stop_timers (Some i) T i = None"
  by (simp add: stop_timers_def)

definition stops_of :: "nat list \<Rightarrow> memory_store \<Rightarrow> nat \<Rightarrow> timer option" where
  "stops_of as s =
     (\<lambda>i. if \<exists>a \<in> set as. mm_visibilityTimer (ms_heap s a) = Some i
          then stop_timers (Some i) (ms_timers s) i else ms_timers s i)"

lemma stops_of_Cons:
  "stops_of as (s\<lparr> ms_timers := stop_timers (mm_visibilityTimer (ms_heap s a)) (ms_timers s) \<rparr>) =
   stops_of (a # as) s"
  by (auto simp: stops_of_def stop_timers_def fun_eq_iff split: option.splits)

lemma stop_all_eq: "stop_all as s = s\<lparr> ms_timers := stops_of as s \<rparr>"
proof (induction as arbitrary: s)
  case Nil
  show ?case by (simp add: stops_of_def)
next
  case (Cons a as)
  show ?case by (simp add: Cons.IH Stop_eq stops_of_Cons)
qed

lemma expired_timers [simp]: "expired now (s\<lparr> ms_timers := T \<rparr>) a = expired now s a"
  by (simp add: expired_def)

lemma stop_expired_eq:
  "stop_expired now as s = s\<lparr> ms_timers := stops_of (filter (expired now s) as) s \<rparr>"
proof (induction as arbitrary: s)
  case Nil
  show ?case by (simp add: stops_of_def)
next
  case (Cons a as)
  show ?case by (simp add: Cons.IH Stop_eq stops_of_Cons)
qed

lemma clear_group_eq:
  "clear_group a s = s\<lparr> ms_inFlightGroups :=
     (if grouped s a then (ms_inFlightGroups s)(group_of s a := False) else ms_inFlightGroups s) \<rparr>"
  by (simp add: clear_group_def)

lemma removeFromMessageGroup_eq:
  "\<exists>G. removeFromMessageGroup a s = s\<lparr> ms_messageGroups := G \<rparr>"
  unfolding removeFromMessageGroup_def Let_def by blast

lemma grouped_simps [simp]:
  "grouped (s\<lparr> ms_timers := T \<rparr>) a = grouped s a"
  "grouped (s\<lparr> ms_next_timer := n \<rparr>) a = grouped s a"
  "grouped (s\<lparr> ms_inFlightGroups := g \<rparr>) a = grouped s a"
  "grouped (s\<lparr> ms_messageGroups := G \<rparr>) a = grouped s a"
  "grouped (s\<lparr> ms_messages := l \<rparr>) a = grouped s a"
  "grouped (s\<lparr> ms_notify := b \<rparr>) a = grouped s a"
  "grouped (s\<lparr> ms_closed := b \<rparr>) a = grouped s a"
  "grouped (s\<lparr> ms_next_cell := n \<rparr>) a = grouped s a"
  "grouped (s\<lparr> ms_dedupCache := d \<rparr>) a = grouped s a"
  "grouped (s\<lparr> ms_sequenceCounter := q \<rparr>) a = grouped s a"
  by (simp_all add: grouped_def)

lemma removeMessage_eq:
  "\<exists>G. removeMessage a s = s\<lparr>
     ms_timers := stop_timers (mm_visibilityTimer (ms_heap s a)) (ms_timers s),
     ms_inFlightGroups := (if grouped s a then (ms_inFlightGroups s)(group_of s a := False)
                           else ms_inFlightGroups s),
     ms_messageGroups := G, ms_messages := remove1 a (ms_messages s) \<rparr>"
proof -
  let ?s1 = "Stop (mm_visibilityTimer (ms_heap s a)) s"
  obtain G where "removeFromMessageGroup a (clear_group a ?s1) =
      (clear_group a ?s1)\<lparr> ms_messageGroups := G \<rparr>"
    using removeFromMessageGroup_eq by blast
  then show ?thesis
    by (intro exI [of _ "if grouped s a then G else ms_messageGroups s"])
       (auto simp: removeMessage_def Let_def clear_group_eq Stop_eq)
qed

lemma mem_inv_frame [simp]:
  "mem_inv (s\<lparr> ms_notify := b \<rparr>) = mem_inv s"
  "mem_inv (s\<lparr> ms_messageGroups := G \<rparr>) = mem_inv s"
  "mem_inv (s\<lparr> ms_dedupCache := d \<rparr>) = mem_inv s"
  "mem_inv (s\<lparr> ms_sequenceCounter := q \<rparr>) = mem_inv s"
  by (simp_all add: inv_defs)

lemma mem_inv_notify [simp]: "mem_inv (notifyWaiters s) = mem_inv s"
  by (simp add: notifyWaiters_def)

subsection \<open>Every operation keeps the invariant\<close>

lemma mem_inv_New: "mem_inv (NewMemoryStore q vt secret cfg)"
  by (simp add: inv_defs NewMemoryStore_def)

text \<open>A set of messages leaves the store, each with its timer stopped.\<close>

lemma stops_of_removes:
  assumes "mem_inv s" "stops_of as s i = Some tm"
  shows "ms_timers s i = Some tm \<and> tm_cell tm \<notin> set as"
proof -
  have T: "ms_timers s i = Some tm" and
    "\<not> (\<exists>a \<in> set as. mm_visibilityTimer (ms_heap s a) = Some i) \<or> tm_fired tm"
    using assms(2) by (auto simp: stops_of_def stop_timers_def split: if_splits option.splits)
  then show ?thesis using mem_inv_timer [OF assms(1) T] by (auto simp: timer_ok_def)
qed

lemma stops_of_keeps:
  assumes "mem_inv s" "a \<in> set (ms_messages s)" "a \<notin> set as" "set as \<subseteq> set (ms_messages s)"
    "mm_visibilityTimer (ms_heap s a) = Some i" "\<not> ms_closed s"
  shows "stops_of as s i = ms_timers s i"
proof -
  have "\<not> (\<exists>b \<in> set as. mm_visibilityTimer (ms_heap s b) = Some i)"
  proof
    assume "\<exists>b \<in> set as. mm_visibilityTimer (ms_heap s b) = Some i"
    then obtain b where b: "b \<in> set as" "mm_visibilityTimer (ms_heap s b) = Some i" by blast
    obtain tm where "ms_timers s i = Some tm" "tm_cell tm = a" "tm_cell tm = b"
      using mem_inv_cell [OF assms(1,2)] mem_inv_cell [OF assms(1), of b] b assms(4,5,6)
      by (auto simp: cell_ok_def split: option.splits)
    with b assms(3) show False by blast
  qed
  then show ?thesis by (simp add: stops_of_def)
qed

lemma mem_inv_leave:
  assumes inv: "mem_inv s" and sub: "set as \<subseteq> set (ms_messages s)"
    and ms: "ms = filter (\<lambda>a. a \<notin> set as) (ms_messages s)"
    and fl: "\<And>a. a \<in> set ms \<Longrightarrow> grouped s a \<Longrightarrow> handle_of s a \<noteq> '''' \<Longrightarrow>
               ms_inFlightGroups s (group_of s a) \<Longrightarrow> fl (group_of s a)"
  shows "mem_inv (s\<lparr> ms_timers := stops_of as s, ms_inFlightGroups := fl, ms_messageGroups := G,
           ms_messages := ms \<rparr>)"
    (is "mem_inv ?t")
proof (rule mem_invI)
  show "distinct (ms_messages ?t)" using mem_inv_distinct [OF inv] by (simp add: ms)
  fix a assume "a \<in> set (ms_messages ?t)"
  then have a: "a \<in> set (ms_messages s)" "a \<notin> set as" "a \<in> set ms" by (auto simp: ms)
  note ok = mem_inv_cell [OF inv a(1)]
  show "cell_ok ?t a"
  proof (cases "mm_visibilityTimer (ms_heap s a)")
    case None
    then show ?thesis using ok by (simp add: cell_ok_def)
  next
    case (Some i)
    have none: "stops_of as s i = None \<longrightarrow> ms_closed s"
      using stops_of_keeps [OF inv a(1,2) sub Some] ok Some
      by (cases "ms_closed s") (auto simp: cell_ok_def)
    have some: "\<forall>tm. stops_of as s i = Some tm \<longrightarrow> tm_cell tm = a"
      using stops_of_removes [OF inv, of as i] ok Some by (simp add: cell_ok_def)
    show ?thesis using none some ok Some fl [OF a(3)] by (simp add: cell_ok_def)
  qed
next
  fix i tm assume "ms_timers ?t i = Some tm"
  then have "stops_of as s i = Some tm" by simp
  from stops_of_removes [OF inv this] have T: "ms_timers s i = Some tm" "tm_cell tm \<notin> set as"
    by auto
  then show "timer_ok ?t i tm" using mem_inv_timer [OF inv T(1)] by (auto simp: timer_ok_def ms)
next
  show "lone_in_flight ?t"
    using mem_inv_lone [OF inv] by (auto simp: lone_in_flight_def ms)
qed

lemma stops_of_single:
  "stops_of [a] s = stop_timers (mm_visibilityTimer (ms_heap s a)) (ms_timers s)"
  by (auto simp: stops_of_def stop_timers_def fun_eq_iff)

lemma remove1_filter: "distinct xs \<Longrightarrow> remove1 a xs = filter (\<lambda>b. b \<notin> set [a]) xs"
  by (simp add: distinct_remove1_removeAll removeAll_filter_not_eq) (metis (full_types))

lemma mem_inv_expire: "mem_inv s \<Longrightarrow> mem_inv (deleteExpiredMessagesLocked now s)"
proof -
  assume inv: "mem_inv s"
  have "mem_inv (s\<lparr> ms_timers := stops_of (filter (expired now s) (ms_messages s)) s,
      ms_inFlightGroups := ms_inFlightGroups s, ms_messageGroups := ms_messageGroups s,
      ms_messages := filter (\<lambda>a. \<not> expired now s a) (ms_messages s) \<rparr>)"
    by (rule mem_inv_leave [OF inv]) (auto intro: filter_cong)
  then show ?thesis by (simp add: deleteExpiredMessagesLocked_def stop_expired_eq)
qed

lemma mem_inv_removeMessage:
  assumes inv: "mem_inv s" and a: "a \<in> set (ms_messages s)" "handle_of s a \<noteq> ''''"
  shows "mem_inv (removeMessage a s)"
proof -
  obtain G where eq: "removeMessage a s = s\<lparr>
     ms_timers := stop_timers (mm_visibilityTimer (ms_heap s a)) (ms_timers s),
     ms_inFlightGroups := (if grouped s a then (ms_inFlightGroups s)(group_of s a := False)
                           else ms_inFlightGroups s),
     ms_messageGroups := G, ms_messages := remove1 a (ms_messages s) \<rparr>"
    using removeMessage_eq by blast
  show ?thesis
    unfolding eq stops_of_single [symmetric]
    using mem_inv_lone [OF inv] a
    by (intro mem_inv_leave [OF inv _ remove1_filter [OF mem_inv_distinct [OF inv]]])
       (auto simp: lone_in_flight_def remove1_filter [OF mem_inv_distinct [OF inv]])
qed

lemma mem_inv_enter:
  assumes inv: "mem_inv s"
  shows "mem_inv (s\<lparr> ms_heap := (ms_heap s)(ms_next_cell s :=
             zero_cell\<lparr> mm_msg := m, mm_visibleAt := t \<rparr>),
           ms_next_cell := Suc (ms_next_cell s),
           ms_messages := ms_messages s @ [ms_next_cell s] \<rparr>)" (is "mem_inv ?t")
proof (rule mem_invI)
  let ?a = "ms_next_cell s"
  have old: "a \<in> set (ms_messages s) \<Longrightarrow> a < ?a" for a
    using mem_inv_cell [OF inv, of a] by (simp add: cell_ok_def)
  show "distinct (ms_messages ?t)" using mem_inv_distinct [OF inv] old by auto
  show "cell_ok ?t a" if "a \<in> set (ms_messages ?t)" for a
    using that mem_inv_cell [OF inv, of a] old [of a]
    by (cases "a = ?a") (auto simp: cell_ok_def zero_cell_def grouped_def)
  show "timer_ok ?t i tm" if "ms_timers ?t i = Some tm" for i tm
    using that mem_inv_timer [OF inv, of i tm] old [of "tm_cell tm"] by (auto simp: timer_ok_def)
  show "lone_in_flight ?t"
    using mem_inv_lone [OF inv] old
    by (auto simp: lone_in_flight_def zero_cell_def grouped_def)
qed

lemma mem_inv_send: "mem_inv s \<Longrightarrow> mem_inv (snd (snd (SendMessage E now msg d s)))"
  using mem_inv_enter mem_inv_enter [of "s\<lparr> ms_dedupCache := c, ms_sequenceCounter := n \<rparr>" for c n]
  by (simp add: SendMessage_def Let_def set_cell_def split: prod.splits)

text \<open>A message of the store gets a new timer, or is released.\<close>

lemma mem_inv_touch_other:
  assumes inv: "mem_inv s" and a: "a \<in> set (ms_messages s)"
    and b: "b \<in> set (ms_messages s)" "b \<noteq> a"
    and i: "mm_visibilityTimer (ms_heap s b) = Some i"
  shows "stop_timers (mm_visibilityTimer (ms_heap s a)) (ms_timers s) i = None \<Longrightarrow> ms_closed s"
    and "stop_timers (mm_visibilityTimer (ms_heap s a)) (ms_timers s) i = Some tm \<Longrightarrow> tm_cell tm = b"
proof -
  note ok = mem_inv_cell [OF inv b(1)]
  show "ms_closed s" if none: "stop_timers (mm_visibilityTimer (ms_heap s a)) (ms_timers s) i = None"
  proof (rule ccontr)
    assume c: "\<not> ms_closed s"
    have "stops_of [a] s i = ms_timers s i"
      using stops_of_keeps [OF inv b(1), of "[a]" i] a b(2) i c by simp
    then show False using none ok i c by (simp add: stops_of_single cell_ok_def)
  qed
  show "tm_cell tm = b"
    if "stop_timers (mm_visibilityTimer (ms_heap s a)) (ms_timers s) i = Some tm"
    using stop_timers_SomeD [OF that] ok i by (simp add: cell_ok_def)
qed

lemma mem_inv_arm:
  assumes inv: "mem_inv s" and a: "a \<in> set (ms_messages s)"
    and mm: "MessageGroupID (mm_msg mm) = group_of s a" "mm_receiptHandle mm \<noteq> ''''"
      "mm_visibilityTimer mm = Some (ms_next_timer s)"
    and fl: "grouped s a \<Longrightarrow> fl (group_of s a)" "\<And>g. ms_inFlightGroups s g \<Longrightarrow> fl g"
    and lone: "\<And>b. b \<in> set (ms_messages s) \<Longrightarrow> grouped s a \<Longrightarrow> group_of s b = group_of s a \<Longrightarrow>
                 b \<noteq> a \<Longrightarrow> handle_of s b = ''''"
  shows "mem_inv (s\<lparr> ms_heap := (ms_heap s)(a := mm),
     ms_timers := (stop_timers (mm_visibilityTimer (ms_heap s a)) (ms_timers s))
       (ms_next_timer s \<mapsto> \<lparr> tm_body = body, tm_cell = a, tm_handle = mm_receiptHandle mm,
          tm_deadline = mm_visibleAt mm, tm_fired = False \<rparr>),
     ms_next_timer := Suc (ms_next_timer s), ms_inFlightGroups := fl \<rparr>)" (is "mem_inv ?t")
proof (rule mem_invI)
  show "distinct (ms_messages ?t)" using mem_inv_distinct [OF inv] by simp
  have grouped: "grouped ?t b = grouped s b" for b using mm(1) by (auto simp: grouped_def)
  show "cell_ok ?t b" if "b \<in> set (ms_messages ?t)" for b
  proof (cases "b = a")
    case True
    then show ?thesis using mem_inv_cell [OF inv a] mm fl grouped [of a] by (simp add: cell_ok_def)
  next
    case False
    have b: "b \<in> set (ms_messages s)" using that by simp
    show ?thesis
      using mem_inv_cell [OF inv b] mem_inv_touch_other [OF inv a b False] False fl(2) grouped [of b]
      by (auto simp: cell_ok_def)
  qed
  show "timer_ok ?t i tm" if t: "ms_timers ?t i = Some tm" for i tm
  proof (cases "i = ms_next_timer s")
    case True
    then show ?thesis using t a mm by (auto simp: timer_ok_def)
  next
    case False
    then have T: "stops_of [a] s i = Some tm" using t by (simp add: stops_of_single)
    then have "timer_ok s i tm" "tm_cell tm \<noteq> a"
      using stops_of_removes [OF inv T] mem_inv_timer [OF inv] by auto
    then show ?thesis by (auto simp: timer_ok_def)
  qed
  show "lone_in_flight ?t"
    unfolding lone_in_flight_def
  proof (intro ballI impI)
    fix x y assume "x \<in> set (ms_messages ?t)" "y \<in> set (ms_messages ?t)"
      and h: "grouped ?t x \<and> grouped ?t y \<and> group_of ?t x = group_of ?t y \<and>
        handle_of ?t x \<noteq> '''' \<and> handle_of ?t y \<noteq> ''''"
    then have xy: "x \<in> set (ms_messages s)" "y \<in> set (ms_messages s)" by simp_all
    have g: "grouped s x" "grouped s y" "group_of s x = group_of s y"
      using h mm(1) unfolding grouped by (simp_all split: if_splits)
    show "x = y"
    proof (cases "x = a \<or> y = a")
      case True
      then show ?thesis
      proof
        assume x: "x = a"
        show ?thesis
        proof (rule ccontr)
          assume "x \<noteq> y"
          then show False using lone [OF xy(2)] x g h by simp
        qed
      next
        assume y: "y = a"
        show ?thesis
        proof (rule ccontr)
          assume "x \<noteq> y"
          then show False using lone [OF xy(1)] y g h by simp
        qed
      qed
    next
      case False
      then show ?thesis using mem_inv_lone [OF inv] xy g h by (simp add: lone_in_flight_def)
    qed
  qed
qed

lemma mem_inv_release:
  assumes inv: "mem_inv s" and a: "a \<in> set (ms_messages s)" "handle_of s a \<noteq> ''''"
    and mm: "MessageGroupID (mm_msg mm) = group_of s a" "mm_receiptHandle mm = ''''"
      "mm_visibilityTimer mm = None"
  shows "mem_inv (s\<lparr> ms_heap := (ms_heap s)(a := mm),
     ms_timers := stop_timers (mm_visibilityTimer (ms_heap s a)) (ms_timers s),
     ms_inFlightGroups := (if grouped s a then (ms_inFlightGroups s)(group_of s a := False)
                           else ms_inFlightGroups s) \<rparr>)" (is "mem_inv ?t")
proof (rule mem_invI)
  show "distinct (ms_messages ?t)" using mem_inv_distinct [OF inv] by simp
  have grouped: "grouped ?t b = grouped s b" for b using mm(1) by (auto simp: grouped_def)
  show "cell_ok ?t b" if "b \<in> set (ms_messages ?t)" for b
  proof (cases "b = a")
    case True
    then show ?thesis using mem_inv_cell [OF inv a(1)] mm grouped [of a] by (simp add: cell_ok_def)
  next
    case False
    have b: "b \<in> set (ms_messages s)" using that by simp
    have "grouped s b \<Longrightarrow> handle_of s b \<noteq> '''' \<Longrightarrow> grouped s a \<Longrightarrow> group_of s b \<noteq> group_of s a"
      using mem_inv_lone [OF inv] a b False by (auto simp: lone_in_flight_def)
    then show ?thesis
      using mem_inv_cell [OF inv b] mem_inv_touch_other [OF inv a(1) b False] False grouped [of b]
      by (auto simp: cell_ok_def)
  qed
  show "timer_ok ?t i tm" if t: "ms_timers ?t i = Some tm" for i tm
  proof -
    have T: "stops_of [a] s i = Some tm" using t by (simp add: stops_of_single)
    then have "timer_ok s i tm" "tm_cell tm \<noteq> a"
      using stops_of_removes [OF inv T] mem_inv_timer [OF inv] by auto
    then show ?thesis by (auto simp: timer_ok_def)
  qed
  show "lone_in_flight ?t"
    using mem_inv_lone [OF inv] mm grouped by (auto simp: lone_in_flight_def)
qed

subsection \<open>Receive, change of visibility, timers\<close>

text \<open>The cell a receive leaves behind, with the timer that has the number \<open>i\<close>.\<close>

definition received_cell ::
  "env \<Rightarrow> int \<Rightarrow> time \<Rightarrow> string \<Rightarrow> memory_store \<Rightarrow> nat \<Rightarrow> memoryMessage \<Rightarrow> memoryMessage" where
  "received_cell E vt now nonce s i mm =
     (let handle = generateReceiptHandle E (ms_queueName s) (ms_serverSecret s)
                     (MessageID (mm_msg mm)) now nonce;
          first = (if IsZero (mm_firstReceived mm) then now else mm_firstReceived mm);
          count = mm_receiveCount mm + 1
      in \<lparr> mm_msg = (mm_msg mm)\<lparr> IsVisible := False, ReceiptHandle := handle,
             ApproximateReceiveCount := count, ReceivedTimestamp := now,
             ApproximateFirstReceiveTimestamp := first \<rparr>,
           mm_visibleAt = now + seconds vt, mm_receiptHandle = handle, mm_receiveCount = count,
           mm_firstReceived = first, mm_visibilityTimer = Some i \<rparr>)"

lemma received_cell_simps [simp]:
  "MessageGroupID (mm_msg (received_cell E vt now nonce s i mm)) = MessageGroupID (mm_msg mm)"
  "MessageID (mm_msg (received_cell E vt now nonce s i mm)) = MessageID (mm_msg mm)"
  "Body (mm_msg (received_cell E vt now nonce s i mm)) = Body (mm_msg mm)"
  "SentTimestamp (mm_msg (received_cell E vt now nonce s i mm)) = SentTimestamp (mm_msg mm)"
  "SequenceNumber (mm_msg (received_cell E vt now nonce s i mm)) = SequenceNumber (mm_msg mm)"
  "mm_visibilityTimer (received_cell E vt now nonce s i mm) = Some i"
  "mm_visibleAt (received_cell E vt now nonce s i mm) = now + seconds vt"
  "mm_receiveCount (received_cell E vt now nonce s i mm) = mm_receiveCount mm + 1"
  "ReceiptHandle (mm_msg (received_cell E vt now nonce s i mm)) =
   mm_receiptHandle (received_cell E vt now nonce s i mm)"
  by (simp_all add: received_cell_def Let_def)

lemma received_cell_handle:
  "receipts_ok E \<Longrightarrow> mm_receiptHandle (received_cell E vt now nonce s i mm) \<noteq> ''''"
  by (simp add: received_cell_def Let_def handle_nonempty)

lemma receiveMessage_eq:
  "receiveMessage E vt now nonce a s =
   (let mm = received_cell E vt now nonce s (ms_next_timer s) (ms_heap s a) in
    (mm_msg mm, s\<lparr> ms_heap := (ms_heap s)(a := mm),
       ms_timers := (stop_timers (mm_visibilityTimer (ms_heap s a)) (ms_timers s))
         (ms_next_timer s \<mapsto> \<lparr> tm_body = OnReceive, tm_cell = a, tm_handle = mm_receiptHandle mm,
            tm_deadline = mm_visibleAt mm, tm_fired = False \<rparr>),
       ms_next_timer := Suc (ms_next_timer s),
       ms_inFlightGroups := (if grouped s a then (ms_inFlightGroups s)(group_of s a := True)
                             else ms_inFlightGroups s) \<rparr>))"
  by (simp add: receiveMessage_def received_cell_def Let_def Stop_eq AfterFunc_def set_cell_def)

lemma mem_inv_idle_group:
  "mem_inv s \<Longrightarrow> a \<in> set (ms_messages s) \<Longrightarrow> grouped s a \<Longrightarrow>
   \<not> ms_inFlightGroups s (group_of s a) \<Longrightarrow> handle_of s a = ''''"
  by (auto dest: mem_inv_cell simp: cell_ok_def)

lemma mem_inv_receive1:
  assumes "mem_inv s" "a \<in> set (ms_messages s)" "receivable now s a" "receipts_ok E"
  shows "mem_inv (snd (receiveMessage E vt now nonce a s))"
  unfolding receiveMessage_eq Let_def snd_conv
  using assms mem_inv_idle_group [OF assms(1)]
  by (intro mem_inv_arm) (auto simp: received_cell_handle receivable_def grouped_def)

lemma receiveMessage_messages [opensqs_frame]:
  "ms_messages (snd (receiveMessage E vt now nonce a s)) = ms_messages s"
  by (simp add: receiveMessage_eq Let_def)

lemma mem_inv_scan:
  "mem_inv s \<Longrightarrow> set as \<subseteq> set (ms_messages s) \<Longrightarrow> receipts_ok E \<Longrightarrow>
   mem_inv (snd (receive_scan E n vt now rnd as result s))"
proof (induction as arbitrary: result s)
  case (Cons a as)
  obtain m s' where r: "receiveMessage E vt now (rnd (length result)) a s = (m, s')" by fastforce
  show ?case
  proof (cases "receivable now s a")
    case True
    have "mem_inv s'" using mem_inv_receive1 [of s a now E vt "rnd (length result)"] Cons.prems True r
      by simp
    moreover have "ms_messages s' = ms_messages s"
      using receiveMessage_messages [of E vt now "rnd (length result)" a s] r by simp
    ultimately show ?thesis using Cons True r by (simp add: Let_def)
  next
    case False
    then show ?thesis using Cons by simp
  qed
qed simp

lemma deleteExpired_messages [simp]:
  "ms_messages (deleteExpiredMessagesLocked now s) = filter (\<lambda>a. \<not> expired now s a) (ms_messages s)"
  by (simp add: deleteExpiredMessagesLocked_def)

lemma mem_inv_poll:
  assumes "mem_inv s" "receipts_ok E"
  shows "mem_inv (snd (receive_poll E n vt now rnd s))"
proof (cases "ms_closed s")
  case True
  then show ?thesis using assms by (simp add: receive_poll_def)
next
  case False
  let ?s1 = "deleteExpiredMessagesLocked now s"
  have "mem_inv (snd (receive_scan E n vt now rnd (ms_messages ?s1) [] ?s1))"
    by (rule mem_inv_scan [OF mem_inv_expire [OF assms(1)] _ assms(2)]) simp
  with False show ?thesis by (simp add: receive_poll_def Let_def case_prod_unfold)
qed

lemma find_handle_Some:
  "find_handle h s = Some a \<Longrightarrow> a \<in> set (ms_messages s) \<and> handle_of s a = h \<and> h \<noteq> ''''"
  by (auto simp: find_handle_def find_Some_iff)

lemma mem_inv_delete: "mem_inv s \<Longrightarrow> mem_inv (snd (DeleteMessage h s))"
  using mem_inv_removeMessage find_handle_Some [of h s]
  by (auto simp: DeleteMessage_def split: option.splits)

lemma ChangeMessageVisibility_eq:
  assumes "find_handle h s = Some a"
  shows "ChangeMessageVisibility now h vt s = (None,
    if vt = 0 then notifyWaiters (s\<lparr>
      ms_heap := (ms_heap s)(a := (ms_heap s a)\<lparr> mm_visibleAt := now 0, mm_receiptHandle := '''',
        mm_msg := (mm_msg (ms_heap s a))\<lparr> IsVisible := True \<rparr>, mm_visibilityTimer := None \<rparr>),
      ms_timers := stop_timers (mm_visibilityTimer (ms_heap s a)) (ms_timers s),
      ms_inFlightGroups := (if grouped s a then (ms_inFlightGroups s)(group_of s a := False)
                            else ms_inFlightGroups s) \<rparr>)
    else s\<lparr>
      ms_heap := (ms_heap s)(a := (ms_heap s a)\<lparr> mm_visibleAt := now 0 + seconds vt,
        mm_visibilityTimer := Some (ms_next_timer s) \<rparr>),
      ms_timers := (stop_timers (mm_visibilityTimer (ms_heap s a)) (ms_timers s))
        (ms_next_timer s \<mapsto> \<lparr> tm_body = OnChange, tm_cell = a, tm_handle = handle_of s a,
           tm_deadline = now 0 + seconds vt, tm_fired = False \<rparr>),
      ms_next_timer := Suc (ms_next_timer s) \<rparr>)"
  using assms
  by (cases s) (auto simp: ChangeMessageVisibility_def Let_def Stop_eq AfterFunc_def set_cell_def
      clear_group_eq grouped_def)

lemma mem_inv_sole:
  assumes "mem_inv s" "a \<in> set (ms_messages s)" "handle_of s a \<noteq> ''''" "grouped s a"
    "b \<in> set (ms_messages s)" "group_of s b = group_of s a" "b \<noteq> a"
  shows "handle_of s b = ''''"
proof (rule ccontr)
  assume "handle_of s b \<noteq> ''''"
  moreover have "grouped s b" using assms(4,6) by (simp add: grouped_def)
  ultimately show False using mem_inv_lone [OF assms(1)] assms by (simp add: lone_in_flight_def)
qed

lemma mem_inv_change:
  assumes inv: "mem_inv s"
  shows "mem_inv (snd (ChangeMessageVisibility now h vt s))"
proof (cases "find_handle h s")
  case None
  then show ?thesis using inv by (simp add: ChangeMessageVisibility_def)
next
  case (Some a)
  then have a: "a \<in> set (ms_messages s)" "handle_of s a = h" "h \<noteq> ''''"
    using find_handle_Some by auto
  show ?thesis
  proof (cases "vt = 0")
    case True
    then show ?thesis
      using mem_inv_release [OF inv a(1)] a by (simp add: ChangeMessageVisibility_eq [OF Some])
  next
    case False
    have "mem_inv (s\<lparr>
      ms_heap := (ms_heap s)(a := (ms_heap s a)\<lparr> mm_visibleAt := now 0 + seconds vt,
        mm_visibilityTimer := Some (ms_next_timer s) \<rparr>),
      ms_timers := (stop_timers (mm_visibilityTimer (ms_heap s a)) (ms_timers s))
        (ms_next_timer s \<mapsto> \<lparr> tm_body = OnChange, tm_cell = a,
           tm_handle = mm_receiptHandle ((ms_heap s a)\<lparr> mm_visibleAt := now 0 + seconds vt,
             mm_visibilityTimer := Some (ms_next_timer s) \<rparr>),
           tm_deadline = mm_visibleAt ((ms_heap s a)\<lparr> mm_visibleAt := now 0 + seconds vt,
             mm_visibilityTimer := Some (ms_next_timer s) \<rparr>), tm_fired = False \<rparr>),
      ms_next_timer := Suc (ms_next_timer s), ms_inFlightGroups := ms_inFlightGroups s \<rparr>)"
    proof (rule mem_inv_arm [OF inv a(1)])
      show "ms_inFlightGroups s (group_of s a)" if "grouped s a"
        using that mem_inv_cell [OF inv a(1)] a by (simp add: cell_ok_def)
      show "handle_of s b = ''''"
        if "b \<in> set (ms_messages s)" "grouped s a" "group_of s b = group_of s a" "b \<noteq> a" for b
        using mem_inv_sole [OF inv a(1)] a that by simp
    qed (use a in simp_all)
    then show ?thesis using False a(2) by (simp add: ChangeMessageVisibility_eq [OF Some])
  qed
qed

text \<open>A redriven cell is no longer a message of the store: what becomes of it is not seen.\<close>

lemma mem_inv_outside:
  assumes "mem_inv s" "a \<notin> set (ms_messages s)"
  shows "mem_inv (set_cell a mm s)"
  unfolding mem_inv_def
proof (intro conjI ballI allI impI)
  have other: "b \<in> set (ms_messages s) \<Longrightarrow> ms_heap (set_cell a mm s) b = ms_heap s b" for b
    using assms(2) by (auto simp: set_cell_def)
  show "distinct (ms_messages (set_cell a mm s))"
    using mem_inv_distinct [OF assms(1)] by (simp add: set_cell_def)
  show "cell_ok (set_cell a mm s) b" if "b \<in> set (ms_messages (set_cell a mm s))" for b
  proof -
    have b: "b \<in> set (ms_messages s)" "b \<noteq> a" using that assms(2) by (auto simp: set_cell_def)
    then show ?thesis
      using mem_inv_cell [OF assms(1) b(1)] by (simp add: cell_ok_def set_cell_def grouped_def)
  qed
  show "timer_ok (set_cell a mm s) i tm" if t: "ms_timers (set_cell a mm s) i = Some tm" for i tm
  proof -
    have ok: "timer_ok s i tm" using mem_inv_timer [OF assms(1)] t by (simp add: set_cell_def)
    then have "tm_cell tm \<noteq> a" using assms(2) by (auto simp: timer_ok_def)
    then show ?thesis using ok by (auto simp: timer_ok_def set_cell_def)
  qed
  have "grouped (set_cell a mm s) b = grouped s b" if "b \<in> set (ms_messages s)" for b
    using other [OF that] by (simp add: grouped_def set_cell_def)
  then show "lone_in_flight (set_cell a mm s)"
    using mem_inv_lone [OF assms(1)] other
    by (simp add: lone_in_flight_def set_cell_def split del: if_split)
qed

lemma Stop_twice: "Stop t (Stop t s) = Stop t s"
  by (cases s) (auto simp: Stop_eq stop_timers_def fun_eq_iff split: option.splits)

lemma removeMessage_Stop:
  "removeMessage a (Stop (mm_visibilityTimer (ms_heap s a)) s) = removeMessage a s"
proof -
  have "ms_heap (Stop t s) = ms_heap s" for t by (simp add: Stop_eq)
  then show ?thesis by (simp add: removeMessage_def Stop_twice)
qed

lemma Stop_timer:
  "ms_timers s i = Some tm \<Longrightarrow> \<not> tm_fired tm \<Longrightarrow>
   s\<lparr> ms_timers := (ms_timers s)(i := None) \<rparr> = Stop (Some i) s"
  by (simp add: Stop_def)

lemma removeMessage_simps [opensqs_frame]:
  "ms_heap (removeMessage a s) = ms_heap s"
  "ms_messages (removeMessage a s) = remove1 a (ms_messages s)"
  "ms_isFifo (removeMessage a s) = ms_isFifo s"
  "ms_closed (removeMessage a s) = ms_closed s"
  "grouped s a \<Longrightarrow> \<not> ms_inFlightGroups (removeMessage a s) (group_of s a)"
  using removeMessage_eq [of a s] by auto

lemma redrive_cell_eq:
  "redrive_cell a s =
   (PrepareForRedrive (mm_msg (ms_heap s a)),
    set_cell a ((ms_heap s a)\<lparr> mm_msg := PrepareForRedrive (mm_msg (ms_heap s a)) \<rparr>)
      (removeMessage a s))"
  by (simp add: redrive_cell_def Let_def removeMessage_simps)

lemma mem_inv_redrive:
  assumes "mem_inv s" "a \<in> set (ms_messages s)" "handle_of s a \<noteq> ''''"
  shows "mem_inv (snd (redrive_cell a s))"
  using mem_inv_outside [OF mem_inv_removeMessage [OF assms]] mem_inv_distinct [OF assms(1)]
  by (simp add: redrive_cell_eq removeMessage_simps)

text \<open>After a redrive the group of the message is already free.\<close>

lemma forget_redriven:
  assumes "mem_inv s" "a \<in> set (ms_messages s)" "handle_of s a \<noteq> ''''"
  shows "mem_inv (forget_cell a (snd (redrive_cell a s)))"
proof -
  let ?s = "snd (redrive_cell a s)"
  let ?mm = "(ms_heap ?s a)\<lparr> mm_receiptHandle := '''', mm_visibilityTimer := None \<rparr>"
  have "a \<notin> set (ms_messages ?s)"
    using mem_inv_distinct [OF assms(1)]
    by (simp add: redrive_cell_eq removeMessage_simps set_cell_def)
  then have inv: "mem_inv (set_cell a ?mm ?s)"
    using mem_inv_outside [OF mem_inv_redrive [OF assms]] by blast
  have free: "clear_group a (set_cell a ?mm ?s) = set_cell a ?mm ?s"
  proof (cases "grouped s a")
    case True
    then have "(ms_inFlightGroups ?s)(group_of s a := False) = ms_inFlightGroups ?s"
      using removeMessage_simps(5) by (simp add: redrive_cell_eq set_cell_def fun_upd_idem_iff)
    then show ?thesis
      by (simp add: clear_group_def set_cell_def redrive_cell_eq PrepareForRedrive_def)
  next
    case False
    then show ?thesis
      by (auto simp: clear_group_def set_cell_def redrive_cell_eq PrepareForRedrive_def grouped_def
          removeMessage_simps)
  qed
  show ?thesis using inv free by (simp add: forget_cell_def)
qed

text \<open>Under the invariant the body of a timer finds its message, with its own handle.\<close>

lemma run_timer_cases:
  assumes inv: "mem_inv s" and tm: "ms_timers s i = Some tm"
  defines "a \<equiv> tm_cell tm"
  shows "run_timer i s =
    (if tm_body tm = OnReceive \<and> ms_closed s then (None, Stop (Some i) s)
     else if must_redrive s a then
       (let (msg, s1) = redrive_cell a s
        in (Some msg, notifyWaiters (if tm_body tm = OnReceive then s1 else forget_cell a s1)))
     else (None, notifyWaiters (forget_cell a (show_cell a (Stop (Some i) s)))))"
proof -
  have ok: "\<not> tm_fired tm" "mm_visibilityTimer (ms_heap s a) = Some i" "tm_handle tm = handle_of s a"
    using mem_inv_timer [OF inv tm] by (simp_all add: timer_ok_def a_def)
  let ?s = "s\<lparr> ms_timers := (ms_timers s)(i := None) \<rparr>"
  have st: "?s = Stop (Some i) s" using Stop_timer [OF tm ok(1)] .
  have "removeMessage a ?s = removeMessage a s" using removeMessage_Stop [of a s] ok(2) st by simp
  moreover have "ms_heap ?s = ms_heap s" by simp
  ultimately have re: "redrive_cell a ?s = redrive_cell a s" by (simp add: redrive_cell_eq)
  have must: "must_redrive ?s a = must_redrive s a" by (simp add: must_redrive_def)
  show ?thesis
    using tm ok(3) must
    by (simp add: run_timer_def Let_def a_def [symmetric] re st [symmetric] case_prod_unfold
        split: timer_body.split)
qed

lemma forget_shown_eq:
  "forget_cell a (show_cell a (Stop t s)) = s\<lparr>
     ms_heap := (ms_heap s)(a := (ms_heap s a)\<lparr> mm_msg := (mm_msg (ms_heap s a))\<lparr> IsVisible := True \<rparr>,
       mm_receiptHandle := '''', mm_visibilityTimer := None \<rparr>),
     ms_timers := stop_timers t (ms_timers s),
     ms_inFlightGroups := (if grouped s a then (ms_inFlightGroups s)(group_of s a := False)
                           else ms_inFlightGroups s) \<rparr>"
  by (cases s)
     (simp add: forget_cell_def show_cell_def Stop_eq set_cell_def clear_group_eq grouped_def)

lemma mem_inv_fewer_timers:
  assumes inv: "mem_inv s" and c: "ms_closed s"
    and T: "\<And>i tm. T i = Some tm \<Longrightarrow> ms_timers s i = Some tm"
  shows "mem_inv (s\<lparr> ms_timers := T \<rparr>)" (is "mem_inv ?t")
proof (rule mem_invI)
  show "cell_ok ?t a" if "a \<in> set (ms_messages ?t)" for a
    using mem_inv_cell [OF inv, of a] that c T by (auto simp: cell_ok_def)
  show "timer_ok ?t i tm" if "ms_timers ?t i = Some tm" for i tm
    using mem_inv_timer [OF inv T [of i tm]] that by (auto simp: timer_ok_def)
qed (use mem_inv_distinct [OF inv] mem_inv_lone [OF inv] in \<open>simp_all add: lone_in_flight_def\<close>)

lemma mem_inv_timer_step:
  assumes inv: "mem_inv s" and tm: "ms_timers s i = Some tm"
  shows "mem_inv (snd (run_timer i s))"
proof -
  let ?a = "tm_cell tm"
  have a: "?a \<in> set (ms_messages s)" "handle_of s ?a \<noteq> ''''" "\<not> tm_fired tm"
    and i: "mm_visibilityTimer (ms_heap s ?a) = Some i"
    using mem_inv_timer [OF inv tm] by (auto simp: timer_ok_def)
  have closed: "mem_inv (Stop (Some i) s)" if "ms_closed s"
    using mem_inv_fewer_timers [OF inv that] stop_timers_SomeD by (auto simp: Stop_eq)
  have redrive: "mem_inv (snd (redrive_cell ?a s))" "mem_inv (forget_cell ?a (snd (redrive_cell ?a s)))"
    using mem_inv_redrive [OF inv a(1,2)] forget_redriven [OF inv a(1,2)] by auto
  have shown: "mem_inv (forget_cell ?a (show_cell ?a (Stop (Some i) s)))"
    using mem_inv_release [OF inv a(1,2)] i by (simp add: forget_shown_eq)
  show ?thesis
    using closed redrive shown by (simp add: run_timer_cases [OF inv tm] case_prod_unfold Let_def)
qed

lemma mem_inv_purge:
  assumes inv: "mem_inv s"
  shows "mem_inv (Purge s)"
proof -
  have "mem_inv (s\<lparr> ms_timers := stops_of (ms_messages s) s, ms_inFlightGroups := (\<lambda>_. False),
      ms_messageGroups := (\<lambda>_. None), ms_messages := [] \<rparr>)"
    by (rule mem_inv_leave [OF inv]) auto
  then have "mem_inv ((s\<lparr> ms_timers := stops_of (ms_messages s) s, ms_inFlightGroups := (\<lambda>_. False),
      ms_messageGroups := (\<lambda>_. None), ms_messages := [] \<rparr>)
        \<lparr> ms_dedupCache := (\<lambda>_. None), ms_sequenceCounter := 0 \<rparr>)"
    by simp
  moreover have "Purge s = notifyWaiters ((s\<lparr> ms_timers := stops_of (ms_messages s) s,
      ms_inFlightGroups := (\<lambda>_. False), ms_messageGroups := (\<lambda>_. None), ms_messages := [] \<rparr>)
        \<lparr> ms_dedupCache := (\<lambda>_. None), ms_sequenceCounter := 0 \<rparr>)"
    by (cases s) (simp add: Purge_def stop_all_eq)
  ultimately show ?thesis by simp
qed

lemma mem_inv_close:
  assumes inv: "mem_inv s"
  shows "mem_inv (Close s)"
proof -
  have eq: "Close s = s\<lparr> ms_closed := True, ms_timers := stops_of (ms_messages s) s \<rparr>"
    by (simp add: Close_def stop_all_eq stops_of_def cong: if_cong)
  have gone: "stops_of (ms_messages s) s i = None" for i
  proof (cases "stops_of (ms_messages s) s i")
    case (Some tm)
    then have "ms_timers s i = Some tm" "tm_cell tm \<notin> set (ms_messages s)"
      using stops_of_removes [OF inv] by auto
    then show ?thesis using mem_inv_timer [OF inv] by (auto simp: timer_ok_def)
  qed simp
  have "mem_inv ((s\<lparr> ms_closed := True \<rparr>)\<lparr> ms_timers := stops_of (ms_messages s) s \<rparr>)"
    by (rule mem_inv_fewer_timers) (use inv gone in \<open>auto simp: inv_defs\<close>)
  then show ?thesis by (simp add: eq)
qed

lemma mem_inv_call:
  "mem_inv s \<Longrightarrow> receipts_ok E \<Longrightarrow> mem_inv (mem_call E now c s)"
  by (cases c) (simp_all add: mem_inv_send mem_inv_poll mem_inv_delete mem_inv_change mem_inv_purge
      mem_inv_close)

lemma mem_inv_step: "prompt_step E s s' \<Longrightarrow> mem_inv s \<Longrightarrow> receipts_ok E \<Longrightarrow> mem_inv s'"
  by (auto elim!: prompt_stepE simp: mem_inv_call mem_inv_timer_step)

lemma mem_inv_run: "prompt_run E steps s s' \<Longrightarrow> mem_inv s \<Longrightarrow> receipts_ok E \<Longrightarrow> mem_inv s'"
  by (induction rule: prompt_run.induct) (auto intro: mem_inv_step)

lemma mem_inv_reachable:
  "prompt_run E steps (NewMemoryStore q vt secret cfg) s \<Longrightarrow> receipts_ok E \<Longrightarrow> mem_inv s"
  using mem_inv_run mem_inv_New by blast

end
