(* ===== verification/MemoryProperties.thy ===== *)
theory MemoryProperties
  imports MemoryInvariants
begin

section \<open>The in-memory store: what its operations promise\<close>

text \<open>
  The messages a receive delivers, the exclusion of concurrent deliveries, the release and
  the redrive of messages by their timers, deletion, the counts, deduplication and sequence
  numbers.  The statements about runs rest on \<open>mem_inv\<close>.
\<close>

subsection \<open>What a receive delivers\<close>

text \<open>
  The leaders of a list of cells: every message without a group, and the first message of
  each group.
\<close>

function leaders :: "memory_store \<Rightarrow> nat list \<Rightarrow> nat list" where
  "leaders s [] = []"
| "leaders s (a # as) =
     a # leaders s (filter (\<lambda>b. \<not> (grouped s a \<and> group_of s b = group_of s a)) as)"
  by pat_completeness auto
termination
  by (relation "measure (\<lambda>(s, as). length as)") (auto simp: le_imp_less_Suc)

definition picks :: "int \<Rightarrow> time \<Rightarrow> memory_store \<Rightarrow> nat list" where
  "picks maxMessages now s = take (nat (max 1 maxMessages)) (leaders s (filter (receivable now s)
     (filter (\<lambda>a. \<not> expired now s a) (ms_messages s))))"

text \<open>The copy of a message that a receive returns.\<close>

definition delivered :: "env \<Rightarrow> int \<Rightarrow> time \<Rightarrow> string \<Rightarrow> memory_store \<Rightarrow> nat \<Rightarrow> message" where
  "delivered E vt now nonce s a =
     (let mm = ms_heap s a;
          handle = generateReceiptHandle E (ms_queueName s) (ms_serverSecret s)
                     (MessageID (mm_msg mm)) now nonce
      in (mm_msg mm)\<lparr> IsVisible := False, ReceiptHandle := handle,
           ApproximateReceiveCount := mm_receiveCount mm + 1, ReceivedTimestamp := now,
           ApproximateFirstReceiveTimestamp :=
             (if IsZero (mm_firstReceived mm) then now else mm_firstReceived mm) \<rparr>)"

lemma leaders_subset: "set (leaders s as) \<subseteq> set as"
  by (induction s as rule: leaders.induct) auto

lemma leaders_ungrouped: "\<not> ms_isFifo s \<Longrightarrow> leaders s as = as"
  by (induction s as rule: leaders.induct) (simp_all add: grouped_def)

lemma leaders_groups:
  "distinct as \<Longrightarrow> distinct (leaders s as) \<and>
   (\<forall>a \<in> set (leaders s as). \<forall>b \<in> set (leaders s as).
      grouped s a \<longrightarrow> group_of s a = group_of s b \<longrightarrow> a = b)"
proof (induction s as rule: leaders.induct)
  case (2 s a as)
  let ?rest = "filter (\<lambda>b. \<not> (grouped s a \<and> group_of s b = group_of s a)) as"
  have IH: "distinct (leaders s ?rest)" and
    pair: "\<And>x y. x \<in> set (leaders s ?rest) \<Longrightarrow> y \<in> set (leaders s ?rest) \<Longrightarrow> grouped s x \<Longrightarrow>
       group_of s x = group_of s y \<Longrightarrow> x = y"
    using 2 by auto
  have sub: "x \<in> set (leaders s ?rest) \<Longrightarrow>
      x \<in> set as \<and> \<not> (grouped s a \<and> group_of s x = group_of s a)" for x
    using leaders_subset [of s ?rest] by auto
  have eq: "group_of s x = group_of s a \<Longrightarrow> grouped s x \<longleftrightarrow> grouped s a" for x
    by (simp add: grouped_def)
  have one: "x = a" if "x = a \<or> x \<in> set (leaders s ?rest)" "grouped s a" "group_of s x = group_of s a" for x
    using that sub by blast
  have "a \<notin> set (leaders s ?rest)" using sub [of a] 2(2) by force
  then have "distinct (a # leaders s ?rest)" using IH by simp
  moreover have "x = y" if "x \<in> set (a # leaders s ?rest)" "y \<in> set (a # leaders s ?rest)"
    "grouped s x" "group_of s x = group_of s y" for x y
  proof (cases "x = a \<or> y = a")
    case True
    then have "grouped s a" "group_of s x = group_of s a" "group_of s y = group_of s a"
      using that(3,4) eq [of x] by auto
    then have "x = a" "y = a" using one [of x] one [of y] that(1,2) by auto
    then show ?thesis by simp
  next
    case False
    then show ?thesis using pair [of x y] that by simp
  qed
  ultimately show ?case by simp
qed simp

lemma leaders_cong:
  "(\<And>b. grouped t b = grouped s b) \<Longrightarrow> (\<And>b. group_of t b = group_of s b) \<Longrightarrow>
   leaders t as = leaders s as"
  by (induction s as rule: leaders.induct) simp_all

lemma receiveMessage_frame:
  assumes r: "receiveMessage E vt now nonce a s = (m, t)"
  shows "m = delivered E vt now nonce s a" "ms_messages t = ms_messages s"
    "b \<noteq> a \<Longrightarrow> ms_heap t b = ms_heap s b" "group_of t b = group_of s b"
    "grouped t b = grouped s b" "ms_queueName t = ms_queueName s"
    "ms_serverSecret t = ms_serverSecret s" "ms_closed t = ms_closed s"
    "mm_visibleAt (ms_heap t a) = now + seconds vt"
    "mm_receiveCount (ms_heap t a) = mm_receiveCount (ms_heap s a) + 1"
    "mm_msg (ms_heap t a) = m" "handle_of t a = ReceiptHandle m"
    "ms_inFlightGroups t g \<longleftrightarrow> ms_inFlightGroups s g \<or> (grouped s a \<and> g = group_of s a)"
  using r by (auto simp: receiveMessage_eq Let_def delivered_def received_cell_def grouped_def
      split: if_splits)

lemma receivable_after:
  assumes r: "receiveMessage E vt now nonce a s = (m, t)" and b: "b \<noteq> a"
  shows "receivable now t b \<longleftrightarrow>
    receivable now s b \<and> \<not> (grouped s a \<and> group_of s b = group_of s a)"
proof -
  have "grouped s a \<Longrightarrow> group_of s b = group_of s a \<Longrightarrow> grouped s b" by (simp add: grouped_def)
  then show ?thesis
    using receiveMessage_frame(3) [OF r b] receiveMessage_frame(13) [OF r, of "group_of s b"]
      receiveMessage_frame(5) [OF r, of b]
    by (auto simp: receivable_def)
qed

lemma delivered_cong:
  "ms_heap t b = ms_heap s b \<Longrightarrow> ms_queueName t = ms_queueName s \<Longrightarrow>
   ms_serverSecret t = ms_serverSecret s \<Longrightarrow> delivered E vt now nonce t b = delivered E vt now nonce s b"
  by (simp add: delivered_def)

lemma map_upt_Cons: "map f [0..<Suc m] = f 0 # map (\<lambda>k. f (Suc k)) [0..<m]"
  by (simp add: upt_conv_Cons map_Suc_upt [symmetric] del: upt_Suc)

text \<open>The scan, with \<open>k\<close> messages in hand already, delivers the next leaders.\<close>

lemma scan_delivers:
  fixes s :: memory_store and now :: time
  assumes "distinct as" "length result < nat (max 1 n)"
  defines "ps \<equiv> take (nat (max 1 n) - length result) (leaders s (filter (receivable now s) as))"
  shows "fst (receive_scan E n vt now rnd as result s) =
      result @ map (\<lambda>k. delivered E vt now (rnd (length result + k)) s (ps ! k)) [0..<length ps]"
    (is ?list)
    and "ms_messages (snd (receive_scan E n vt now rnd as result s)) = ms_messages s" (is ?messages)
    and "ms_closed (snd (receive_scan E n vt now rnd as result s)) = ms_closed s" (is ?closed)
    and "b \<notin> set ps \<Longrightarrow> ms_heap (snd (receive_scan E n vt now rnd as result s)) b = ms_heap s b"
      (is "_ \<Longrightarrow> ?heap")
    and "b \<in> set ps \<Longrightarrow>
      mm_visibleAt (ms_heap (snd (receive_scan E n vt now rnd as result s)) b) = now + seconds vt \<and>
      mm_receiveCount (ms_heap (snd (receive_scan E n vt now rnd as result s)) b) =
        mm_receiveCount (ms_heap s b) + 1 \<and>
      (\<exists>nonce. mm_msg (ms_heap (snd (receive_scan E n vt now rnd as result s)) b) =
         delivered E vt now nonce s b) \<and>
      handle_of (snd (receive_scan E n vt now rnd as result s)) b =
        ReceiptHandle (mm_msg (ms_heap (snd (receive_scan E n vt now rnd as result s)) b))"
      (is "_ \<Longrightarrow> ?hidden")
proof -
  have "?list \<and> ?messages \<and> ?closed \<and> (b \<notin> set ps \<longrightarrow> ?heap) \<and> (b \<in> set ps \<longrightarrow> ?hidden)"
    using assms(1,2) unfolding ps_def
  proof (induction as arbitrary: result s)
    case Nil
    then show ?case by simp
  next
    case (Cons a as)
    let ?nonce = "rnd (length result)"
    obtain m t where r: "receiveMessage E vt now ?nonce a s = (m, t)" by fastforce
    note fr = receiveMessage_frame [OF r]
    show ?case
    proof (cases "receivable now s a")
      case False
      then show ?thesis using Cons by simp
    next
      case True
      have rest: "filter (receivable now t) as =
          filter (\<lambda>b. \<not> (grouped s a \<and> group_of s b = group_of s a)) (filter (receivable now s) as)"
        unfolding filter_filter
      proof (rule filter_cong)
          fix x assume "x \<in> set as"
          then have "x \<noteq> a" using Cons.prems(1) by auto
          then show "receivable now t x = (receivable now s x \<and>
              \<not> (grouped s a \<and> group_of s x = group_of s a))"
            by (rule receivable_after [OF r])
        qed simp
      define ls where "ls = leaders s (filter (receivable now t) as)"
      have ld: "leaders s (filter (receivable now s) (a # as)) = a # ls"
        using True by (simp add: ls_def rest)
      have a_out: "a \<notin> set ls"
        using leaders_subset [of s "filter (receivable now t) as"] Cons.prems(1)
        by (auto simp: ls_def)
      have tl: "leaders t (filter (receivable now t) as) = ls"
        unfolding ls_def by (rule leaders_cong) (simp_all add: fr)
      obtain d where d: "nat (max 1 n) - length result = Suc d"
        using Cons.prems(2) by (metis Suc_diff_Suc)
      show ?thesis
      proof (cases "int (length (result @ [m])) \<ge> n")
        case stop: True
        then have "d = 0" using d Cons.prems(2) by simp
        then show ?thesis using True stop r ld d fr by (auto simp: Let_def)
      next
        case more: False
        let ?ps = "take d ls"
        have len: "length (result @ [m]) < nat (max 1 n)"
          "nat (max 1 n) - length (result @ [m]) = d"
          using more d by auto
        have dst: "distinct as" using Cons.prems(1) by simp
        note IH = Cons.IH [OF dst len(1), of t, unfolded tl len(2)]
        have scan: "receive_scan E n vt now rnd (a # as) result s =
            receive_scan E n vt now rnd as (result @ [m]) t"
          using True more r by (simp add: Let_def)
        have del: "delivered E vt now nonce t (ls ! k) = delivered E vt now nonce s (ls ! k)"
          if "k < length ls" for k nonce
        proof (rule delivered_cong)
          have "ls ! k \<noteq> a" using that a_out by (metis nth_mem)
          then show "ms_heap t (ls ! k) = ms_heap s (ls ! k)" by (rule fr(3))
        qed (simp_all add: fr)
        have dl: "b \<noteq> a \<Longrightarrow> delivered E vt now nonce t b = delivered E vt now nonce s b" for nonce
          by (rule delivered_cong) (simp_all add: fr)
        have list: "map (\<lambda>k. delivered E vt now (rnd (length (result @ [m]) + k)) t (?ps ! k)) [0..<length ?ps] =
          map (\<lambda>k. delivered E vt now (rnd (length result + Suc k)) s (?ps ! k)) [0..<length ?ps]"
          by (rule map_cong) (simp_all add: del)
        have ps: "take (nat (max 1 n) - length result) (a # ls) = a # ?ps" using d by simp
        have "b \<in> set ?ps \<Longrightarrow> b \<noteq> a" using a_out by (metis in_set_takeD)
        then show ?thesis
          using IH fr(1,2,3,8,9,10,11,12) dl unfolding scan ld ps list
          by (auto simp: map_upt_Cons simp del: upt_Suc)
      qed
    qed
  qed
  then show ?list ?messages ?closed "b \<notin> set ps \<Longrightarrow> ?heap" "b \<in> set ps \<Longrightarrow> ?hidden" by auto
qed

lemma expire_simps [simp]:
  "ms_heap (deleteExpiredMessagesLocked now s) = ms_heap s"
  "ms_isFifo (deleteExpiredMessagesLocked now s) = ms_isFifo s"
  "ms_closed (deleteExpiredMessagesLocked now s) = ms_closed s"
  "ms_inFlightGroups (deleteExpiredMessagesLocked now s) = ms_inFlightGroups s"
  "ms_queueName (deleteExpiredMessagesLocked now s) = ms_queueName s"
  "ms_serverSecret (deleteExpiredMessagesLocked now s) = ms_serverSecret s"
  "ms_next_cell (deleteExpiredMessagesLocked now s) = ms_next_cell s"
  "grouped (deleteExpiredMessagesLocked now s) a = grouped s a"
  by (simp_all add: deleteExpiredMessagesLocked_def stop_expired_eq)

lemma receivable_expire [simp]:
  "receivable t (deleteExpiredMessagesLocked now s) = receivable t s"
  by (simp add: receivable_def fun_eq_iff)

lemma leaders_expire [simp]: "leaders (deleteExpiredMessagesLocked now s) as = leaders s as"
  by (rule leaders_cong) simp_all

lemma delivered_expire [simp]:
  "delivered E vt t nonce (deleteExpiredMessagesLocked now s) a = delivered E vt t nonce s a"
  by (rule delivered_cong) simp_all

lemma picks_subset:
  "a \<in> set (picks n now s) \<Longrightarrow>
   a \<in> set (ms_messages s) \<and> receivable now s a \<and> \<not> expired now s a"
  using leaders_subset by (fastforce simp: picks_def dest: in_set_takeD)

lemma poll_open:
  assumes "distinct (ms_messages s)" "\<not> ms_closed s"
  shows "fst (receive_poll E n vt now rnd s) =
      Inr (map (\<lambda>k. delivered E vt now (rnd k) s (picks n now s ! k)) [0..<length (picks n now s)])"
    and "ms_messages (snd (receive_poll E n vt now rnd s)) =
      filter (\<lambda>a. \<not> expired now s a) (ms_messages s)"
    and "b \<notin> set (picks n now s) \<Longrightarrow> ms_heap (snd (receive_poll E n vt now rnd s)) b = ms_heap s b"
    and "b \<in> set (picks n now s) \<Longrightarrow>
      mm_visibleAt (ms_heap (snd (receive_poll E n vt now rnd s)) b) = now + seconds vt \<and>
      mm_receiveCount (ms_heap (snd (receive_poll E n vt now rnd s)) b) =
        mm_receiveCount (ms_heap s b) + 1 \<and>
      (\<exists>nonce. mm_msg (ms_heap (snd (receive_poll E n vt now rnd s)) b) = delivered E vt now nonce s b) \<and>
      handle_of (snd (receive_poll E n vt now rnd s)) b =
        ReceiptHandle (mm_msg (ms_heap (snd (receive_poll E n vt now rnd s)) b))"
    and "ms_closed (snd (receive_poll E n vt now rnd s)) = ms_closed s"
proof -
  let ?s1 = "deleteExpiredMessagesLocked now s"
  have d: "distinct (ms_messages ?s1)" using assms(1) by simp
  have len: "length ([] :: message list) < nat (max 1 n)" by simp
  have ps: "take (nat (max 1 n) - length ([] :: message list))
      (leaders ?s1 (filter (receivable now ?s1) (ms_messages ?s1))) = picks n now s"
    by (simp add: picks_def)
  note scan = scan_delivers [OF d len, where s = ?s1 and now = now and E = E and vt = vt and
      rnd = rnd, unfolded ps]
  show "fst (receive_poll E n vt now rnd s) =
      Inr (map (\<lambda>k. delivered E vt now (rnd k) s (picks n now s ! k)) [0..<length (picks n now s)])"
    using assms(2) scan(1) by (simp add: receive_poll_def Let_def case_prod_unfold)
  show "ms_messages (snd (receive_poll E n vt now rnd s)) =
      filter (\<lambda>a. \<not> expired now s a) (ms_messages s)"
    using assms(2) scan(2) by (simp add: receive_poll_def Let_def case_prod_unfold)
  show "ms_heap (snd (receive_poll E n vt now rnd s)) b = ms_heap s b" if "b \<notin> set (picks n now s)"
    using assms(2) scan(4) [OF that] by (simp add: receive_poll_def Let_def case_prod_unfold)
  show "mm_visibleAt (ms_heap (snd (receive_poll E n vt now rnd s)) b) = now + seconds vt \<and>
      mm_receiveCount (ms_heap (snd (receive_poll E n vt now rnd s)) b) =
        mm_receiveCount (ms_heap s b) + 1 \<and>
      (\<exists>nonce. mm_msg (ms_heap (snd (receive_poll E n vt now rnd s)) b) = delivered E vt now nonce s b) \<and>
      handle_of (snd (receive_poll E n vt now rnd s)) b =
        ReceiptHandle (mm_msg (ms_heap (snd (receive_poll E n vt now rnd s)) b))" if "b \<in> set (picks n now s)"
    using assms(2) scan(5) [OF that] by (simp add: receive_poll_def Let_def case_prod_unfold)
  show "ms_closed (snd (receive_poll E n vt now rnd s)) = ms_closed s"
    using assms(2) scan(3) by (simp add: receive_poll_def Let_def case_prod_unfold)
qed


subsection \<open>No second delivery before the visibility timeout\<close>


text \<open>How far a critical section reaches: the cells it can write, the messages it keeps.\<close>

lemma scan_next_cell [simp]:
  "ms_next_cell (snd (receive_scan E n vt now rnd as result s)) = ms_next_cell s"
proof (induction as arbitrary: result s)
  case (Cons a as)
  obtain m t where r: "receiveMessage E vt now (rnd (length result)) a s = (m, t)" by fastforce
  then have "ms_next_cell t = ms_next_cell s" by (auto simp: receiveMessage_eq Let_def)
  then show ?case using Cons r by (simp add: Let_def)
qed simp

lemma poll_next_cell [simp]: "ms_next_cell (snd (receive_poll E n vt now rnd s)) = ms_next_cell s"
  by (simp add: receive_poll_def Let_def case_prod_unfold)

lemma poll_heap_outside:
  assumes "distinct (ms_messages s)" "b \<notin> set (picks n now s)"
  shows "ms_heap (snd (receive_poll E n vt now rnd s)) b = ms_heap s b"
  using poll_open(3) [OF assms(1) _ assms(2)] by (cases "ms_closed s") (auto simp: receive_poll_def)

lemma poll_messages_subset:
  assumes "distinct (ms_messages s)"
  shows "set (ms_messages (snd (receive_poll E n vt now rnd s))) \<subseteq> set (ms_messages s)"
  using poll_open(2) [OF assms] by (cases "ms_closed s") (auto simp: receive_poll_def)

lemma send_frame:
  "ms_next_cell s \<le> ms_next_cell (snd (snd (SendMessage E now m d s)))"
  "b < ms_next_cell s \<Longrightarrow> ms_heap (snd (snd (SendMessage E now m d s))) b = ms_heap s b"
  "set (ms_messages (snd (snd (SendMessage E now m d s)))) \<subseteq> insert (ms_next_cell s) (set (ms_messages s))"
  by (auto simp: SendMessage_def Let_def set_cell_def notifyWaiters_def split: prod.splits)

lemma delete_frame:
  "ms_next_cell (snd (DeleteMessage h s)) = ms_next_cell s"
  "ms_heap (snd (DeleteMessage h s)) = ms_heap s"
  "set (ms_messages (snd (DeleteMessage h s))) \<subseteq> set (ms_messages s)"
proof -
  have "ms_next_cell (removeMessage a s) = ms_next_cell s" for a
    using removeMessage_eq [of a s] by auto
  then show "ms_next_cell (snd (DeleteMessage h s)) = ms_next_cell s"
    "ms_heap (snd (DeleteMessage h s)) = ms_heap s"
    "set (ms_messages (snd (DeleteMessage h s))) \<subseteq> set (ms_messages s)"
    by (auto simp: DeleteMessage_def notifyWaiters_def removeMessage_simps split: option.splits
        dest: set_remove1_subset [THEN subsetD])
qed

lemma change_frame:
  "ms_next_cell (snd (ChangeMessageVisibility now h vt s)) = ms_next_cell s"
  "find_handle h s \<noteq> Some b \<Longrightarrow>
   ms_heap (snd (ChangeMessageVisibility now h vt s)) b = ms_heap s b"
  "ms_messages (snd (ChangeMessageVisibility now h vt s)) = ms_messages s"
proof -
  have "ms_next_cell (snd (ChangeMessageVisibility now h vt s)) = ms_next_cell s \<and>
    (find_handle h s \<noteq> Some b \<longrightarrow> ms_heap (snd (ChangeMessageVisibility now h vt s)) b = ms_heap s b) \<and>
    ms_messages (snd (ChangeMessageVisibility now h vt s)) = ms_messages s"
  proof (cases "find_handle h s")
    case None
    then show ?thesis by (simp add: ChangeMessageVisibility_def)
  next
    case (Some a)
    then show ?thesis by (simp add: ChangeMessageVisibility_eq notifyWaiters_def)
  qed
  then show "ms_next_cell (snd (ChangeMessageVisibility now h vt s)) = ms_next_cell s"
    "find_handle h s \<noteq> Some b \<Longrightarrow> ms_heap (snd (ChangeMessageVisibility now h vt s)) b = ms_heap s b"
    "ms_messages (snd (ChangeMessageVisibility now h vt s)) = ms_messages s" by auto
qed

lemma purge_close_frame [simp]:
  "ms_next_cell (Purge s) = ms_next_cell s" "ms_heap (Purge s) = ms_heap s"
  "ms_messages (Purge s) = []" "ms_next_cell (Close s) = ms_next_cell s"
  "ms_heap (Close s) = ms_heap s" "ms_messages (Close s) = ms_messages s"
  by (simp_all add: Purge_def Close_def stop_all_eq notifyWaiters_def)

lemma timer_frame:
  assumes inv: "mem_inv s" and tm: "ms_timers s i = Some tm"
  shows "ms_next_cell (snd (run_timer i s)) = ms_next_cell s"
    "b \<noteq> tm_cell tm \<Longrightarrow> ms_heap (snd (run_timer i s)) b = ms_heap s b"
    "set (ms_messages (snd (run_timer i s))) \<subseteq> set (ms_messages s)"
proof -
  have "ms_next_cell (removeMessage a s) = ms_next_cell s" for a
    using removeMessage_eq [of a s] by auto
  then show "ms_next_cell (snd (run_timer i s)) = ms_next_cell s"
    "b \<noteq> tm_cell tm \<Longrightarrow> ms_heap (snd (run_timer i s)) b = ms_heap s b"
    "set (ms_messages (snd (run_timer i s))) \<subseteq> set (ms_messages s)"
    by (auto simp: run_timer_cases [OF inv tm] Let_def case_prod_unfold notifyWaiters_def
        show_cell_def forget_cell_def clear_group_eq redrive_cell_eq removeMessage_simps
        set_cell_def Stop_eq dest: set_remove1_subset [THEN subsetD])
qed

text \<open>
  A run that stays before the instant \<open>D\<close>: no call reads a clock at or after \<open>D\<close>, no timer
  due at or after \<open>D\<close> fires, and nobody changes the visibility of the handle \<open>h\<close>.
\<close>

inductive run_before :: "env \<Rightarrow> time \<Rightarrow> string \<Rightarrow> memory_store \<Rightarrow> memory_store \<Rightarrow> bool"
  for E D h where
  Start: "run_before E D h s s"
| Call_before: "run_before E D h s s' \<Longrightarrow> now 0 < D \<Longrightarrow> (\<And>vt. c \<noteq> CChange h vt) \<Longrightarrow>
    run_before E D h s (mem_call E now c s')"
| Timer_before: "run_before E D h s s' \<Longrightarrow> ms_timers s' i = Some tm \<Longrightarrow> tm_deadline tm < D \<Longrightarrow>
    run_before E D h s (snd (run_timer i s'))"

lemma hidden_call:
  assumes inv: "mem_inv s" and a: "a < ms_next_cell s"
    and hid: "a \<in> set (ms_messages s) \<Longrightarrow> handle_of s a = h \<and> mm_visibleAt (ms_heap s a) = D"
    and now: "now 0 < D" and c: "\<And>vt. c \<noteq> CChange h vt"
  shows "a < ms_next_cell (mem_call E now c s) \<and>
    (a \<in> set (ms_messages (mem_call E now c s)) \<longrightarrow> a \<in> set (ms_messages s) \<and>
       ms_heap (mem_call E now c s) a = ms_heap s a)"
proof (cases c)
  case (CSend m d)
  then show ?thesis
    using send_frame(1) [where s = s and E = E and now = now and m = m and d = d]
      send_frame(2) [OF a, where E = E and now = now and m = m and d = d]
      send_frame(3) [where s = s and E = E and now = now and m = m and d = d] a by fastforce
next
  case (CReceive n vt rnd)
  have "a \<notin> set (picks n (now 0) s)"
    using picks_subset [of a n "now 0" s] hid now by (auto simp: receivable_def)
  then show ?thesis
    using CReceive a poll_heap_outside [OF mem_inv_distinct [OF inv]]
      poll_messages_subset [OF mem_inv_distinct [OF inv], THEN subsetD] by auto
next
  case (CDelete h')
  then show ?thesis using delete_frame [of h' s] a by auto
next
  case (CChange h' vt)
  have "find_handle h' s \<noteq> Some a"
    using find_handle_Some [of h' s a] hid c CChange by auto
  then show ?thesis using CChange change_frame a by simp
qed (use a in simp_all)

lemma hidden_run:
  assumes "run_before E D h s s'" "mem_inv s" "receipts_ok E" "a \<in> set (ms_messages s)"
    "handle_of s a = h" "mm_visibleAt (ms_heap s a) = D"
  shows "mem_inv s' \<and> a < ms_next_cell s' \<and>
    (a \<in> set (ms_messages s') \<longrightarrow> handle_of s' a = h \<and> mm_visibleAt (ms_heap s' a) = D)"
  using assms
proof (induction rule: run_before.induct)
  case (Start s)
  then show ?case using mem_inv_cell [of s a] by (simp add: cell_ok_def)
next
  case (Call_before s s' now c)
  then show ?case using hidden_call [of s' a h D now c E] mem_inv_call [of s' E now c] by auto
next
  case (Timer_before s s' i tm)
  then have IH: "mem_inv s'" "a < ms_next_cell s'"
    "a \<in> set (ms_messages s') \<Longrightarrow> handle_of s' a = h \<and> mm_visibleAt (ms_heap s' a) = D" by auto
  have "a \<in> set (ms_messages s') \<Longrightarrow> a \<noteq> tm_cell tm"
    using mem_inv_timer [OF IH(1) Timer_before(2)] IH(3) Timer_before(3) by (auto simp: timer_ok_def)
  then show ?case
    using IH timer_frame [OF IH(1) Timer_before(2)] mem_inv_timer_step [OF IH(1) Timer_before(2)]
    by (metis subsetD)
qed

text \<open>
  C12.  A delivered message stays with its receiver until its visibility timeout.  Once a
  message carries a receipt handle \<open>h\<close> and is hidden until \<open>D\<close>, then whatever calls and
  timers run before \<open>D\<close>, unless they change the visibility of \<open>h\<close>, no receive before \<open>D\<close>
  picks it, and while it is in the queue its handle stays the same.
\<close>

theorem receive_exclusive:
  assumes "prompt_run E steps (NewMemoryStore q vt0 secret cfg) s" "receipts_ok E"
    and "a \<in> set (ms_messages s)" "handle_of s a = h" "mm_visibleAt (ms_heap s a) = D"
    and "run_before E D h s s'" "t < D"
  shows "a \<notin> set (picks n t s') \<and> (a \<in> set (ms_messages s') \<longrightarrow> handle_of s' a = h)"
  using hidden_run [OF assms(6) mem_inv_reachable [OF assms(1,2)] assms(2-5)] assms(7)
    picks_subset [of a n t s'] by (auto simp: receivable_def)

subsection \<open>FIFO groups\<close>

text \<open>
  C11.  In every prompt run of a FIFO store at most one message of a message group is in
  flight: two messages of the same group that both carry a receipt handle are the same
  message, and a group with a message in flight is flagged, so that no receive picks
  another message of it.
\<close>

theorem fifo_one_in_flight:
  assumes "prompt_run E steps (NewMemoryStore q vt0 secret cfg) s" "receipts_ok E"
    and "a \<in> set (ms_messages s)" "grouped s a" "handle_of s a \<noteq> ''''"
  shows "(\<forall>b \<in> set (ms_messages s).
      group_of s b = group_of s a \<and> handle_of s b \<noteq> '''' \<longrightarrow> b = a) \<and>
    (\<forall>n t. \<forall>b \<in> set (picks n t s). group_of s b \<noteq> group_of s a)"
proof -
  have inv: "mem_inv s" using mem_inv_reachable [OF assms(1,2)] .
  have same: "grouped s b" if "group_of s b = group_of s a" for b
    using that assms(4) by (simp add: grouped_def)
  have flag: "ms_inFlightGroups s (group_of s a)"
    using mem_inv_cell [OF inv assms(3)] assms(4,5) by (simp add: cell_ok_def)
  have "group_of s b \<noteq> group_of s a" if "b \<in> set (picks n t s)" for b n t
    using picks_subset [OF that] flag same [of b] by (auto simp: receivable_def)
  then show ?thesis using mem_inv_sole [OF inv assms(3,5,4)] by blast
qed

text \<open>
  A batch of a FIFO receive holds at most one message of each message group.
\<close>

theorem fifo_batch_groups:
  assumes "distinct (ms_messages s)" "a \<in> set (picks n t s)" "b \<in> set (picks n t s)"
    "grouped s a" "group_of s b = group_of s a"
  shows "b = a"
proof -
  let ?l = "filter (receivable t s) (filter (\<lambda>a. \<not> expired t s a) (ms_messages s))"
  have "distinct ?l" using assms(1) by simp
  moreover have "a \<in> set (leaders s ?l)" "b \<in> set (leaders s ?l)"
    using assms(2,3) by (auto simp: picks_def dest: in_set_takeD)
  ultimately show ?thesis using leaders_groups [of ?l s] assms(4,5) by metis
qed

text \<open>
  Retention breaks the promise the other way: a group whose message expires while it is in
  flight keeps its flag although none of its messages is in flight.
\<close>

definition stuck_group :: "string \<Rightarrow> memory_store \<Rightarrow> bool" where
  "stuck_group g s \<longleftrightarrow>
     ms_isFifo s \<and> g \<noteq> '''' \<and> ms_inFlightGroups s g \<and>
     (\<forall>a \<in> set (ms_messages s). group_of s a = g \<longrightarrow> handle_of s a = '''')"

lemma stuck_no_pick: "stuck_group g s \<Longrightarrow> a \<in> set (picks n t s) \<Longrightarrow> group_of s a \<noteq> g"
  using picks_subset [of a n t s] by (auto simp: stuck_group_def receivable_def grouped_def)

lemma stuck_receive:
  assumes st: "stuck_group g s" and a: "receivable now s a"
  shows "stuck_group g (snd (receiveMessage E vt now nonce a s))"
proof -
  obtain m t where r: "receiveMessage E vt now nonce a s = (m, t)" by fastforce
  note fr = receiveMessage_frame [OF r]
  have out: "group_of s a \<noteq> g" using st a by (auto simp: stuck_group_def receivable_def grouped_def)
  have "ms_isFifo t = ms_isFifo s" using r by (auto simp: receiveMessage_eq Let_def)
  moreover have "handle_of t b = ''''" if "b \<in> set (ms_messages t)" "group_of t b = g" for b
  proof -
    have "group_of s b = g" using that(2) fr(4) [of b] by simp
    moreover from this have "b \<noteq> a" using out by auto
    ultimately show ?thesis using st that(1) fr(2) fr(3) [of b] by (simp add: stuck_group_def)
  qed
  ultimately show ?thesis
    using st r fr(13) [of g] by (simp add: stuck_group_def)
qed

lemma stuck_scan:
  "stuck_group g s \<Longrightarrow> stuck_group g (snd (receive_scan E n vt now rnd as result s))"
proof (induction as arbitrary: result s)
  case (Cons a as)
  obtain m t where r: "receiveMessage E vt now (rnd (length result)) a s = (m, t)" by fastforce
  show ?case
  proof (cases "receivable now s a")
    case True
    then have "stuck_group g t"
      using stuck_receive [OF Cons.prems True, of E vt "rnd (length result)"] r by simp
    then show ?thesis using Cons.IH True r by (simp add: Let_def)
  next
    case False
    then show ?thesis using Cons by simp
  qed
qed simp

lemma stuck_call:
  assumes inv: "mem_inv s" and st: "stuck_group g s" and c: "c \<noteq> CPurge"
  shows "stuck_group g (mem_call E now c s)"
proof (cases c)
  case (CSend m d)
  have "a \<in> set (ms_messages s) \<Longrightarrow> a \<noteq> ms_next_cell s" for a
    using mem_inv_cell [OF inv, of a] by (auto simp: cell_ok_def)
  then show ?thesis
    using st CSend by (auto simp: SendMessage_def Let_def stuck_group_def set_cell_def zero_cell_def
        notifyWaiters_def split: prod.splits)
next
  case (CReceive n vt rnd)
  have "stuck_group g (deleteExpiredMessagesLocked (now 0) s)"
    using st by (simp add: stuck_group_def)
  then show ?thesis
    using CReceive st stuck_scan by (simp add: receive_poll_def Let_def case_prod_unfold)
next
  case (CDelete h)
  show ?thesis
  proof (cases "find_handle h s")
    case None
    then show ?thesis using st CDelete by (simp add: DeleteMessage_def)
  next
    case (Some a)
    then have "group_of s a \<noteq> g" using find_handle_Some [OF Some] st by (auto simp: stuck_group_def)
    moreover obtain G where "removeMessage a s = s\<lparr>
       ms_timers := stop_timers (mm_visibilityTimer (ms_heap s a)) (ms_timers s),
       ms_inFlightGroups := (if grouped s a then (ms_inFlightGroups s)(group_of s a := False)
                             else ms_inFlightGroups s),
       ms_messageGroups := G, ms_messages := remove1 a (ms_messages s) \<rparr>"
      using removeMessage_eq by blast
    ultimately show ?thesis
      using st CDelete Some
      by (auto simp: DeleteMessage_def notifyWaiters_def stuck_group_def
          dest: set_remove1_subset [THEN subsetD])
  qed
next
  case (CChange h vt)
  show ?thesis
  proof (cases "find_handle h s")
    case None
    then show ?thesis using st CChange by (simp add: ChangeMessageVisibility_def)
  next
    case (Some a)
    then have "group_of s a \<noteq> g" using find_handle_Some [OF Some] st by (auto simp: stuck_group_def)
    then show ?thesis
      using st CChange Some
      by (auto simp: ChangeMessageVisibility_eq notifyWaiters_def stuck_group_def)
  qed
next
  case CClose
  then show ?thesis using st by (simp add: stuck_group_def Close_def stop_all_eq)
qed (use c in simp)

lemma stuck_timer:
  assumes inv: "mem_inv s" and tm: "ms_timers s i = Some tm" and st: "stuck_group g s"
  shows "stuck_group g (snd (run_timer i s))"
proof -
  let ?a = "tm_cell tm"
  have g: "group_of s ?a \<noteq> g"
    using mem_inv_timer [OF inv tm] st by (auto simp: timer_ok_def stuck_group_def)
  obtain G where "removeMessage ?a s = s\<lparr>
     ms_timers := stop_timers (mm_visibilityTimer (ms_heap s ?a)) (ms_timers s),
     ms_inFlightGroups := (if grouped s ?a then (ms_inFlightGroups s)(group_of s ?a := False)
                           else ms_inFlightGroups s),
     ms_messageGroups := G, ms_messages := remove1 ?a (ms_messages s) \<rparr>"
    using removeMessage_eq by blast
  then show ?thesis
    using st g
    by (auto simp: run_timer_cases [OF inv tm] Let_def case_prod_unfold notifyWaiters_def
        show_cell_def forget_cell_def clear_group_eq redrive_cell_eq removeMessage_simps
        set_cell_def Stop_eq stuck_group_def PrepareForRedrive_def
        dest: set_remove1_subset [THEN subsetD])
qed

inductive run_without_purge :: "env \<Rightarrow> memory_store \<Rightarrow> memory_store \<Rightarrow> bool" for E where
  Here: "run_without_purge E s s"
| Then_call: "run_without_purge E s s' \<Longrightarrow> c \<noteq> CPurge \<Longrightarrow>
    run_without_purge E s (mem_call E now c s')"
| Then_timer: "run_without_purge E s s' \<Longrightarrow> ms_timers s' i = Some tm \<Longrightarrow>
    run_without_purge E s (snd (run_timer i s'))"

lemma stuck_run:
  "run_without_purge E s s' \<Longrightarrow> mem_inv s \<Longrightarrow> receipts_ok E \<Longrightarrow> stuck_group g s \<Longrightarrow>
   mem_inv s' \<and> stuck_group g s'"
  by (induction rule: run_without_purge.induct)
     (auto simp: mem_inv_call mem_inv_timer_step stuck_call stuck_timer)

lemma expired_gets_stuck:
  assumes inv: "mem_inv s" and op: "\<not> ms_closed s"
    and a: "a \<in> set (ms_messages s)" "grouped s a" "handle_of s a \<noteq> ''''" "expired (now 0) s a"
  shows "stuck_group (group_of s a) (mem_call E now (CReceive n vt rnd) s)"
proof -
  let ?s1 = "deleteExpiredMessagesLocked (now 0) s"
  have flag: "ms_inFlightGroups s (group_of s a)"
    using mem_inv_cell [OF inv a(1)] a(2,3) by (simp add: cell_ok_def)
  have "handle_of s b = ''''" if "b \<in> set (ms_messages ?s1)" "group_of s b = group_of s a" for b
  proof -
    have "b \<noteq> a" "b \<in> set (ms_messages s)" using that a(4) by auto
    then show ?thesis using mem_inv_sole [OF inv a(1,3,2)] that(2) by simp
  qed
  then have st: "stuck_group (group_of s a) ?s1"
    using flag a(2) by (simp add: stuck_group_def grouped_def)
  from stuck_scan [OF st] show ?thesis
    using op by (simp add: receive_poll_def Let_def case_prod_unfold)
qed

text \<open>
  C18.  A FIFO group whose message outlives the retention period while in flight is blocked
  for good: after the receive that drops the expired message, and after any further run
  without a purge, no receive picks a message of the group, whatever is sent to it.
\<close>

theorem expired_in_flight_blocks_group:
  assumes "prompt_run E steps (NewMemoryStore q vt0 secret cfg) s" "receipts_ok E" "\<not> ms_closed s"
    and "a \<in> set (ms_messages s)" "grouped s a" "handle_of s a \<noteq> ''''" "expired (now 0) s a"
    and "run_without_purge E (mem_call E now (CReceive n vt rnd) s) s'"
  shows "\<forall>b \<in> set (picks k t s'). group_of s' b \<noteq> group_of s a"
proof -
  have inv: "mem_inv s" using mem_inv_reachable [OF assms(1,2)] .
  have "stuck_group (group_of s a) s'"
    using stuck_run [OF assms(8) mem_inv_call [OF inv assms(2)] assms(2)]
      expired_gets_stuck [where now = now, OF inv assms(3-7)] by blast
  then show ?thesis using stuck_no_pick by blast
qed

subsection \<open>Timers: every message in flight comes back or is redriven\<close>

text \<open>
  C13.  In every prompt run of an open store each message in flight has an armed timer, due at
  the end of its visibility timeout, that carries the message's current receipt handle.
\<close>

theorem in_flight_armed:
  assumes "prompt_run E steps (NewMemoryStore q vt0 secret cfg) s" "receipts_ok E" "\<not> ms_closed s"
    and "a \<in> set (ms_messages s)" "handle_of s a \<noteq> ''''"
  shows "\<exists>i tm. mm_visibilityTimer (ms_heap s a) = Some i \<and> ms_timers s i = Some tm \<and>
    \<not> tm_fired tm \<and> tm_cell tm = a \<and> tm_handle tm = handle_of s a \<and>
    tm_deadline tm = mm_visibleAt (ms_heap s a)"
proof -
  have inv: "mem_inv s" using mem_inv_reachable [OF assms(1,2)] .
  obtain i tm where i: "mm_visibilityTimer (ms_heap s a) = Some i" "ms_timers s i = Some tm"
    "tm_cell tm = a"
    using mem_inv_cell [OF inv assms(4)] assms(3,5) by (auto simp: cell_ok_def)
  then show ?thesis using mem_inv_timer [OF inv i(2)] by (auto simp: timer_ok_def)
qed

text \<open>
  C14.  When the timer of a message in flight runs, on an open store, the message either
  leaves the store, exactly when it was received \<open>maxReceiveCount\<close> times and a redrive
  target is configured, and is handed to it without handle and with its receive count
  reset; or it stays, without handle, and a receive at or after its visibility deadline can
  pick it again.
\<close>

theorem timer_releases_or_redrives:
  assumes "prompt_run E steps (NewMemoryStore q vt0 secret cfg) s" "receipts_ok E" "\<not> ms_closed s"
    and "ms_timers s i = Some tm" "tm_cell tm = a" "tm_deadline tm \<le> t"
  shows "\<exists>out s'. run_timer i s = (out, s') \<and> ms_timers s' i = None \<and> a \<in> set (ms_messages s) \<and>
    (if ms_maxReceiveCount s > 0 \<and> mm_receiveCount (ms_heap s a) \<ge> ms_maxReceiveCount s \<and>
        ms_redriveFunc s \<noteq> None
     then out = Some ((mm_msg (ms_heap s a))\<lparr> ReceiptHandle := '''', IsVisible := True,
              ApproximateReceiveCount := 0 \<rparr>) \<and>
          ms_messages s' = remove1 a (ms_messages s)
     else out = None \<and> ms_messages s' = ms_messages s \<and> handle_of s' a = '''' \<and> receivable t s' a)"
proof -
  have inv: "mem_inv s" using mem_inv_reachable [OF assms(1,2)] .
  have ok: "a \<in> set (ms_messages s)" "\<not> tm_fired tm" "tm_deadline tm = mm_visibleAt (ms_heap s a)"
    "mm_visibilityTimer (ms_heap s a) = Some i"
    using mem_inv_timer [OF inv assms(4)] assms(5) by (auto simp: timer_ok_def)
  obtain G where rm: "removeMessage a s = s\<lparr>
     ms_timers := stop_timers (mm_visibilityTimer (ms_heap s a)) (ms_timers s),
     ms_inFlightGroups := (if grouped s a then (ms_inFlightGroups s)(group_of s a := False)
                           else ms_inFlightGroups s),
     ms_messageGroups := G, ms_messages := remove1 a (ms_messages s) \<rparr>"
    using removeMessage_eq by blast
  have gone: "stop_timers (Some i) (ms_timers s) i = None"
    using stop_timers_unfired [of "ms_timers s" i tm] assms(4) ok(2) by simp
  show ?thesis
  proof (cases "must_redrive s a")
    case True
    then show ?thesis
      using ok(1,4) gone assms(3,5)
      by (auto simp: run_timer_cases [OF inv assms(4)] redrive_cell_eq rm notifyWaiters_def
          forget_cell_def set_cell_def clear_group_eq must_redrive_def PrepareForRedrive_def)
  next
    case False
    then show ?thesis
      using ok gone assms(3,5,6)
      by (auto simp: run_timer_cases [OF inv assms(4)] forget_shown_eq notifyWaiters_def
          must_redrive_def receivable_def grouped_def)
  qed
qed

subsection \<open>Deletion and change of visibility\<close>

text \<open>
  \<open>DeleteMessage\<close> with the handle of a message in flight removes that message and no
  other, and the handle is dead afterwards; with any other handle it reports
  \<open>ReceiptHandleIsInvalid\<close> and changes nothing.
\<close>

theorem delete_by_handle:
  assumes "distinct (ms_messages s)"
  shows "(case find_handle h s of
       Some a \<Rightarrow> h \<noteq> '''' \<and> handle_of s a = h \<and> fst (DeleteMessage h s) = None \<and>
         ms_messages (snd (DeleteMessage h s)) = filter (\<lambda>b. b \<noteq> a) (ms_messages s) \<and>
         ms_heap (snd (DeleteMessage h s)) = ms_heap s
     | None \<Rightarrow> (\<forall>a \<in> set (ms_messages s). h = '''' \<or> handle_of s a \<noteq> h) \<and>
         DeleteMessage h s = (Some (invalid_handle h), s)) \<and>
    DeleteMessage '''' s = (Some (invalid_handle ''''), s)"
proof -
  have none: "find_handle '''' s = None" by (auto simp: find_handle_def find_None_iff)
  show ?thesis
  proof (cases "find_handle h s")
    case None
    then have "\<forall>a \<in> set (ms_messages s). h = '''' \<or> handle_of s a \<noteq> h"
      by (auto simp: find_handle_def find_None_iff)
    then show ?thesis using None none by (simp add: DeleteMessage_def)
  next
    case (Some a)
    then show ?thesis
      using find_handle_Some [OF Some] none
      by (simp add: DeleteMessage_def notifyWaiters_def removeMessage_simps
          distinct_remove1_removeAll [OF assms] removeAll_filter_not_eq neq_commute)
  qed
qed

text \<open>
  On a message in flight, a visibility timeout of zero gives the message back at once:
  it loses its handle and its timer, its group is free, and a receive at that instant can
  pick it.  A positive timeout keeps the handle and moves the deadline to now plus the
  timeout, with a new timer due then.
\<close>

theorem change_visibility:
  assumes "find_handle h s = Some a"
  shows "\<exists>s'. ChangeMessageVisibility now h vt s = (None, s') \<and>
    ms_messages s' = ms_messages s \<and> (\<forall>b. b \<noteq> a \<longrightarrow> ms_heap s' b = ms_heap s b) \<and>
    mm_receiveCount (ms_heap s' a) = mm_receiveCount (ms_heap s a) \<and>
    (if vt = 0 then handle_of s' a = '''' \<and> receivable (now 0) s' a \<and>
       mm_visibilityTimer (ms_heap s' a) = None
     else handle_of s' a = h \<and> mm_visibleAt (ms_heap s' a) = now 0 + seconds vt \<and>
       (\<exists>i tm. mm_visibilityTimer (ms_heap s' a) = Some i \<and> ms_timers s' i = Some tm \<and>
          tm_cell tm = a \<and> tm_deadline tm = now 0 + seconds vt))"
  using find_handle_Some [OF assms]
  by (auto simp: ChangeMessageVisibility_eq [OF assms] notifyWaiters_def receivable_def grouped_def)

text \<open>
  A visibility timeout of zero (or less) in \<open>ReceiveMessages\<close> does not mean zero but the
  default of the queue: with a positive default every delivered message is hidden, so a
  second receive at the same instant returns none of them.
\<close>

theorem receive_zero_is_default:
  assumes "distinct (ms_messages s)" "\<not> ms_closed s" "vt \<le> 0"
    and "0 < ms_visibilityTimeout s" "ms_visibilityTimeout s \<le> MaxVisibilityTimeout"
  shows "ReceiveNow E now rnd n vt s = ReceiveNow E now rnd n (ms_visibilityTimeout s) s \<and>
    (\<forall>a \<in> set (picks n (now 0) s). a \<notin> set (picks m (now 0) (snd (ReceiveNow E now rnd n vt s))))"
proof -
  let ?s' = "snd (ReceiveNow E now rnd n vt s)"
  have eq: "effective_timeout vt s = ms_visibilityTimeout s" using assms(3) by (simp add: effective_timeout_def)
  have pos: "0 < seconds (ms_visibilityTimeout s)"
    using assms(4,5) by (intro seconds_pos) (auto simp: MaxVisibilityTimeout_def)
  have "a \<notin> set (picks m (now 0) ?s')" if "a \<in> set (picks n (now 0) s)" for a
    using poll_open(4) [OF assms(1,2) that, where E = E and vt = "ms_visibilityTimeout s" and rnd = rnd]
      picks_subset [of a m "now 0" ?s'] pos
    by (auto simp: ReceiveNow_def eq receivable_def)
  then show ?thesis using assms(3,4) by (simp add: ReceiveNow_def eq effective_timeout_def)
qed

subsection \<open>Counts\<close>

text \<open>
  The three counts partition the queue, and a receive with a positive timeout that
  expires nothing moves exactly the delivered messages from the visible to the not visible.
\<close>

theorem receive_moves_counts:
  assumes "distinct (ms_messages s)" "\<not> ms_closed s" "receipts_ok E" "0 < vt" "vt \<le> 43200"
    and "\<forall>a \<in> set (ms_messages s). \<not> expired now s a"
    and "receive_poll E n vt now rnd s = (r, s')" "k = int (length (picks n now s))"
  shows "ApproximateNumberOfMessages now s + ApproximateNumberOfMessagesNotVisible now s
      + ApproximateNumberOfMessagesDelayed now s = int (length (ms_messages s)) \<and>
    ApproximateNumberOfMessages now s' = ApproximateNumberOfMessages now s - k \<and>
    ApproximateNumberOfMessagesNotVisible now s' = ApproximateNumberOfMessagesNotVisible now s + k \<and>
    ApproximateNumberOfMessagesDelayed now s' = ApproximateNumberOfMessagesDelayed now s"
proof -
  have s'_def: "s' = snd (receive_poll E n vt now rnd s)" and k_def: "k = int (length (picks n now s))"
    using assms(7,8) by simp_all
  let ?P = "set (picks n now s)" and ?M = "set (ms_messages s)"
  let ?vis = "\<lambda>s. {a. \<not> mm_visibleAt (ms_heap s a) > now}"
  let ?handled = "\<lambda>s. {a. handle_of s a \<noteq> ''''}"
  have len: "length (filter Q (ms_messages s)) = card (?M \<inter> {a. Q a})" for Q
    using distinct_card [of "filter Q (ms_messages s)"] assms(1)
    by (simp add: Int_def)
  have ms: "ms_messages s' = ms_messages s"
    using poll_open(2) [OF assms(1,2)] assms(6) by (simp add: s'_def)
  have P: "?P \<subseteq> ?M \<inter> ?vis s" using picks_subset by (auto simp: receivable_def)
  have "distinct (picks n now s)"
    using leaders_groups [of "filter (receivable now s) (filter (\<lambda>a. \<not> expired now s a) (ms_messages s))" s]
      assms(1) by (simp add: picks_def)
  then have k: "k = int (card ?P)" by (simp add: k_def distinct_card)
  have heap: "b \<notin> ?P \<Longrightarrow> ms_heap s' b = ms_heap s b" for b
    using poll_open(3) [OF assms(1,2)] by (simp add: s'_def)
  have hid: "b \<in> ?P \<Longrightarrow> now < mm_visibleAt (ms_heap s' b) \<and> handle_of s' b \<noteq> ''''" for b
    using poll_open(4) [OF assms(1,2), where E = E and vt = vt and rnd = rnd, of b n now]
      seconds_pos [OF assms(4)] assms(3,5) handle_nonempty
    by (auto simp: s'_def delivered_def Let_def)
  have at_P: "(mm_visibleAt (ms_heap s' b) > now \<longleftrightarrow> b \<in> ?P \<or> mm_visibleAt (ms_heap s b) > now) \<and>
      (handle_of s' b \<noteq> '''' \<longleftrightarrow> b \<in> ?P \<or> handle_of s b \<noteq> '''')" for b
    using heap [of b] hid [of b] by (cases "b \<in> ?P") auto
  have v: "?M \<inter> ?vis s' = (?M \<inter> ?vis s) - ?P" using at_P by auto
  have nv: "?M \<inter> {a. mm_visibleAt (ms_heap s' a) > now \<and> handle_of s' a \<noteq> ''''} =
      (?M \<inter> {a. mm_visibleAt (ms_heap s a) > now \<and> handle_of s a \<noteq> ''''}) \<union> ?P"
    using at_P P by auto
  have dl: "?M \<inter> {a. mm_visibleAt (ms_heap s' a) > now \<and> handle_of s' a = ''''} =
      ?M \<inter> {a. mm_visibleAt (ms_heap s a) > now \<and> handle_of s a = ''''}"
    using at_P P by auto
  have c1: "int (card ((?M \<inter> ?vis s) - ?P)) = int (card (?M \<inter> ?vis s)) - k"
    using P k by (simp add: card_Diff_subset card_mono of_nat_diff)
  have disj: "(?M \<inter> {a. mm_visibleAt (ms_heap s a) > now \<and> handle_of s a \<noteq> ''''}) \<inter> ?P = {}"
    using P by auto
  have c2: "int (card ((?M \<inter> {a. mm_visibleAt (ms_heap s a) > now \<and> handle_of s a \<noteq> ''''}) \<union> ?P)) =
      int (card (?M \<inter> {a. mm_visibleAt (ms_heap s a) > now \<and> handle_of s a \<noteq> ''''})) + k"
    using disj k by (simp add: card_Un_disjoint)
  have "int (length (filter (\<lambda>a. \<not> mm_visibleAt (ms_heap s a) > now) l)) +
      int (length (filter (\<lambda>a. mm_visibleAt (ms_heap s a) > now \<and> handle_of s a \<noteq> '''') l)) +
      int (length (filter (\<lambda>a. mm_visibleAt (ms_heap s a) > now \<and> handle_of s a = '''') l)) =
      int (length l)" for l
    by (induction l) auto
  from this [of "ms_messages s"]
  have "ApproximateNumberOfMessages now s + ApproximateNumberOfMessagesNotVisible now s
      + ApproximateNumberOfMessagesDelayed now s = int (length (ms_messages s))"
    by (simp only: ApproximateNumberOfMessages_def ApproximateNumberOfMessagesNotVisible_def
      ApproximateNumberOfMessagesDelayed_def)
  then show ?thesis
    using c1 c2 v nv dl
    by (simp add: ApproximateNumberOfMessages_def ApproximateNumberOfMessagesNotVisible_def
        ApproximateNumberOfMessagesDelayed_def ms len)
qed

subsection \<open>Deduplication\<close>

text \<open>A run whose sends read clocks up to \<open>T\<close>, without a purge.\<close>

inductive run_until :: "env \<Rightarrow> time \<Rightarrow> memory_store \<Rightarrow> memory_store \<Rightarrow> bool" for E T where
  Start_until: "run_until E T s s"
| Call_until: "run_until E T s s' \<Longrightarrow> c \<noteq> CPurge \<Longrightarrow> now 0 \<le> T \<Longrightarrow>
    run_until E T s (mem_call E now c s')"
| Timer_until: "run_until E T s s' \<Longrightarrow> run_until E T s (snd (run_timer i s'))"

definition fifo_part :: "memory_store \<Rightarrow> bool \<times> bool \<times> dedup_cache \<times> int" where
  "fifo_part s = (ms_isFifo s, ms_contentBasedDeduplication s, ms_dedupCache s, ms_sequenceCounter s)"

lemma fifo_part_simps [simp]:
  "fifo_part (s\<lparr> ms_heap := h \<rparr>) = fifo_part s"
  "fifo_part (s\<lparr> ms_timers := T \<rparr>) = fifo_part s"
  "fifo_part (s\<lparr> ms_next_timer := n \<rparr>) = fifo_part s"
  "fifo_part (s\<lparr> ms_inFlightGroups := g \<rparr>) = fifo_part s"
  "fifo_part (s\<lparr> ms_messageGroups := G \<rparr>) = fifo_part s"
  "fifo_part (s\<lparr> ms_messages := l \<rparr>) = fifo_part s"
  "fifo_part (s\<lparr> ms_notify := b \<rparr>) = fifo_part s"
  "fifo_part (s\<lparr> ms_closed := b \<rparr>) = fifo_part s"
  by (simp_all add: fifo_part_def)

lemma fifo_part_scan [simp]:
  "fifo_part (snd (receive_scan E n vt now rnd as result s)) = fifo_part s"
proof (induction as arbitrary: result s)
  case (Cons a as)
  obtain m t where r: "receiveMessage E vt now (rnd (length result)) a s = (m, t)" by fastforce
  then have "fifo_part t = fifo_part s" by (auto simp: receiveMessage_eq Let_def)
  then show ?case using Cons r by (simp add: Let_def)
qed simp

lemma fifo_part_removeMessage [simp]: "fifo_part (removeMessage a s) = fifo_part s"
  using removeMessage_eq [of a s] by auto

lemma fifo_part_call:
  "(\<And>m d. c \<noteq> CSend m d) \<Longrightarrow> c \<noteq> CPurge \<Longrightarrow> fifo_part (mem_call E now c s) = fifo_part s"
  by (cases c)
     (auto simp: receive_poll_def Let_def case_prod_unfold deleteExpiredMessagesLocked_def
        stop_expired_eq DeleteMessage_def ChangeMessageVisibility_def notifyWaiters_def Close_def
        stop_all_eq Stop_eq AfterFunc_def set_cell_def clear_group_eq split: option.splits)

lemma fifo_part_timer [simp]: "fifo_part (snd (run_timer i s)) = fifo_part s"
  by (auto simp: run_timer_def Let_def case_prod_unfold notifyWaiters_def forget_cell_def
      show_cell_def clear_group_eq set_cell_def redrive_cell_eq split: option.splits timer_body.splits)

lemma send_fifo_part:
  "ms_dedupCache s d = Some e \<Longrightarrow> now 0 \<le> e \<Longrightarrow>
   ms_dedupCache (snd (snd (SendMessage E now m delay s))) d = Some e"
  "ms_isFifo (snd (snd (SendMessage E now m delay s))) = ms_isFifo s"
  "ms_contentBasedDeduplication (snd (snd (SendMessage E now m delay s))) =
   ms_contentBasedDeduplication s"
  by (auto simp: SendMessage_def Let_def set_cell_def notifyWaiters_def fifo_admit_def
      CleanExpired_Some split: prod.splits if_splits)

lemma dedup_entry_run:
  assumes "run_until E T s s'" "ms_dedupCache s d = Some T" "ms_isFifo s"
  shows "ms_dedupCache s' d = Some T \<and> ms_isFifo s' \<and>
    ms_contentBasedDeduplication s' = ms_contentBasedDeduplication s"
  using assms
proof (induction rule: run_until.induct)
  case (Call_until s s' c now)
  show ?case
  proof (cases "\<exists>m d. c = CSend m d")
    case True
    then show ?thesis using Call_until send_fifo_part by auto
  next
    case False
    then have "fifo_part (mem_call E now c s') = fifo_part s'"
      using fifo_part_call Call_until.hyps by blast
    then show ?thesis using Call_until by (simp add: fifo_part_def)
  qed
next
  case (Timer_until s s' i)
  then show ?case using fifo_part_timer [of i s'] by (simp add: fifo_part_def)
qed simp_all


subsection \<open>Sequence numbers\<close>

text \<open>Sequence numbers of the queue: strictly increasing, and at most the counter.\<close>

definition seq_of :: "memory_store \<Rightarrow> nat \<Rightarrow> string" where
  "seq_of s a = SequenceNumber (mm_msg (ms_heap s a))"

definition seq_below :: "memory_store \<Rightarrow> nat \<Rightarrow> nat \<Rightarrow> bool" where
  "seq_below s a b \<longleftrightarrow> (\<exists>k l. seq_of s a = itoa k \<and> seq_of s b = itoa l \<and> k < l)"

definition seq_ok :: "nat \<Rightarrow> memory_store \<Rightarrow> bool" where
  "seq_ok steps s \<longleftrightarrow> sorted_wrt (seq_below s) (ms_messages s) \<and>
     (\<forall>a \<in> set (ms_messages s). \<exists>k. seq_of s a = itoa k \<and> 0 < k \<and> k \<le> ms_sequenceCounter s) \<and>
     0 \<le> ms_sequenceCounter s \<and> ms_sequenceCounter s \<le> int steps \<and> ms_isFifo s"

lemma seq_ok_keep:
  assumes ok: "seq_ok n s" and part: "fifo_part t = fifo_part s"
    and ms: "ms_messages t = filter Q (ms_messages s)"
    and seq: "\<And>a. a \<in> set (ms_messages s) \<Longrightarrow> seq_of t a = seq_of s a"
  shows "seq_ok (Suc n) t"
proof -
  have "sorted_wrt (seq_below s) (ms_messages t)"
    using ok by (simp add: ms sorted_wrt_filter seq_ok_def)
  then have "sorted_wrt (seq_below t) (ms_messages t)"
    by (rule sorted_wrt_mono_rel [rotated]) (use seq in \<open>auto simp: ms seq_below_def\<close>)
  then show ?thesis using ok part seq by (auto simp: seq_ok_def fifo_part_def ms)
qed

lemma filter_self: "\<exists>Q. xs = filter Q xs"
  by (intro exI [of _ "\<lambda>_. True"]) simp

lemma poll_seq:
  assumes "distinct (ms_messages s)"
  shows "seq_of (snd (receive_poll E n vt now rnd s)) a = seq_of s a"
proof (cases "ms_closed s")
  case True
  then show ?thesis by (simp add: receive_poll_def)
next
  case False
  show ?thesis
    using poll_open(3) [OF assms False, of a n now E vt rnd]
      poll_open(4) [OF assms False, of a n now E vt rnd]
    by (cases "a \<in> set (picks n now s)") (auto simp: seq_of_def delivered_def Let_def)
qed

lemma seq_ok_send:
  assumes ok: "seq_ok n s" and inv: "mem_inv s" and n: "int n < max_int64"
  shows "seq_ok (Suc n) (snd (snd (SendMessage E now m d s)))"
proof -
  have old: "a \<in> set (ms_messages s) \<Longrightarrow> a \<noteq> ms_next_cell s" for a
    using mem_inv_cell [OF inv, of a] by (auto simp: cell_ok_def)
  have wrap: "wrap64 (ms_sequenceCounter s + 1) = ms_sequenceCounter s + 1"
    using ok n by (intro wrap64_id) (auto simp: seq_ok_def)
  let ?c = "ms_sequenceCounter s + 1"
  have enter: "seq_ok (Suc n) t"
    if h: "\<forall>a \<in> set (ms_messages s). seq_of t a = seq_of s a" "seq_of t (ms_next_cell s) = itoa ?c"
      "ms_messages t = ms_messages s @ [ms_next_cell s]" "ms_sequenceCounter t = ?c" "ms_isFifo t" for t
  proof -
    have "sorted_wrt (seq_below t) (ms_messages s)"
      by (rule sorted_wrt_mono_rel [of _ "seq_below s"]) (use ok h(1) in \<open>auto simp: seq_ok_def seq_below_def\<close>)
    moreover have "seq_below t a (ms_next_cell s)" if a: "a \<in> set (ms_messages s)" for a
    proof -
      obtain k where "seq_of s a = itoa k" "k \<le> ms_sequenceCounter s" using ok a by (auto simp: seq_ok_def)
      then show ?thesis using h(1,2) a unfolding seq_below_def by (intro exI [of _ k] exI [of _ ?c]) auto
    qed
    ultimately have "sorted_wrt (seq_below t) (ms_messages t)" by (simp add: h(3) sorted_wrt_append)
    moreover have "\<exists>k. seq_of t a = itoa k \<and> 0 < k \<and> k \<le> ?c" if a: "a \<in> set (ms_messages t)" for a
    proof (cases "a = ms_next_cell s")
      case True
      then show ?thesis using h(2) ok by (intro exI [of _ ?c]) (auto simp: seq_ok_def)
    next
      case False
      then have a: "a \<in> set (ms_messages s)" using a h(3) by simp
      then obtain k where "seq_of s a = itoa k" "0 < k" "k \<le> ms_sequenceCounter s"
        using ok by (auto simp: seq_ok_def)
      then show ?thesis using h(1) a by (intro exI [of _ k]) auto
    qed
    ultimately show ?thesis using ok h(4,5) by (simp add: seq_ok_def)
  qed
  have same: "seq_ok (Suc n) (s\<lparr> ms_dedupCache := c, ms_sequenceCounter := ms_sequenceCounter s \<rparr>)" for c
  proof -
    have "seq_below (s\<lparr> ms_dedupCache := c, ms_sequenceCounter := ms_sequenceCounter s \<rparr>) = seq_below s"
      by (simp add: fun_eq_iff seq_below_def seq_of_def)
    then show ?thesis using ok by (simp add: seq_ok_def seq_of_def)
  qed
  have same': "seq_ok (Suc n) s" using ok by (simp add: seq_ok_def)
  have fifo: "ms_isFifo s" using ok by (simp add: seq_ok_def)
  obtain dup cache counter m1 where
    adm: "fifo_admit E (ms_contentBasedDeduplication s) now (ms_dedupCache s) (ms_sequenceCounter s) m =
      (dup, cache, counter, m1)" by (metis prod_cases4)
  note cnt = fifo_admit_counter [OF adm]
  show ?thesis
  proof (cases "ms_closed s \<or> dup")
    case True
    then show ?thesis using same same' adm cnt fifo by (auto simp: SendMessage_def Let_def)
  next
    case False
    show ?thesis
      using False adm cnt fifo wrap old
      by (intro enter) (auto simp: SendMessage_def Let_def set_cell_def notifyWaiters_def seq_of_def zero_cell_def)
  qed
qed

lemma seq_ok_step:
  assumes "prompt_step E s s'" "seq_ok n s" "mem_inv s" "int n < max_int64"
  shows "seq_ok (Suc n) s'"
  using assms(1)
proof (cases rule: prompt_step.cases)
  case (Call now c)
  show ?thesis
  proof (cases c)
    case (CSend m d)
    then show ?thesis using Call seq_ok_send [OF assms(2-4)] by simp
  next
    case (CReceive k vt rnd)
    have "\<exists>Q. ms_messages (snd (receive_poll E k vt (now 0) rnd s)) = filter Q (ms_messages s)"
      using poll_open(2) [OF mem_inv_distinct [OF assms(3)]] filter_self
      by (cases "ms_closed s") (auto simp: receive_poll_def)
    then show ?thesis
      using Call CReceive seq_ok_keep [OF assms(2) fifo_part_call [of c E now s]]
        poll_seq [OF mem_inv_distinct [OF assms(3)]] by auto
  next
    case (CDelete h)
    have "ms_messages (snd (DeleteMessage h s)) = filter (\<lambda>b. find_handle h s \<noteq> Some b) (ms_messages s)"
      using remove1_filter [OF mem_inv_distinct [OF assms(3)]]
      by (auto simp: DeleteMessage_def notifyWaiters_def removeMessage_simps neq_commute
          split: option.splits)
    then show ?thesis
      using Call CDelete seq_ok_keep [OF assms(2) fifo_part_call [of c E now s]]
      by (simp add: seq_of_def delete_frame)
  next
    case (CChange h vt)
    have "seq_of (snd (ChangeMessageVisibility now h vt s)) a = seq_of s a" for a
      by (cases "find_handle h s")
        (auto simp: ChangeMessageVisibility_eq notifyWaiters_def seq_of_def,
         simp add: ChangeMessageVisibility_def)
    then show ?thesis
      using Call CChange seq_ok_keep [OF assms(2) fifo_part_call [of c E now s], of "\<lambda>_. True"]
      by (simp add: change_frame)
  next
    case CPurge
    then show ?thesis using Call assms(2)
      by (simp add: seq_ok_def) (simp add: Purge_def stop_all_eq notifyWaiters_def)
  next
    case CClose
    then show ?thesis
      using Call seq_ok_keep [OF assms(2) fifo_part_call [of c E now s], of "\<lambda>_. True"]
      by (simp add: seq_of_def)
  qed
next
  case (Timer i tm)
  have "\<exists>Q. ms_messages (snd (run_timer i s)) = filter Q (ms_messages s)"
    using remove1_filter [OF mem_inv_distinct [OF assms(3)]] filter_self
    by (auto simp: run_timer_cases [OF assms(3) Timer(2)] Let_def case_prod_unfold notifyWaiters_def
        show_cell_def forget_cell_def clear_group_eq redrive_cell_eq removeMessage_simps set_cell_def
        Stop_eq)
  moreover have "seq_of (snd (run_timer i s)) a = seq_of s a" for a
    by (auto simp: run_timer_cases [OF assms(3) Timer(2)] Let_def case_prod_unfold notifyWaiters_def
        show_cell_def forget_cell_def clear_group_eq redrive_cell_eq removeMessage_simps set_cell_def
        Stop_eq seq_of_def PrepareForRedrive_def)
  ultimately show ?thesis
    using Timer seq_ok_keep [OF assms(2) fifo_part_timer [of i s]] by auto
qed

text \<open>
  C16.  In a FIFO store the messages of the queue carry strictly increasing sequence numbers
  in the order of the queue, all between 1 and the counter, as long as fewer than
  \<open>2 ^ 63\<close> operations ran (the counter is an \<open>int64\<close>).
\<close>

theorem fifo_sequence_numbers:
  assumes "prompt_run E steps (NewMemoryStore q vt0 secret cfg) s" "receipts_ok E"
    and "cfg_IsFifo cfg" "int steps < max_int64"
  shows "sorted_wrt (\<lambda>a b. \<exists>k l. SequenceNumber (mm_msg (ms_heap s a)) = itoa k \<and>
        SequenceNumber (mm_msg (ms_heap s b)) = itoa l \<and> k < l) (ms_messages s) \<and>
    (\<forall>a \<in> set (ms_messages s). \<exists>k. SequenceNumber (mm_msg (ms_heap s a)) = itoa k \<and>
        1 \<le> k \<and> k \<le> ms_sequenceCounter s)"
proof -
  have "seq_ok steps s"
    using assms
  proof (induction steps "NewMemoryStore q vt0 secret cfg" s rule: prompt_run.induct)
    case Nil
    then show ?case by (simp add: seq_ok_def NewMemoryStore_def)
  next
    case (Step n s' s'')
    then show ?case using seq_ok_step [OF Step(3)] mem_inv_reachable [OF Step(1)] by simp
  qed
  then show ?thesis
    unfolding seq_ok_def seq_below_def [abs_def] seq_of_def by (auto simp: int_one_le_iff_zero_less)
qed

subsection \<open>Purge and waiting\<close>

text \<open>
  A purge empties the store: no message, no armed timer, all counts zero, every FIFO
  group free; and it forgets the deduplication cache, so that the next message is accepted
  whatever its ID, with sequence number 1 on a FIFO queue.
\<close>

theorem purge_resets:
  assumes "prompt_run E steps (NewMemoryStore q vt0 secret cfg) s" "receipts_ok E"
    and "cfg_IsFifo cfg" "\<not> ms_closed s"
  shows "ms_messages (Purge s) = [] \<and> (\<forall>i. ms_timers (Purge s) i = None) \<and>
    (\<forall>t. ApproximateNumberOfMessages t (Purge s) = 0 \<and>
         ApproximateNumberOfMessagesNotVisible t (Purge s) = 0 \<and>
         ApproximateNumberOfMessagesDelayed t (Purge s) = 0) \<and>
    (\<forall>g. \<not> ms_inFlightGroups (Purge s) g) \<and>
    (ms_isFifo s \<longrightarrow> (\<exists>m' s'. SendMessage E now m d (Purge s) = (None, m', s') \<and>
       SequenceNumber m' = ''1'' \<and> length (ms_messages s') = 1))"
proof -
  have inv: "mem_inv s" using mem_inv_reachable [OF assms(1,2)] .
  have "ms_timers (Purge s) i = None" for i
    using mem_inv_timer [OF mem_inv_purge [OF inv], of i]
    by (cases "ms_timers (Purge s) i") (auto simp: timer_ok_def)
  moreover have "itoa (wrap64 (0 + 1)) = ''1''" by code_simp
  ultimately show ?thesis
    using assms(4)
    by (simp add: ApproximateNumberOfMessages_def ApproximateNumberOfMessagesNotVisible_def
        ApproximateNumberOfMessagesDelayed_def)
       (auto simp: Purge_def stop_all_eq notifyWaiters_def SendMessage_def fifo_admit_def Let_def
        CleanExpiredDedupEntries_def set_cell_def)
qed

lemma receive_turns_ends:
  "p \<in> set turns \<Longrightarrow> wait \<le> 0 \<or> tn_remaining p \<le> 0 \<or> tn_wake p \<noteq> Notified \<Longrightarrow>
   fst (receive_turns E n vt wait turns s) \<noteq> None"
proof (induction turns arbitrary: s)
  case (Cons p' ps)
  show ?case
    using Cons by (auto split: prod.splits sum.splits wake.splits simp: Let_def)
qed simp

lemma receive_turns_result:
  "receive_turns E n vt wait turns s = (Some (Inr (m # ms)), s') \<Longrightarrow>
   \<exists>p \<in> set turns. \<exists>s0. receive_poll E n vt (tn_now p) (tn_nonces p) s0 = (Inr (m # ms), s')"
proof (induction turns arbitrary: s)
  case (Cons p ps)
  show ?case
  proof (cases "receive_poll E n vt (tn_now p) (tn_nonces p) s")
    case (Pair r t)
    show ?thesis
    proof (cases r)
      case (Inl e)
      then show ?thesis using Cons.prems Pair by simp
    next
      case (Inr l)
      show ?thesis
      proof (cases "l = []")
        case False
        then show ?thesis using Cons.prems Pair Inr by auto
      next
        case True
        then have "\<exists>u. receive_turns E n vt wait ps u = (Some (Inr (m # ms)), s')"
          using Cons.prems Pair Inr by (auto simp: Let_def split: if_splits wake.splits)
        then show ?thesis using Cons.IH by fastforce
      qed
    qed
  qed
qed simp


text \<open>
  A send wakes a waiting receiver only when it has no delay: then it leaves the
  notification pending, and the receiver's next turn on a standard queue delivers the new
  message unless its batch is full of older ones.  A delayed send leaves the notification
  as it was.
\<close>

theorem send_wakes_receiver:
  assumes "\<not> ms_closed s" "\<not> ms_isFifo s" "distinct (ms_messages s)" "ms_next_cell s \<notin> set (ms_messages s)"
    and "SendMessage E now m d s = (r, m', s')"
  shows "r = None \<and> ms_messages s' = ms_messages s @ [ms_next_cell s] \<and>
    ms_notify s' = (d = 0 \<or> ms_notify s) \<and>
    (d = 0 \<and> now 2 \<le> t \<and> \<not> expired t s' (ms_next_cell s) \<and>
     length (filter (receivable t s') (filter (\<lambda>a. \<not> expired t s' a) (ms_messages s))) < nat (max 1 n) \<longrightarrow>
     ms_next_cell s \<in> set (picks n t s'))"
proof -
  have fields: "r = None" "ms_messages s' = ms_messages s @ [ms_next_cell s]"
    "ms_notify s' = (d = 0 \<or> ms_notify s)" "ms_isFifo s' = ms_isFifo s"
    "mm_visibleAt (ms_heap s' (ms_next_cell s)) = (if d > 0 then now 2 + seconds d else now 2)"
    using assms(1,2,5) by (auto simp: SendMessage_def Let_def set_cell_def notifyWaiters_def
        grouped_def zero_cell_def split: if_splits)
  have "receivable t s' (ms_next_cell s)" if "d = 0" "now 2 \<le> t"
    using fields(4,5) assms(2) that by (simp add: receivable_def grouped_def)
  then show ?thesis
    using fields assms(2) by (auto simp: picks_def leaders_ungrouped)
qed

subsection \<open>A late timer body\<close>

text \<open>
  A timer has fired, but its body still waits for the mutex: the timer cannot be stopped any
  more.
\<close>

definition fire :: "nat \<Rightarrow> memory_store \<Rightarrow> memory_store" where
  "fire i s = s\<lparr> ms_timers := (ms_timers s)
     (i := map_option (\<lambda>tm. tm\<lparr> tm_fired := True \<rparr>) (ms_timers s i)) \<rparr>"

lemma racy_fire: "racy_run E s0 s \<Longrightarrow> ms_timers s i = Some tm \<Longrightarrow> racy_run E s0 (fire i s)"
  using racy_run.RStep [OF _ racy_step.Fire] by (simp add: fire_def)

lemma racy_call: "racy_run E s0 s \<Longrightarrow> racy_run E s0 (mem_call E now c s)"
  by (rule racy_run.RStep [OF _ racy_step.RCall])

lemma stop_timers_fired: "T i = Some tm \<Longrightarrow> tm_fired tm \<Longrightarrow> stop_timers t T i = Some tm"
  by (auto simp: stop_timers_def)

definition limits_part :: "memory_store \<Rightarrow> int \<times> string option" where
  "limits_part s = (ms_maxReceiveCount s, ms_redriveFunc s)"

lemma scan_fired:
  "(ms_timers s i = Some tm \<and> tm_fired tm \<and> i < ms_next_timer s \<longrightarrow>
    ms_timers (snd (receive_scan E n vt now rnd as result s)) i = Some tm) \<and>
   limits_part (snd (receive_scan E n vt now rnd as result s)) = limits_part s"
proof (induction as arbitrary: result s)
  case (Cons a as)
  obtain m t where r: "receiveMessage E vt now (rnd (length result)) a s = (m, t)" by fastforce
  then have t: "ms_timers s i = Some tm \<Longrightarrow> tm_fired tm \<Longrightarrow> i < ms_next_timer s \<Longrightarrow>
      ms_timers t i = Some tm \<and> i < ms_next_timer t" "limits_part t = limits_part s"
    by (auto simp: receiveMessage_eq Let_def stop_timers_fired limits_part_def)
  then show ?case using Cons.IH [of t "result @ [m]"] Cons.IH [of s result] r by (auto simp: Let_def)
qed simp

lemma poll_fired:
  assumes "ms_timers s i = Some tm" "tm_fired tm" "i < ms_next_timer s"
  shows "ms_timers (snd (receive_poll E n vt now rnd s)) i = Some tm"
    "limits_part (snd (receive_poll E n vt now rnd s)) = limits_part s"
    "ms_isFifo (snd (receive_poll E n vt now rnd s)) = ms_isFifo s"
proof -
  let ?s1 = "deleteExpiredMessagesLocked now s"
  have "ms_timers ?s1 i = Some tm" "i < ms_next_timer ?s1" "limits_part ?s1 = limits_part s"
    using assms stop_timers_fired [of "ms_timers s" i tm]
    by (simp_all add: deleteExpiredMessagesLocked_def stop_expired_eq stops_of_def limits_part_def)
  moreover have "ms_isFifo (snd (receive_scan E n vt now rnd as result t)) = ms_isFifo t" for as result t
    using fifo_part_scan [of E n vt now rnd as result t] by (simp add: fifo_part_def)
  ultimately show "ms_timers (snd (receive_poll E n vt now rnd s)) i = Some tm"
    "limits_part (snd (receive_poll E n vt now rnd s)) = limits_part s"
    "ms_isFifo (snd (receive_poll E n vt now rnd s)) = ms_isFifo s"
    using assms scan_fired by (simp_all add: receive_poll_def Let_def case_prod_unfold)
qed

text \<open>
  A late timer body breaks the FIFO promise.  Let the timer of an in-flight message of a
  group fire, and let the receiver delete the message before the body gets the mutex; the
  deletion is acknowledged.  If the next receive delivers another message of the group, then
  the body, which still finds the handle it expects in the deleted cell, frees the group
  while that message is in flight.
\<close>

theorem late_timer_frees_group:
  assumes run: "prompt_run E steps (NewMemoryStore q vt0 secret cfg) s" "receipts_ok E" "\<not> ms_closed s"
    and a: "find_handle h s = Some a" "grouped s a" "\<not> must_redrive s a"
    and tm: "ms_timers s i = Some tm" "tm_cell tm = a"
    and b: "b \<in> set (picks n t (snd (DeleteMessage h (fire i s))))" "group_of s b = group_of s a"
  shows "\<exists>s3. s3 = snd (run_timer i (snd (receive_poll E n vt t rnd (snd (DeleteMessage h (fire i s)))))) \<and>
    fst (DeleteMessage h (fire i s)) = None \<and>
    b \<in> set (ms_messages s3) \<and> handle_of s3 b \<noteq> '''' \<and> grouped s3 b \<and>
    \<not> ms_inFlightGroups s3 (group_of s3 b)"
proof -
  have inv: "mem_inv s" using mem_inv_reachable [OF run(1,2)] .
  note ha = find_handle_Some [OF a(1)]
  have ok: "\<not> tm_fired tm" "i < ms_next_timer s" "mm_visibilityTimer (ms_heap s a) = Some i"
    "tm_handle tm = h"
    using mem_inv_timer [OF inv tm(1)] tm(2) ha by (auto simp: timer_ok_def)
  let ?tm = "tm\<lparr> tm_fired := True \<rparr>"
  have fh: "find_handle h (fire i s) = Some a"
    using a(1) by (simp add: fire_def find_handle_def)
  obtain G where rm: "removeMessage a (fire i s) = (fire i s)\<lparr>
     ms_timers := stop_timers (mm_visibilityTimer (ms_heap (fire i s) a)) (ms_timers (fire i s)),
     ms_inFlightGroups := (if grouped (fire i s) a
       then (ms_inFlightGroups (fire i s))(group_of (fire i s) a := False)
       else ms_inFlightGroups (fire i s)),
     ms_messageGroups := G, ms_messages := remove1 a (ms_messages (fire i s)) \<rparr>"
    using removeMessage_eq by blast
  define s2 where "s2 = snd (DeleteMessage h (fire i s))"
  have del: "fst (DeleteMessage h (fire i s)) = None" using fh by (simp add: DeleteMessage_def)
  have s2: "ms_heap s2 = ms_heap s" "ms_messages s2 = remove1 a (ms_messages s)"
    "ms_closed s2 = ms_closed s" "ms_isFifo s2 = ms_isFifo s" "ms_timers s2 i = Some ?tm"
    "ms_next_timer s2 = ms_next_timer s" "limits_part s2 = limits_part s"
    using fh tm(1) stop_timers_fired [of "ms_timers (fire i s)" i ?tm]
    by (simp_all add: s2_def DeleteMessage_def notifyWaiters_def rm limits_part_def)
       (simp_all add: fire_def)
  have d2: "distinct (ms_messages s2)" "\<not> ms_closed s2" "a \<notin> set (ms_messages s2)"
    using s2 mem_inv_distinct [OF inv] run(3) by simp_all
  define s3 where "s3 = snd (receive_poll E n vt t rnd s2)"
  have a_out: "a \<notin> set (picks n t s2)" using picks_subset [of a n t s2] d2(3) by blast
  have bs: "b \<in> set (picks n t s2)" using b(1) by (simp add: s2_def)
  then have ba: "b \<noteq> a" using a_out by blast
  have "ms_heap s3 a = ms_heap s a"
    using poll_open(3) [OF d2(1,2) a_out] s2(1) by (simp add: s3_def)
  moreover obtain nonce where m: "mm_msg (ms_heap s3 b) = delivered E vt t nonce s2 b"
    "handle_of s3 b = ReceiptHandle (mm_msg (ms_heap s3 b))"
    using poll_open(4) [OF d2(1,2) bs, where E = E and vt = vt and rnd = rnd] by (auto simp: s3_def)
  moreover have "handle_of s3 b \<noteq> ''''" "group_of s3 b = group_of s b"
    using m handle_nonempty [OF run(2)] s2(1) by (simp_all add: delivered_def Let_def)
  moreover have "b \<in> set (ms_messages s3)"
    using poll_open(2) [OF d2(1,2)] picks_subset [OF bs] by (simp add: s3_def)
  moreover have "ms_closed s3 = ms_closed s"
    using poll_open(5) [OF d2(1,2)] s2(3) by (simp add: s3_def)
  moreover have "ms_timers s3 i = Some ?tm" "limits_part s3 = limits_part s" "ms_isFifo s3 = ms_isFifo s"
    using poll_fired [of s2 i ?tm] s2 ok(2) by (simp_all add: s3_def)
  ultimately have "run_timer i s3 = (None, notifyWaiters (forget_cell a (show_cell a
      (s3\<lparr> ms_timers := (ms_timers s3)(i := None) \<rparr>)))) \<and> ms_isFifo s3 = ms_isFifo s \<and>
      group_of s3 a = group_of s a \<and> group_of s3 b = group_of s b \<and> handle_of s3 b \<noteq> '''' \<and>
      b \<in> set (ms_messages s3)"
    using ok(4) tm(2) a(3) ha run(3)
    by (auto simp: run_timer_def Let_def must_redrive_def limits_part_def split: timer_body.split)
  then have "b \<in> set (ms_messages (snd (run_timer i s3))) \<and>
      handle_of (snd (run_timer i s3)) b \<noteq> '''' \<and> grouped (snd (run_timer i s3)) b \<and>
      \<not> ms_inFlightGroups (snd (run_timer i s3)) (group_of (snd (run_timer i s3)) b)"
    using a(2) b(2) ba
    by (auto simp: forget_cell_def show_cell_def set_cell_def clear_group_eq notifyWaiters_def
        grouped_def)
  then show ?thesis using del by (simp add: s3_def s2_def)
qed

end
