(* ===== verification/MemoryExamples.thy ===== *)
theory MemoryExamples
  imports MemoryProperties
begin

section \<open>The in-memory store: concrete runs\<close>

text \<open>
  A small environment and a few concrete runs.  They show that the hypotheses of the
  theorems about the memory store can hold, and that without promptness the FIFO promise
  and deletion fail.
\<close>

definition sample_env :: env where
  "sample_env = \<lparr> sha256 = (\<lambda>s. s), hmac = (\<lambda>k d. ''k''),
     marshal_info = (\<lambda>i. Some (RandomNonce i)) \<rparr>"

definition sample_cfg :: "bool \<Rightarrow> int \<Rightarrow> StoreConfig" where
  "sample_cfg fifo maxReceive = \<lparr> cfg_IsFifo = fifo, cfg_ContentBasedDeduplication = False,
     cfg_MaxReceiveCount = maxReceive, cfg_RedriveFunc = Some ''arn:dlq'',
     cfg_MessageRetentionPeriod = 60 \<rparr>"

definition sample_message :: "string \<Rightarrow> string \<Rightarrow> string \<Rightarrow> message" where
  "sample_message body grp dedup = zero_message\<lparr> MessageID := body, Body := body,
     MessageGroupID := grp, MessageDeduplicationID := dedup \<rparr>"

abbreviation at :: "time \<Rightarrow> clock" where
  "at t \<equiv> \<lambda>_. t"

definition secs :: "int \<Rightarrow> time" where
  "secs n = n * 1000000000"

abbreviation "sample_new \<equiv> NewMemoryStore ''q.fifo'' 30 ''secret'' (sample_cfg True 2)"

text \<open>Two messages of the group \<open>g\<close>, the first one received.\<close>

definition sample_s1 :: memory_store where
  "sample_s1 = mem_call sample_env (at (secs 1)) (CSend (sample_message ''m1'' ''g'' ''d1'') 0) sample_new"

definition sample_s2 :: memory_store where
  "sample_s2 = mem_call sample_env (at (secs 2)) (CSend (sample_message ''m2'' ''g'' ''d2'') 0) sample_s1"

definition sample_s3 :: memory_store where
  "sample_s3 = mem_call sample_env (at (secs 3)) (CReceive 10 100 (\<lambda>_. ''n1'')) sample_s2"

lemma sample_receipts: "receipts_ok sample_env"
  by (simp add: receipts_ok_def sample_env_def)

lemma sample_run1: "prompt_run sample_env 1 sample_new sample_s1"
  unfolding sample_s1_def One_nat_def
  by (rule prompt_run.Step [OF prompt_run.Nil prompt_step.Call])

lemma sample_run2: "prompt_run sample_env 2 sample_new sample_s2"
  unfolding sample_s2_def numeral_2_eq_2 One_nat_def [symmetric]
  by (rule prompt_run.Step [OF sample_run1 prompt_step.Call])

lemma sample_run3: "prompt_run sample_env 3 sample_new sample_s3"
  unfolding sample_s3_def numeral_3_eq_3 numeral_2_eq_2 [symmetric]
  by (rule prompt_run.Step [OF sample_run2 prompt_step.Call])

lemma sample_facts:
  "ms_messages sample_s3 = [0, 1]" "ms_isFifo sample_s3" "\<not> ms_closed sample_s3"
  "group_of sample_s3 0 = ''g''" "handle_of sample_s3 0 \<noteq> ''''"
  "mm_visibleAt (ms_heap sample_s3 0) = secs 103"
  by code_simp+

subsection \<open>Witnesses\<close>

lemma sample_facts2:
  "ms_messages sample_s2 = [0, 1]" "\<not> ms_closed sample_s2" "grouped sample_s2 0"
  "group_of sample_s2 1 = group_of sample_s2 0" "picks 10 (secs 3) sample_s2 = [0]"
  "ms_visibilityTimeout sample_s2 = 30" "\<not> expired (secs 3) sample_s2 0"
  "\<not> expired (secs 3) sample_s2 1"
  by code_simp+

lemma sample_facts3:
  "grouped sample_s3 0" "expired (secs 70) sample_s3 0" "ms_timers sample_s3 0 \<noteq> None"
  "ms_maxReceiveCount sample_s3 = 2"
  "mm_receiveCount (ms_heap sample_s3 0) = 1"
  by code_simp+

lemma sample_find: "find_handle (handle_of sample_s3 0) sample_s3 = Some 0"
  by (simp add: find_handle_def sample_facts)

lemma sample_group1: "group_of sample_s3 1 = ''g''"
  by code_simp

lemmas sample_suc = sample_facts2 [unfolded One_nat_def] sample_facts3 [unfolded One_nat_def]
  sample_group1 [unfolded One_nat_def]

lemma sample_timer: "ms_timers sample_s3 0 = Some \<lparr> tm_body = OnReceive, tm_cell = 0,
   tm_handle = handle_of sample_s3 0, tm_deadline = secs 103, tm_fired = False \<rparr>"
  by code_simp


lemma receive_exclusive_witness:
  "0 \<notin> set (picks 10 (secs 50) (mem_call sample_env (at (secs 40)) (CReceive 10 30 (\<lambda>_. ''n2'')) sample_s3))"
proof -
  have "run_before sample_env (secs 103) (handle_of sample_s3 0) sample_s3
      (mem_call sample_env (at (secs 40)) (CReceive 10 30 (\<lambda>_. ''n2'')) sample_s3)"
    by (rule run_before.Call_before [OF run_before.Start]) (simp_all add: secs_def)
  from receive_exclusive [OF sample_run3 sample_receipts _ _ _ this, of 0 "secs 50" 10]
  show ?thesis by (simp add: sample_facts secs_def)
qed

lemma fifo_one_in_flight_witness:
  "grouped sample_s3 0 \<and> handle_of sample_s3 0 \<noteq> '''' \<and> handle_of sample_s3 1 = ''''"
  using fifo_one_in_flight [OF sample_run3 sample_receipts, of 0]
    fifo_one_in_flight [OF sample_run3 sample_receipts, of 1]
  by (auto simp: sample_facts sample_facts3 sample_suc)

lemma fifo_batch_groups_witness:
  "receivable (secs 3) sample_s2 1 \<and> 1 \<notin> set (picks 10 (secs 3) sample_s2)"
proof
  show "receivable (secs 3) sample_s2 1" by code_simp
  show "1 \<notin> set (picks 10 (secs 3) sample_s2)"
  proof
    assume "1 \<in> set (picks 10 (secs 3) sample_s2)"
    moreover have "0 \<in> set (picks 10 (secs 3) sample_s2)" by (simp add: sample_facts2)
    ultimately have "(1::nat) = 0"
      using fifo_batch_groups [of sample_s2 0 10 "secs 3" 1] sample_facts2 by simp
    then show False by simp
  qed
qed

definition sample_s4 :: memory_store where
  "sample_s4 = mem_call sample_env (at (secs 80)) (CSend (sample_message ''m3'' ''g'' ''d3'') 0)
     (mem_call sample_env (at (secs 70)) (CReceive 10 30 (\<lambda>_. ''n2'')) sample_s3)"

lemma expired_in_flight_blocks_group_witness:
  "ms_messages sample_s4 = [2] \<and> group_of sample_s4 2 = ''g'' \<and> picks 10 (secs 90) sample_s4 = []"
proof (intro conjI)
  show m: "ms_messages sample_s4 = [2]" and g: "group_of sample_s4 2 = ''g''" by code_simp+
  have "run_without_purge sample_env
      (mem_call sample_env (at (secs 70)) (CReceive 10 30 (\<lambda>_. ''n2'')) sample_s3) sample_s4"
    unfolding sample_s4_def by (rule run_without_purge.Then_call [OF run_without_purge.Here]) simp
  from expired_in_flight_blocks_group [OF sample_run3 sample_receipts _ _ _ _ _ this,
      of 0 10 "secs 90"]
  have "\<forall>b \<in> set (picks 10 (secs 90) sample_s4). group_of sample_s4 b \<noteq> ''g''"
    by (simp add: sample_facts sample_facts3)
  moreover have "set (picks 10 (secs 90) sample_s4) \<subseteq> {2}"
    using picks_subset [of _ 10 "secs 90" sample_s4] m by auto
  ultimately show "picks 10 (secs 90) sample_s4 = []"
    using g by (cases "picks 10 (secs 90) sample_s4") auto
qed

lemma in_flight_armed_witness:
  "\<exists>i tm. ms_timers sample_s3 i = Some tm \<and> tm_cell tm = 0 \<and> tm_deadline tm = secs 103"
  using in_flight_armed [OF sample_run3 sample_receipts, of 0] by (auto simp: sample_facts)

lemma timer_releases_or_redrives_witness:
  "\<exists>s'. run_timer 0 sample_s3 = (None, s') \<and> receivable (secs 103) s' 0"
proof -
  obtain tm where tm: "ms_timers sample_s3 0 = Some tm" using sample_facts3 by auto
  have "tm = \<lparr> tm_body = OnReceive, tm_cell = 0, tm_handle = handle_of sample_s3 0,
      tm_deadline = secs 103, tm_fired = False \<rparr>"
    using tm sample_timer by simp
  then show ?thesis
    using timer_releases_or_redrives [OF sample_run3 sample_receipts _ tm, of 0 "secs 103"]
    by (auto simp: sample_facts sample_facts3)
qed

lemma delete_by_handle_witness:
  "fst (DeleteMessage (handle_of sample_s3 0) sample_s3) = None \<and>
   ms_messages (snd (DeleteMessage (handle_of sample_s3 0) sample_s3)) = [1]"
  using delete_by_handle [of sample_s3 "handle_of sample_s3 0"]
  by (simp add: sample_facts sample_facts3 sample_find)

lemma change_visibility_witness:
  "\<exists>s'. ChangeMessageVisibility (at (secs 5)) (handle_of sample_s3 0) 0 sample_s3 = (None, s') \<and>
     receivable (secs 5) s' 0"
  using change_visibility [of "handle_of sample_s3 0" sample_s3 0 "at (secs 5)" 0] sample_find
  by auto

lemma receive_zero_is_default_witness:
  "0 \<notin> set (picks 10 (secs 3) (snd (ReceiveNow sample_env (at (secs 3)) (\<lambda>_. ''n'') 10 0 sample_s2)))"
  by (rule receive_zero_is_default [THEN conjunct2, THEN bspec])
     (simp_all add: sample_facts2 MaxVisibilityTimeout_def)

lemma receive_moves_counts_witness:
  "ApproximateNumberOfMessages (secs 3)
     (snd (receive_poll sample_env 10 100 (secs 3) (\<lambda>_. ''n1'') sample_s2)) = 1"
proof -
  obtain r s' where r: "receive_poll sample_env 10 100 (secs 3) (\<lambda>_. ''n1'') sample_s2 = (r, s')"
    by fastforce
  have "ApproximateNumberOfMessages (secs 3) sample_s2 = 2" by code_simp
  then show ?thesis
    using receive_moves_counts [OF _ _ sample_receipts _ _ _ r refl]
    by (simp add: sample_facts2 sample_suc r)
qed


lemma fifo_sequence_numbers_witness:
  "\<exists>k l. SequenceNumber (mm_msg (ms_heap sample_s3 0)) = itoa k \<and>
     SequenceNumber (mm_msg (ms_heap sample_s3 1)) = itoa l \<and> k < l"
  using fifo_sequence_numbers [OF sample_run3 sample_receipts]
  by (simp add: sample_facts) (simp add: sample_cfg_def)

lemma purge_resets_witness:
  "ms_messages (Purge sample_s3) = [] \<and> ms_timers (Purge sample_s3) 0 = None"
  using purge_resets [OF sample_run3 sample_receipts] sample_facts by (simp add: sample_cfg_def)


abbreviation "sample_std \<equiv> NewMemoryStore ''q'' 30 ''secret'' (sample_cfg False 1)"

lemma send_wakes_receiver_witness:
  "0 \<in> set (picks 10 (secs 2)
     (snd (snd (SendMessage sample_env (at (secs 1)) (sample_message ''m1'' '''' '''') 0 sample_std))))"
proof -
  let ?m = "sample_message ''m1'' '''' ''''"
  obtain r m' s' where r: "SendMessage sample_env (at (secs 1)) ?m 0 sample_std = (r, m', s')"
    by (metis prod_cases3)
  have "\<not> ms_closed sample_std" "\<not> ms_isFifo sample_std" "ms_messages sample_std = []"
    "ms_next_cell sample_std = 0"
    "\<not> expired (secs 2) (snd (snd (SendMessage sample_env (at (secs 1)) ?m 0 sample_std))) 0"
    by code_simp+
  then show ?thesis
    using send_wakes_receiver [OF _ _ _ _ r, of "secs 2" 10] r by (simp add: secs_def)
qed

subsection \<open>What a late timer body does\<close>

definition late_deleted :: memory_store where
  "late_deleted = snd (DeleteMessage (handle_of sample_s3 0) (fire 0 sample_s3))"

lemma late_pick: "1 \<in> set (picks 10 (secs 5) late_deleted)"
proof -
  have "find_handle (handle_of sample_s3 0) (fire 0 sample_s3) = Some 0"
    by (simp add: find_handle_def fire_def sample_facts)
  then have "late_deleted = notifyWaiters (removeMessage 0 (fire 0 sample_s3))"
    by (simp add: late_deleted_def DeleteMessage_def)
  moreover have "1 \<in> set (picks 10 (secs 5) (notifyWaiters (removeMessage 0 (fire 0 sample_s3))))"
    by code_simp
  ultimately show ?thesis by simp
qed

lemma late_timer_frees_group_witness:
  "\<exists>s3. handle_of s3 1 \<noteq> '''' \<and> grouped s3 1 \<and> \<not> ms_inFlightGroups s3 (group_of s3 1)"
proof -
  have not_due: "\<not> must_redrive sample_s3 0"
    by (simp add: must_redrive_def sample_facts3)
  have grp: "group_of sample_s3 1 = group_of sample_s3 0"
    by (simp only: sample_group1 sample_facts)
  show ?thesis
    using late_timer_frees_group [OF sample_run3 sample_receipts sample_facts(3) sample_find
        sample_facts3(1) not_due sample_timer _ late_pick [unfolded late_deleted_def] grp]
    by auto
qed

definition late_sent :: memory_store where
  "late_sent = mem_call sample_env (at (secs 1)) (CSend (sample_message ''m1'' '''' '''') 0) sample_std"

definition late_received :: memory_store where
  "late_received = mem_call sample_env (at (secs 2)) (CReceive 1 30 (\<lambda>_. ''n1'')) late_sent"

text \<open>
  A message that was deleted, with the deletion acknowledged, can still be redriven:
  when its timer fired just before the deletion, the body finds the handle it expects and
  hands the deleted message to the dead-letter queue.
\<close>

theorem late_timer_redrives_deleted:
  "\<exists>s h m. racy_run sample_env sample_std s \<and> fst (DeleteMessage h s) = None \<and>
     ms_messages (snd (DeleteMessage h s)) = [] \<and>
     fst (run_timer 0 (snd (DeleteMessage h s))) = Some m \<and> Body m = ''m1''"
proof -
  let ?h = "handle_of late_received 0"
  let ?s = "fire 0 late_received"
  have t: "ms_timers late_received 0 \<noteq> None" by code_simp
  have run: "racy_run sample_env sample_std ?s"
  proof -
    have "racy_run sample_env sample_std late_received"
      unfolding late_received_def late_sent_def by (intro racy_call racy_run.RNil)
    then show ?thesis using t racy_fire by fastforce
  qed
  have facts: "ms_messages late_received = [0]" "?h \<noteq> ''''" by code_simp+
  then have "find_handle ?h ?s = Some 0" by (simp add: find_handle_def fire_def)
  then have del: "DeleteMessage ?h ?s = (None, notifyWaiters (removeMessage 0 ?s))"
    by (simp add: DeleteMessage_def)
  have "map_option Body (fst (run_timer 0 (notifyWaiters (removeMessage 0 ?s)))) = Some ''m1''"
    by code_simp
  then obtain m where "fst (run_timer 0 (snd (DeleteMessage ?h ?s))) = Some m" "Body m = ''m1''"
    unfolding del by auto
  moreover have "ms_messages (notifyWaiters (removeMessage 0 ?s)) = []"
    using facts by (simp add: notifyWaiters_def removeMessage_simps fire_def)
  ultimately show ?thesis using run del by (metis fst_conv snd_conv)
qed

end
