(* ===== verification/MoveTask.thy ===== *)
theory MoveTask
  imports QueueManager MemoryExamples
begin

section \<open>Message move tasks\<close>

text \<open>
  \<^verbatim>\<open>pkgs/v1/queue/dlq/move_task.go\<close>.  A task moves the messages of a dead-letter queue to
  another queue from a goroutine of its own; the manager keeps the tasks by handle.  The two
  lookup functions the manager is wired with are arguments of \<open>StartTask\<close>; a queue
  reference is a queue.
\<close>

datatype MoveTaskStatus = RUNNING | COMPLETED | CANCELLING | CANCELLED | FAILED

record MoveTask =
  mt_taskHandle :: string
  mt_sourceArn :: string
  mt_destinationArn :: string
  mt_status :: MoveTaskStatus
  mt_maxNumberOfMessagesPerSecond :: int
  mt_movedMessages :: int
  mt_startedAt :: time
  mt_completedAt :: "time option"
  mt_cancelled :: bool

type_synonym move_tasks = "(string \<times> MoveTask) list"

definition CompletedAt :: "MoveTask \<Rightarrow> time" where
  "CompletedAt t = (case mt_completedAt t of Some c \<Rightarrow> c | None \<Rightarrow> zero_time)"

definition taskTTL :: int where
  "taskTTL = 24 * 3600 * 1000000000"

definition is_stale :: "time \<Rightarrow> MoveTask \<Rightarrow> bool" where
  "is_stale now t =
     (if mt_status t = RUNNING \<or> mt_status t = CANCELLING then False
      else
        let reference = (if IsZero (CompletedAt t) then mt_startedAt t else CompletedAt t)
        in now - reference > taskTTL)"

definition removeStaleTasks :: "time \<Rightarrow> move_tasks \<Rightarrow> move_tasks" where
  "removeStaleTasks now tasks = filter (\<lambda>(h, t). \<not> is_stale now t) tasks"

text \<open>The queue that redrives to the source, when no destination is given.\<close>

fun find_redriver :: "json_policy \<Rightarrow> string \<Rightarrow> 's queue list \<Rightarrow> 's queue option" where
  "find_redriver J sourceArn [] = None"
| "find_redriver J sourceArn (q # qs) =
     (let rpStr = qa_RedrivePolicy (q_attributes q) in
      if rpStr = '''' then find_redriver J sourceArn qs
      else case ParseRedrivePolicy J rpStr of
             Inl e \<Rightarrow> find_redriver J sourceArn qs
           | Inr rp \<Rightarrow> if DeadLetterTargetArn rp = sourceArn then Some q
                       else find_redriver J sourceArn qs)"

text \<open>
  \<open>StartTask\<close> up to the start of the goroutine: the new task, with the two queues the
  goroutine works on.
\<close>

definition StartTask ::
  "json_policy \<Rightarrow> (string \<Rightarrow> go_error + 's queue) \<Rightarrow> (string \<Rightarrow> 's queue list) \<Rightarrow> string \<Rightarrow> time
   \<Rightarrow> string \<Rightarrow> string \<Rightarrow> int \<Rightarrow> move_tasks \<Rightarrow> (go_error + MoveTask \<times> 's queue \<times> 's queue) \<times> move_tasks"
where
  "StartTask J lookupFn listFn handle now sourceArn destinationArn maxRate tasks =
     (if sourceArn = '''' then (Inl (Errorf ''source ARN is required''), tasks)
      else if destinationArn \<noteq> '''' \<and> sourceArn = destinationArn then
        (Inl (Errorf ''source and destination ARNs must be different''), tasks)
      else
        case lookupFn sourceArn of
          Inl e \<Rightarrow> (Inl (Errorf (''source queue not found: '' @ error_text e)), tasks)
        | Inr sourceQueue \<Rightarrow>
            let dest =
              (if destinationArn = '''' then
                 (case find_redriver J sourceArn (listFn '''') of
                    None \<Rightarrow> Inl (Errorf (''no source queue found for DLQ ARN: '' @ sourceArn))
                  | Some q \<Rightarrow> Inr (q, qa_QueueArn (q_attributes q)))
               else
                 (case lookupFn destinationArn of
                    Inl e \<Rightarrow> Inl (Errorf (''destination queue not found: '' @ error_text e))
                  | Inr q \<Rightarrow> Inr (q, destinationArn)))
            in case dest of
                 Inl e \<Rightarrow> (Inl e, tasks)
               | Inr (destQueue, arn) \<Rightarrow>
                   let task = \<lparr> mt_taskHandle = handle, mt_sourceArn = sourceArn,
                                mt_destinationArn = arn, mt_status = RUNNING,
                                mt_maxNumberOfMessagesPerSecond = maxRate, mt_movedMessages = 0,
                                mt_startedAt = now, mt_completedAt = None, mt_cancelled = False \<rparr>
                   in (Inr (task, sourceQueue, destQueue), AList.update handle task tasks))"

definition CancelTask :: "string \<Rightarrow> move_tasks \<Rightarrow> (go_error + int) \<times> move_tasks" where
  "CancelTask taskHandle tasks =
     (case map_of tasks taskHandle of
        None \<Rightarrow> (Inl (Errorf (''task not found: '' @ taskHandle)), tasks)
      | Some task \<Rightarrow>
          if mt_status task \<noteq> RUNNING then (Inr (mt_movedMessages task), tasks)
          else (Inr (mt_movedMessages task),
                AList.update taskHandle (task\<lparr> mt_status := CANCELLING, mt_cancelled := True \<rparr>) tasks))"

definition ListTasks :: "string \<Rightarrow> move_tasks \<Rightarrow> MoveTask list" where
  "ListTasks sourceArn tasks =
     filter (\<lambda>t. sourceArn = '''' \<or> mt_sourceArn t = sourceArn) (map snd tasks)"

definition GetTask :: "string \<Rightarrow> move_tasks \<Rightarrow> MoveTask option" where
  "GetTask taskHandle tasks = map_of tasks taskHandle"

definition setTaskStatus :: "time \<Rightarrow> MoveTaskStatus \<Rightarrow> MoveTask \<Rightarrow> MoveTask" where
  "setTaskStatus now status task =
     (if status = COMPLETED \<or> status = CANCELLED \<or> status = FAILED
      then task\<lparr> mt_status := status, mt_completedAt := Some now \<rparr>
      else task\<lparr> mt_status := status \<rparr>)"

subsection \<open>The goroutine of a task\<close>

text \<open>
  A \<open>round\<close> is one turn of the loop: what the select on top finds, the clock readings and
  nonces of the store calls, what it finds before each message, and what other goroutines
  did to the two stores before it.  The ticker only delays.  When the rounds run out the
  task is still running: the last component is \<open>False\<close>.
\<close>

record 's round =
  rd_stop :: bool
  rd_now :: clock
  rd_nonces :: "nat \<Rightarrow> string"
  rd_cancelled :: "nat \<Rightarrow> bool"
  rd_send_now :: "nat \<Rightarrow> clock"
  rd_end :: time
  rd_others :: "'s \<Rightarrow> 's \<Rightarrow> 's \<times> 's"

fun move_messages ::
  "'s store_ops \<Rightarrow> (nat \<Rightarrow> bool) \<Rightarrow> (nat \<Rightarrow> clock) \<Rightarrow> nat \<Rightarrow> message list \<Rightarrow> MoveTask \<times> 's \<times> 's
   \<Rightarrow> bool \<times> MoveTask \<times> 's \<times> 's" where
  "move_messages ops cancelled now k [] st = (False, st)"
| "move_messages ops cancelled now k (msg # msgs) (task, src, dst) =
     (if cancelled k then (True, task, src, dst)
      else
        let msg1 = PrepareForRedrive msg;
            (err, msg2, dst1) = op_SendMessage ops (now k) msg1 0 dst
        in if err \<noteq> None then move_messages ops cancelled now (Suc k) msgs (task, src, dst1)
           else
             let (derr, src1) = op_DeleteMessage ops (ReceiptHandle msg2) src
             in move_messages ops cancelled now (Suc k) msgs
                  (task\<lparr> mt_movedMessages := mt_movedMessages task + 1 \<rparr>, src1, dst1))"

fun runTask ::
  "'s store_ops \<Rightarrow> 's round list \<Rightarrow> MoveTask \<times> 's \<times> 's \<Rightarrow> bool \<times> MoveTask \<times> 's \<times> 's" where
  "runTask ops [] st = (False, st)"
| "runTask ops (r # rs) (task, src0, dst0) =
     (let (src, dst) = rd_others r src0 dst0 in
      if rd_stop r then (True, setTaskStatus (rd_end r) CANCELLED task, src, dst)
      else
        case op_ReceiveMessages ops (rd_now r) (rd_nonces r) 10 30 src of
          (Inl e, redriven, src1) \<Rightarrow> (True, setTaskStatus (rd_end r) FAILED task, src1, dst)
        | (Inr messages, redriven, src1) \<Rightarrow>
            if messages = [] then (True, setTaskStatus (rd_end r) COMPLETED task, src1, dst)
            else
              let (stopped, task', src', dst') =
                    move_messages ops (rd_cancelled r) (rd_send_now r) 0 messages (task, src1, dst)
              in if stopped then (True, setTaskStatus (rd_end r) CANCELLED task', src', dst')
                 else runTask ops rs (task', src', dst'))"

subsection \<open>Status and cleanup\<close>

text \<open>
  The cleanup removes exactly the tasks that ended more than 24 hours ago: a running or
  cancelling task stays whatever its age.
\<close>

theorem removeStaleTasks_spec:
  assumes "(h, t) \<in> set tasks" "mt_completedAt t = Some ended" "\<not> IsZero ended"
  shows "(h, t) \<in> set (removeStaleTasks now tasks) \<longleftrightarrow>
    mt_status t = RUNNING \<or> mt_status t = CANCELLING \<or> now - ended \<le> taskTTL"
  using assms by (auto simp: removeStaleTasks_def is_stale_def CompletedAt_def Let_def)
lemma removeStaleTasks_spec_witness:
  "(''h'', \<lparr> mt_taskHandle = ''h'', mt_sourceArn = ''a'', mt_destinationArn = ''b'',
      mt_status = COMPLETED, mt_maxNumberOfMessagesPerSecond = 0, mt_movedMessages = 3,
      mt_startedAt = 0, mt_completedAt = Some 5, mt_cancelled = False \<rparr>)
   \<notin> set (removeStaleTasks (taskTTL + 6)
        [(''h'', \<lparr> mt_taskHandle = ''h'', mt_sourceArn = ''a'', mt_destinationArn = ''b'',
          mt_status = COMPLETED, mt_maxNumberOfMessagesPerSecond = 0, mt_movedMessages = 3,
          mt_startedAt = 0, mt_completedAt = Some 5, mt_cancelled = False \<rparr>)])"
  by (subst removeStaleTasks_spec [where ended = 5]) (simp_all add: IsZero_def zero_time_def taskTTL_def)

subsection \<open>The moved messages\<close>

lemma memory_delete_empty [simp]:
  "op_DeleteMessage (memory_ops E) '''' s = (Some (invalid_handle ''''), s)"
proof -
  have "find_handle '''' s = None" by (auto simp: find_handle_def find_None_iff)
  then show ?thesis by (simp add: memory_ops_def DeleteMessage_def)
qed

lemma memory_send_handle [simp]:
  "ReceiptHandle (fst (snd (op_SendMessage (memory_ops E) now m d s))) = ReceiptHandle m"
  by (auto simp: memory_ops_def SendMessage_def fifo_admit_def Let_def)

abbreviation keep_source :: "'s store_ops \<Rightarrow> 's store_ops" where
  "keep_source ops \<equiv> ops\<lparr> op_DeleteMessage := (\<lambda>h s. (None, s)) \<rparr>"

lemma move_messages_keep_source:
  "move_messages (memory_ops E) cancelled now k msgs st =
   move_messages (keep_source (memory_ops E)) cancelled now k msgs st"
proof (induction msgs arbitrary: k st)
  case (Cons m msgs)
  obtain task src dst where st: "st = (task, src, dst)" by (cases st)
  obtain err m2 dst1 where
    send: "op_SendMessage (memory_ops E) (now k) (PrepareForRedrive m) 0 dst = (err, m2, dst1)"
    by (metis prod_cases3)
  then have "ReceiptHandle m2 = ''''"
    using memory_send_handle [of E "now k" "PrepareForRedrive m" 0 dst]
    by (simp add: PrepareForRedrive_def)
  then show ?case by (simp add: st send Cons.IH Let_def)
qed simp

text \<open>
  C39.  Over in-memory stores a move task never deletes from its source: the run is, state for
  state, the run of a goroutine whose deletes do nothing.  \<open>PrepareForRedrive\<close> has
  erased the receipt handle before \<open>runTask\<close> reads it back for \<open>DeleteMessage\<close>.
\<close>

theorem runTask_never_deletes:
  "runTask (memory_ops E) rounds st = runTask (keep_source (memory_ops E)) rounds st"
proof (induction rounds arbitrary: st)
  case Nil
  then show ?case by (cases st) simp
next
  case (Cons r rs)
  obtain task src dst where st: "st = (task, src, dst)" by (cases st)
  show ?case
    by (simp add: st Cons.IH move_messages_keep_source [of E] case_prod_unfold Let_def
        cong: if_cong sum.case_cong)
qed
subsection \<open>Cancelling a task while it ends\<close>

text \<open>
  The status is an atomic value: \<open>CancelTask\<close> loads it under the mutex of the manager and
  stores it in a second step, \<open>setTaskStatus\<close> of the goroutine stores it without the
  mutex.  A state holds the task, whether its goroutine runs, and whether a \<open>CancelTask\<close>
  stands between its load and its store (the mutex admits one).  The goroutine ends as
  cancelled only if it saw the closed channel.
\<close>

type_synonym task_state = "MoveTask \<times> bool \<times> bool"

inductive task_step :: "task_state \<Rightarrow> task_state \<Rightarrow> bool" where
  goroutine_ends:
    "status \<in> {COMPLETED, FAILED} \<or> status = CANCELLED \<and> mt_cancelled t \<Longrightarrow>
     task_step (t, True, c) (setTaskStatus now status t, False, c)"
| goroutine_moves:
    "task_step (t, True, c) (t\<lparr> mt_movedMessages := mt_movedMessages t + 1 \<rparr>, True, c)"
| cancel_loads: "mt_status t = RUNNING \<Longrightarrow> task_step (t, r, False) (t, r, True)"
| cancel_stores:
    "task_step (t, r, True) (t\<lparr> mt_status := CANCELLING, mt_cancelled := True \<rparr>, r, False)"

inductive_cases task_stepE: "task_step (t, r, c) s'"

text \<open>The same moves when a \<open>CancelTask\<close> is not interleaved.\<close>

inductive atomic_step :: "task_state \<Rightarrow> task_state \<Rightarrow> bool" where
  alone: "task_step s s' \<Longrightarrow> \<not> snd (snd s) \<Longrightarrow> \<not> snd (snd s') \<Longrightarrow> atomic_step s s'"
| cancel: "mt_status t = RUNNING \<Longrightarrow>
     atomic_step (t, r, False) (t\<lparr> mt_status := CANCELLING, mt_cancelled := True \<rparr>, r, False)"

definition terminal :: "MoveTaskStatus \<Rightarrow> bool" where
  "terminal status \<longleftrightarrow> status = COMPLETED \<or> status = CANCELLED \<or> status = FAILED"

definition ended_well :: "task_state \<Rightarrow> bool" where
  "ended_well s = (case s of (t, r, c) \<Rightarrow>
     \<not> c \<and> (\<not> r \<longrightarrow> terminal (mt_status t) \<and> mt_completedAt t \<noteq> None))"

lemma atomic_step_ended_well: "atomic_step s s' \<Longrightarrow> ended_well s \<Longrightarrow> ended_well s'"
  by (induction rule: atomic_step.induct)
    (auto simp: ended_well_def terminal_def setTaskStatus_def elim!: task_step.cases)

text \<open>
  When no \<open>CancelTask\<close> overlaps the end of the goroutine, a task whose goroutine has
  ended has a terminal status and an end time, whatever happens afterwards.
\<close>

theorem ended_task_is_terminal:
  assumes "atomic_step\<^sup>*\<^sup>* (t, True, False) (t', False, c)"
  shows "terminal (mt_status t') \<and> mt_completedAt t' \<noteq> None"
proof -
  have "ended_well (t, True, False)" by (simp add: ended_well_def)
  with assms have "ended_well (t', False, c)"
    by (induction rule: rtranclp_induct) (auto intro: atomic_step_ended_well)
  then show ?thesis by (simp add: ended_well_def)
qed

definition sample_task :: MoveTask where
  "sample_task = \<lparr> mt_taskHandle = ''h'', mt_sourceArn = ''a'', mt_destinationArn = ''b'',
     mt_status = RUNNING, mt_maxNumberOfMessagesPerSecond = 0, mt_movedMessages = 0,
     mt_startedAt = 0, mt_completedAt = None, mt_cancelled = False \<rparr>"

lemma ended_task_is_terminal_witness:
  "\<exists>t'. atomic_step\<^sup>*\<^sup>* (sample_task, True, False) (t', False, False) \<and> terminal (mt_status t')"
proof -
  let ?t = "setTaskStatus 7 COMPLETED sample_task"
  have step: "atomic_step\<^sup>*\<^sup>* (sample_task, True, False) (?t, False, False)"
    by (intro r_into_rtranclp alone goroutine_ends) auto
  with ended_task_is_terminal [OF step] show ?thesis by blast
qed

lemma stuck_step:
  "task_step s s' \<Longrightarrow> s = (t, False, False) \<Longrightarrow> mt_status t = CANCELLING \<Longrightarrow> s' = s"
  by (auto elim!: task_step.cases)

text \<open>
  A \<open>CancelTask\<close> that loads the status before the goroutine of a running task ends and
  stores it after leaves a finished task \<open>CANCELLING\<close>: no step changes it any more, and no
  cleanup ever removes it.
\<close>

theorem cancel_race_sticks:
  assumes "mt_status t = RUNNING" "mt_taskHandle t = h"
  shows "\<exists>t'. task_step\<^sup>*\<^sup>* (t, True, False) (t', False, False) \<and> mt_status t' = CANCELLING \<and>
    (\<forall>s. task_step\<^sup>*\<^sup>* (t', False, False) s \<longleftrightarrow> s = (t', False, False)) \<and>
    (\<forall>now. removeStaleTasks now [(h, t')] = [(h, t')])"
proof -
  let ?d = "setTaskStatus 0 COMPLETED t"
  let ?t = "?d\<lparr> mt_status := CANCELLING, mt_cancelled := True \<rparr>"
  have "task_step (t, True, False) (t, True, True)" using assms(1) by (rule cancel_loads)
  moreover have "task_step (t, True, True) (?d, False, True)" by (rule goroutine_ends) simp
  moreover have "task_step (?d, False, True) (?t, False, False)" by (rule cancel_stores)
  ultimately have run: "task_step\<^sup>*\<^sup>* (t, True, False) (?t, False, False)"
    by (meson rtranclp.rtrancl_into_rtrancl r_into_rtranclp)
  have stay: "task_step\<^sup>*\<^sup>* (?t, False, False) s \<longleftrightarrow> s = (?t, False, False)" for s
  proof
    assume "task_step\<^sup>*\<^sup>* (?t, False, False) s"
    then show "s = (?t, False, False)"
      by (induction rule: rtranclp_induct) (auto dest: stuck_step)
  qed simp
  have kept: "\<forall>now. removeStaleTasks now [(h, ?t)] = [(h, ?t)]"
    by (simp add: removeStaleTasks_def is_stale_def)
  from run stay kept show ?thesis by (intro exI [of _ ?t]) simp
qed

lemma cancel_race_sticks_witness:
  "\<exists>t'. task_step\<^sup>*\<^sup>* (sample_task, True, False) (t', False, False) \<and> mt_status t' = CANCELLING"
  using cancel_race_sticks [of sample_task "''h''"] by (auto simp: sample_task_def)

end
