(* ===== verification/ReceiptHandles.thy ===== *)
theory ReceiptHandles
  imports StoreCommon
begin

section \<open>Receipt handles name one delivery\<close>

text \<open>
  The encodings of \<open>GenerateReceiptHandle\<close> lose nothing: base64, the JSON object around it
  and the outer base64 are injective, so a handle determines the text of its receipt.
\<close>

definition base64_value :: "char \<Rightarrow> nat" where
  "base64_value c = (let n = of_char c :: nat in
     if n = 43 then 62 else if n = 47 then 63 else if n \<le> 57 then n + 4
     else if n \<le> 90 then n - 65 else n - 71)"

lemma byte_of: "k < 256 \<Longrightarrow> of_char (char_of (k :: nat)) = k"
  by simp

lemma base64_char_value: "n < 64 \<Longrightarrow> base64_value (base64_char n) = n"
  by (cases "n < 26"; cases "n < 52"; cases "n < 62"; cases "n = 62")
    (simp_all add: base64_char_def base64_value_def Let_def byte_of del: of_char_of, arith)

lemma base64_char_inj: "m < 64 \<Longrightarrow> n < 64 \<Longrightarrow> base64_char m = base64_char n \<longleftrightarrow> m = n"
  by (metis base64_char_value)

lemma base64_char_not:
  "n < 64 \<Longrightarrow> base64_char n \<noteq> CHR ''=''" "n < 64 \<Longrightarrow> base64_char n \<noteq> CHR 0x22"
proof -
  have "of_char (base64_char n) \<noteq> (61 :: nat) \<and> of_char (base64_char n) \<noteq> (34 :: nat)" if "n < 64"
    using that
    by (cases "n < 26"; cases "n < 52"; cases "n < 62"; cases "n = 62")
      (simp_all add: base64_char_def byte_of del: of_char_of, arith)
  then show "n < 64 \<Longrightarrow> base64_char n \<noteq> CHR ''=''" "n < 64 \<Longrightarrow> base64_char n \<noteq> CHR 0x22"
    by auto
qed

text \<open>The two bytes that share a sextet are recovered by division.\<close>

lemma split_sextet:
  assumes "a * k + b = a' * k + b'" "b < k" "b' < (k :: nat)"
  shows "a = a' \<and> b = b'"
proof -
  have "(a * k + b) div k = a" "(a' * k + b') div k = a'" using assms(2,3) by simp_all
  with assms(1) have "a = a'" by simp
  with assms(1) show ?thesis by simp
qed

lemma div_mod_eq: "x div k = y div k \<Longrightarrow> x mod k = y mod k \<Longrightarrow> x = (y :: nat)"
  by (metis div_mult_mod_eq)

abbreviation byte :: "char \<Rightarrow> nat" where "byte \<equiv> of_char"

lemma byte_div: "byte a div 4 < 64" "byte b div 16 < 16" "byte c div 64 < 4"
proof -
  have "byte a < 256" "byte b < 256" "byte c < 256" by simp_all
  then show "byte a div 4 < 64" "byte b div 16 < 16" "byte c div 64 < 4"
    by (simp_all add: less_mult_imp_div_less)
qed

lemma sextets:
  "byte a mod 4 * 16 + byte b div 16 < 64" "byte b mod 16 * 4 + byte c div 64 < 64"
  "byte c mod 64 < 64" "byte a mod 4 * 16 < 64" "byte b mod 16 * 4 < 64"
proof -
  have "byte a mod 4 < 4" "byte b mod 16 < 16" by simp_all
  then show "byte a mod 4 * 16 + byte b div 16 < 64" "byte b mod 16 * 4 + byte c div 64 < 64"
    "byte c mod 64 < 64" "byte a mod 4 * 16 < 64" "byte b mod 16 * 4 < 64"
    using byte_div(2) [of b] byte_div(3) [of c] by (linarith | simp)+
qed

lemma octet1:
  "byte a div 4 = byte x div 4 \<Longrightarrow> byte a mod 4 * 16 + u = byte x mod 4 * 16 + v \<Longrightarrow>
   u < 16 \<Longrightarrow> v < 16 \<Longrightarrow> a = x \<and> u = v"
  using split_sextet [of "byte a mod 4" 16 u "byte x mod 4" v] div_mod_eq [of "byte a" 4 "byte x"]
  by simp

lemma octet2:
  "byte b div 16 = byte y div 16 \<Longrightarrow> byte b mod 16 * 4 + u = byte y mod 16 * 4 + v \<Longrightarrow>
   u < 4 \<Longrightarrow> v < 4 \<Longrightarrow> b = y \<and> u = v"
  using split_sextet [of "byte b mod 16" 4 u "byte y mod 16" v] div_mod_eq [of "byte b" 16 "byte y"]
  by simp

lemma octet3: "byte c div 64 = byte z div 64 \<Longrightarrow> byte c mod 64 = byte z mod 64 \<Longrightarrow> c = z"
  using div_mod_eq [of "byte c" 64 "byte z"] by simp

lemmas base64_eqs = Let_def base64_char_inj base64_char_not byte_div sextets

lemma base64_inj: "base64 s = base64 t \<Longrightarrow> s = t"
proof (induction s arbitrary: t rule: base64.induct)
  case 1
  then show ?case by (metis base64_empty base64.simps(1))
next
  case (2 a)
  then show ?case
    using octet1 [of a _ 0 0]
    by (cases t rule: base64.cases) (auto simp: base64_eqs base64_char_not [symmetric])
next
  case (3 a b)
  show ?case
  proof (cases t rule: base64.cases)
    case t: (3 x y)
    from "3.prems" have "byte a div 4 = byte x div 4"
      "byte a mod 4 * 16 + byte b div 16 = byte x mod 4 * 16 + byte y div 16"
      "byte b mod 16 * 4 = byte y mod 16 * 4"
      by (simp_all add: t base64_eqs)
    then show ?thesis using octet1 [of a x] octet2 [of b y 0 0] byte_div by (simp add: t) blast
  qed (use "3.prems" in \<open>auto simp: base64_eqs base64_char_not [symmetric]\<close>)
next
  case (4 a b c rest)
  show ?case
  proof (cases t rule: base64.cases)
    case t: (4 x y z rest')
    from "4.prems" have eq: "byte a div 4 = byte x div 4"
      "byte a mod 4 * 16 + byte b div 16 = byte x mod 4 * 16 + byte y div 16"
      "byte b mod 16 * 4 + byte c div 64 = byte y mod 16 * 4 + byte z div 64"
      "byte c mod 64 = byte z mod 64" "base64 rest = base64 rest'"
      by (simp_all add: t base64_eqs)
    have a: "a = x \<and> byte b div 16 = byte y div 16"
      using octet1 [OF eq(1,2)] byte_div by simp
    have b: "b = y \<and> byte c div 64 = byte z div 64"
      using octet2 [OF _ eq(3)] a byte_div by simp
    have "c = z" using octet3 [OF _ eq(4)] b by simp
    moreover have "rest = rest'" using "4.IH" eq(5) by (simp add: Let_def)
    ultimately show ?thesis using a b by (simp add: t)
  qed (use "4.prems" in \<open>auto simp: base64_eqs base64_char_not [symmetric]\<close>)
qed

lemma base64_no_quote: "CHR 0x22 \<notin> set (base64 s)"
  by (induction s rule: base64.induct) (auto simp: base64_eqs base64_char_not [symmetric])

lemma json_handle_data:
  "json_handle (base64 d) sig = json_handle (base64 d') sig' \<Longrightarrow> d = d'"
proof -
  let ?q = "CHR 0x22"
  have tw: "takeWhile (\<lambda>c. c \<noteq> ?q) (base64 x @ ?q # y) = base64 x" for x y
    using base64_no_quote [of x] by (auto simp: takeWhile_append)
  assume "json_handle (base64 d) sig = json_handle (base64 d') sig'"
  then have "base64 d = base64 d'"
    using tw by (simp add: json_handle_def Let_def) metis
  then show ?thesis by (rule base64_inj)
qed

text \<open>Different receipts have different JSON texts, as \<open>encoding/json\<close> promises for them.\<close>

definition receipts_differ :: "env \<Rightarrow> bool" where
  "receipts_differ E \<longleftrightarrow>
     (\<forall>i j d. marshal_info E i = Some d \<longrightarrow> marshal_info E j = Some d \<longrightarrow> i = j)"

text \<open>
  C26.  Two deliveries with the same receipt handle, whatever the keys that signed them, are
  deliveries of the same message of the same queue at the same instant with the same nonce.
\<close>

theorem receipt_handle_unique:
  assumes "receipts_differ E" "GenerateReceiptHandle E q mid now secret nonce = Some h"
    "GenerateReceiptHandle E q' mid' now' secret' nonce' = Some h"
  shows "q = q' \<and> mid = mid' \<and> now = now' \<and> nonce = nonce'"
proof -
  let ?i = "\<lparr> QueueName = q, InfoMessageID = mid, ReceiveTimestamp = now, RandomNonce = nonce \<rparr>"
  let ?j = "\<lparr> QueueName = q', InfoMessageID = mid', ReceiveTimestamp = now', RandomNonce = nonce' \<rparr>"
  obtain d where d: "marshal_info E ?i = Some d"
    "h = base64 (json_handle (base64 d) (EncodeToString_hex (hmac E secret d)))"
    using assms(2) by (auto simp: GenerateReceiptHandle_def Let_def split: option.splits)
  obtain d' where d': "marshal_info E ?j = Some d'"
    "h = base64 (json_handle (base64 d') (EncodeToString_hex (hmac E secret' d')))"
    using assms(3) by (auto simp: GenerateReceiptHandle_def Let_def split: option.splits)
  have "d = d'" using d(2) d'(2) base64_inj json_handle_data by metis
  then have "?i = ?j" using assms(1) d(1) d'(1) unfolding receipts_differ_def by blast
  then show ?thesis by simp
qed

lemma GenerateReceiptHandle_Some:
  assumes "receipts_ok E"
  shows "\<exists>h. GenerateReceiptHandle E q mid now secret nonce = Some h"
proof -
  obtain d where "marshal_info E \<lparr> QueueName = q, InfoMessageID = mid, ReceiveTimestamp = now,
      RandomNonce = nonce \<rparr> = Some d"
    using assms unfolding receipts_ok_def by blast
  then show ?thesis by (simp add: GenerateReceiptHandle_def Let_def)
qed

lemma generateReceiptHandle_message:
  assumes "receipts_ok E" "receipts_differ E"
    "generateReceiptHandle E q secret mid now nonce = generateReceiptHandle E q' secret' mid' now' nonce'"
  shows "mid = mid'"
proof -
  obtain h where h: "GenerateReceiptHandle E q mid now secret nonce = Some h"
    using GenerateReceiptHandle_Some [OF assms(1)] by blast
  obtain h' where h': "GenerateReceiptHandle E q' mid' now' secret' nonce' = Some h'"
    using GenerateReceiptHandle_Some [OF assms(1)] by blast
  have "h = h'" using assms(3) h h' by (simp add: generateReceiptHandle_def)
  with receipt_handle_unique [OF assms(2) h] h' show ?thesis by simp
qed
definition two_receipts :: env where
  "two_receipts = \<lparr> sha256 = (\<lambda>s. s), hmac = (\<lambda>k d. ''k''),
     marshal_info = (\<lambda>i.
       if i = \<lparr> QueueName = ''q'', InfoMessageID = ''m1'', ReceiveTimestamp = 5, RandomNonce = ''n'' \<rparr>
       then Some ''a''
       else if i = \<lparr> QueueName = ''q'', InfoMessageID = ''m2'', ReceiveTimestamp = 5, RandomNonce = ''n'' \<rparr>
       then Some ''b'' else None) \<rparr>"

lemma receipt_handle_unique_witness:
  "GenerateReceiptHandle two_receipts ''q'' ''m1'' 5 ''secret'' ''n'' \<noteq>
   GenerateReceiptHandle two_receipts ''q'' ''m2'' 5 ''secret'' ''n''"
proof
  assume eq: "GenerateReceiptHandle two_receipts ''q'' ''m1'' 5 ''secret'' ''n'' =
    GenerateReceiptHandle two_receipts ''q'' ''m2'' 5 ''secret'' ''n''"
  have differ: "receipts_differ two_receipts"
    by (simp add: receipts_differ_def two_receipts_def)
  obtain h where h: "GenerateReceiptHandle two_receipts ''q'' ''m1'' 5 ''secret'' ''n'' = Some h"
    by (simp add: GenerateReceiptHandle_def two_receipts_def Let_def)
  have "''m1'' = (''m2'' :: string)"
    using receipt_handle_unique [OF differ h h [unfolded eq]] by simp
  then show False by simp
qed

text \<open>The handles a store hands out for one message, and that they tell messages apart.\<close>

definition issued :: "env \<Rightarrow> string \<Rightarrow> string \<Rightarrow> string \<Rightarrow> string \<Rightarrow> bool" where
  "issued E queueName secret i h \<longleftrightarrow>
     (\<exists>now nonce. h = generateReceiptHandle E queueName secret i now nonce)"

lemma issued_generated [simp]: "issued E q secret i (generateReceiptHandle E q secret i now nonce)"
  by (auto simp: issued_def)

lemma issued_same:
  "receipts_ok E \<Longrightarrow> receipts_differ E \<Longrightarrow> issued E q secret i h \<Longrightarrow> issued E q secret j h \<Longrightarrow> i = j"
  unfolding issued_def using generateReceiptHandle_message by blast

definition env_ok :: "env \<Rightarrow> bool" where
  "env_ok E \<longleftrightarrow> receipts_ok E \<and> receipts_differ E"

text \<open>Hash functions and a JSON text that meet these hypotheses, for concrete runs.\<close>

fun escaped :: "string \<Rightarrow> string" where
  "escaped [] = ''.''"
| "escaped (c # s) = CHR '':'' # c # escaped s"

lemma escaped_inj: "escaped s @ x = escaped t @ y \<Longrightarrow> s = t \<and> x = y"
proof (induction s arbitrary: t)
  case Nil
  then show ?case by (cases t) auto
next
  case (Cons c s)
  then show ?case by (cases t) auto
qed

definition plain_env :: env where
  "plain_env = \<lparr> sha256 = (\<lambda>s. s), hmac = (\<lambda>k d. ''k''),
     marshal_info = (\<lambda>i. Some (escaped (QueueName i) @ escaped (InfoMessageID i) @
       escaped (RandomNonce i) @ itoa (ReceiveTimestamp i))) \<rparr>"

lemma plain_env_ok [simp]: "env_ok plain_env"
proof -
  have "receipts_differ plain_env"
    unfolding receipts_differ_def
  proof (intro allI impI)
    fix i j d assume "marshal_info plain_env i = Some d" "marshal_info plain_env j = Some d"
    then have "escaped (QueueName i) @ escaped (InfoMessageID i) @ escaped (RandomNonce i) @ itoa (ReceiveTimestamp i) =
        escaped (QueueName j) @ escaped (InfoMessageID j) @ escaped (RandomNonce j) @ itoa (ReceiveTimestamp j)"
      by (simp add: plain_env_def)
    then have "QueueName i = QueueName j" "InfoMessageID i = InfoMessageID j" "RandomNonce i = RandomNonce j"
      "ReceiveTimestamp i = ReceiveTimestamp j"
      using escaped_inj itoa_eq by metis+
    then show "i = j" by simp
  qed
  then show ?thesis by (simp add: env_ok_def receipts_ok_def plain_env_def)
qed

end
