(* ===== verification/StoreContract.thy ===== *)
theory StoreContract
  imports ReceiptHandles
begin

section \<open>What every message store promises\<close>

text \<open>
  The contract behind the interface \<open>Store\<close>, over the laws all three implementations
  keep.  \<open>holds s i h\<close> says that the store has a message with identifier \<open>i\<close> whose
  current receipt handle is \<open>h\<close>, the empty text for none; \<open>visible_ms s i\<close> is when it
  becomes visible, in milliseconds; \<open>tick\<close> is what the store does between two calls.
  Clients of a store are sequences of calls; identifiers are fresh when sent, as the
  UUIDs of the server are.
\<close>

datatype event =
    ESend message int
  | EReceive int int "message list"
  | EDelete string
  | EChange string int
  | EPurge
  | EClose
  | ETick

inductive store_step ::
  "'s store_ops \<Rightarrow> ('s \<Rightarrow> 's \<Rightarrow> bool) \<Rightarrow> ('s \<Rightarrow> string \<Rightarrow> string \<Rightarrow> bool)
   \<Rightarrow> 's \<Rightarrow> event \<Rightarrow> 's \<Rightarrow> bool" for ops tick holds where
  SSend: "op_SendMessage ops now m d s = (err, m', s') \<Longrightarrow> \<forall>h. \<not> holds s (MessageID m) h \<Longrightarrow>
    store_step ops tick holds s (ESend m d) s'"
| SReceive: "op_ReceiveMessages ops now rnd n vt s = (Inr ms, redriven, s') \<Longrightarrow>
    store_step ops tick holds s (EReceive n vt ms) s'"
| SReceiveError: "op_ReceiveMessages ops now rnd n vt s = (Inl e, redriven, s') \<Longrightarrow>
    store_step ops tick holds s (EReceive n vt []) s'"
| SDelete: "op_DeleteMessage ops h s = (err, s') \<Longrightarrow> store_step ops tick holds s (EDelete h) s'"
| SChange: "op_ChangeMessageVisibility ops now h vt s = (err, s') \<Longrightarrow>
    store_step ops tick holds s (EChange h vt) s'"
| SPurge: "op_Purge ops s = (err, s') \<Longrightarrow> store_step ops tick holds s EPurge s'"
| SClose: "op_Close ops s = (err, s') \<Longrightarrow> store_step ops tick holds s EClose s'"
| STick: "tick s s' \<Longrightarrow> store_step ops tick holds s ETick s'"

inductive_cases sendE: "store_step ops tick holds s (ESend m d) s'"
  and receiveE: "store_step ops tick holds s (EReceive n vt ms) s'"
  and deleteE: "store_step ops tick holds s (EDelete h) s'"

inductive store_run ::
  "'s store_ops \<Rightarrow> ('s \<Rightarrow> 's \<Rightarrow> bool) \<Rightarrow> ('s \<Rightarrow> string \<Rightarrow> string \<Rightarrow> bool)
   \<Rightarrow> 's \<Rightarrow> event list \<Rightarrow> 's \<Rightarrow> bool" for ops tick holds where
  RunNil: "store_run ops tick holds s [] s"
| RunStep: "store_step ops tick holds s e s' \<Longrightarrow> store_run ops tick holds s' es s'' \<Longrightarrow>
    store_run ops tick holds s (e # es) s''"

inductive_cases run_NilE: "store_run ops tick holds s [] s'"
  and run_ConsE: "store_run ops tick holds s (e # es) s'"

text \<open>The identifiers an event sends, and those it hands out.\<close>

fun sent_ids :: "event \<Rightarrow> string set" where
  "sent_ids (ESend m d) = {MessageID m}"
| "sent_ids e = {}"

fun received :: "event \<Rightarrow> message set" where
  "received (EReceive n vt ms) = set ms"
| "received e = {}"

text \<open>An event that leaves the visibility of a handle alone.\<close>

fun leaves_handle :: "string \<Rightarrow> event \<Rightarrow> bool" where
  "leaves_handle h (EChange h' vt) \<longleftrightarrow> h' \<noteq> h \<and> h' \<noteq> ''''"
| "leaves_handle h e \<longleftrightarrow> True"

locale message_store =
  fixes ops :: "'s store_ops"
    and inv :: "'s \<Rightarrow> bool"
    and tick :: "'s \<Rightarrow> 's \<Rightarrow> bool"
    and opened :: "'s \<Rightarrow> bool"
    and holds :: "'s \<Rightarrow> string \<Rightarrow> string \<Rightarrow> bool"
    and visible_ms :: "'s \<Rightarrow> string \<Rightarrow> int"
  assumes one_handle: "inv s \<Longrightarrow> holds s i h \<Longrightarrow> holds s i h' \<Longrightarrow> h = h'"
    and send: "inv s \<Longrightarrow> \<forall>h. \<not> holds s (MessageID m) h \<Longrightarrow> op_SendMessage ops now m d s = (err, m', s') \<Longrightarrow>
      inv s' \<and> (i \<noteq> MessageID m \<longrightarrow> (holds s' i h \<longleftrightarrow> holds s i h)) \<and>
      (i \<noteq> MessageID m \<longrightarrow> visible_ms s' i = visible_ms s i)"
    and receive: "inv s \<Longrightarrow> op_ReceiveMessages ops now rnd n vt s = (Inr ms, redriven, s') \<Longrightarrow>
      inv s' \<and> length ms \<le> nat (max 1 n) \<and>
      (\<forall>m \<in> set ms. (\<exists>h. holds s (MessageID m) h) \<and> holds s' (MessageID m) (ReceiptHandle m) \<and>
         ReceiptHandle m \<noteq> '''' \<and>
         visible_ms s (MessageID m) \<le> unix_milli (ReceivedTimestamp m) \<and>
         (0 < vt \<longrightarrow> visible_ms s' (MessageID m) = unix_milli (ReceivedTimestamp m + seconds vt))) \<and>
      (\<forall>i h. i \<notin> MessageID ` set ms \<longrightarrow> holds s' i h \<longrightarrow>
         holds s i h \<and> visible_ms s' i = visible_ms s i)"
    and receive_error: "inv s \<Longrightarrow> op_ReceiveMessages ops now rnd n vt s = (Inl er, redriven, s') \<Longrightarrow>
      inv s' \<and> (holds s' i h \<longrightarrow> holds s i h \<and> visible_ms s' i = visible_ms s i)"
    and delete: "inv s \<Longrightarrow> op_DeleteMessage ops h s = (err, s') \<Longrightarrow>
      inv s' \<and> (holds s' i k \<longrightarrow> holds s i k \<and> visible_ms s' i = visible_ms s i)"
    and delete_held: "inv s \<Longrightarrow> opened s \<Longrightarrow> holds s i h \<Longrightarrow> h \<noteq> '''' \<Longrightarrow>
      op_DeleteMessage ops h s = (err, s') \<Longrightarrow>
      err = None \<and> \<not> holds s' i k \<and> (j \<noteq> i \<longrightarrow> (holds s' j k \<longleftrightarrow> holds s j k))"
    and change: "inv s \<Longrightarrow> op_ChangeMessageVisibility ops now h vt s = (err, s') \<Longrightarrow>
      inv s' \<and> ((\<exists>k. holds s' i k) \<longleftrightarrow> (\<exists>k. holds s i k)) \<and>
      (\<not> holds s i h \<longrightarrow> holds s' i k \<longrightarrow> holds s i k \<and> visible_ms s' i = visible_ms s i)"
    and purge: "inv s \<Longrightarrow> op_Purge ops s = (err, s') \<Longrightarrow> inv s' \<and> (opened s \<longrightarrow> \<not> holds s' i h) \<and>
      (holds s' i h \<longrightarrow> holds s i h \<and> visible_ms s' i = visible_ms s i)"
    and close: "inv s \<Longrightarrow> op_Close ops s = (err, s') \<Longrightarrow> inv s' \<and> \<not> opened s' \<and>
      (holds s' i h \<longrightarrow> holds s i h) \<and> visible_ms s' i = visible_ms s i"
    and ticks: "inv s \<Longrightarrow> tick s s' \<Longrightarrow> inv s' \<and>
      (holds s' i h \<longrightarrow> (holds s i h \<or> h = '''' \<and> (\<exists>k. holds s i k)) \<and> visible_ms s' i = visible_ms s i)"
    and open_stays: "opened s' \<Longrightarrow> store_step ops tick holds s e s' \<Longrightarrow> opened s"
begin

abbreviation step where "step \<equiv> store_step ops tick holds"
abbreviation run where "run \<equiv> store_run ops tick holds"

lemma receive_kept:
  assumes "inv s" "op_ReceiveMessages ops now rnd n vt s = (Inr ms, redriven, s')"
    "i \<notin> MessageID ` set ms" "holds s' i h"
  shows "holds s i h \<and> visible_ms s' i = visible_ms s i"
  using receive [OF assms(1,2)] assms(3,4) by blast

lemma receive_delivered:
  assumes "inv s" "op_ReceiveMessages ops now rnd n vt s = (Inr ms, redriven, s')" "m \<in> set ms"
  shows "\<exists>h. holds s (MessageID m) h" "holds s' (MessageID m) (ReceiptHandle m)"
    "ReceiptHandle m \<noteq> ''''" "visible_ms s (MessageID m) \<le> unix_milli (ReceivedTimestamp m)"
    "0 < vt \<Longrightarrow> visible_ms s' (MessageID m) = unix_milli (ReceivedTimestamp m + seconds vt)"
  using receive [OF assms(1,2)] assms(3) by blast+

lemma step_inv: "step s e s' \<Longrightarrow> inv s \<Longrightarrow> inv s'"
  by (induction rule: store_step.induct)
    (blast dest: send receive receive_error delete change purge close ticks)+

lemma step_source:
  "step s e s' \<Longrightarrow> inv s \<Longrightarrow> holds s' i h \<Longrightarrow> i \<in> sent_ids e \<or> (\<exists>k. holds s i k)"
proof (induction rule: store_step.induct)
  case (SSend now m d s err m' s')
  then show ?case using send [of s m now d err m' s' i h] by auto
next
  case (SReceive now rnd n vt s ms redriven s')
  show ?case
  proof (cases "i \<in> MessageID ` set ms")
    case True
    then show ?thesis using receive_delivered(1) [OF SReceive(2,1)] by blast
  next
    case False
    then show ?thesis using receive_kept [OF SReceive(2,1) False SReceive(3)] by blast
  qed
next
  case (SChange now h' vt s err s')
  then show ?case using change [of s now h' vt err s' i] by auto
qed (auto dest: receive_error delete purge close ticks)

lemma received_source: "step s e s' \<Longrightarrow> inv s \<Longrightarrow> m \<in> received e \<Longrightarrow> \<exists>h. holds s (MessageID m) h"
  by (induction rule: store_step.induct) (auto dest: receive_delivered(1))

text \<open>No message out of nothing.\<close>

lemma run_received:
  "run s es s' \<Longrightarrow> inv s \<Longrightarrow> m \<in> (\<Union>e \<in> set es. received e) \<Longrightarrow>
   (\<exists>h. holds s (MessageID m) h) \<or> MessageID m \<in> (\<Union>e \<in> set es. sent_ids e)"
proof (induction rule: store_run.induct)
  case (RunStep s e s' es s'')
  then show ?case
    using received_source [of s e s' m] step_inv [of s e s'] step_source [of s e s' "MessageID m"]
    by fastforce
qed simp

text \<open>A message that left does not come back.\<close>

lemma gone_stays_gone:
  "run s es s' \<Longrightarrow> inv s \<Longrightarrow> \<forall>h. \<not> holds s i h \<Longrightarrow> i \<notin> (\<Union>e \<in> set es. sent_ids e) \<Longrightarrow>
   m \<in> (\<Union>e \<in> set es. received e) \<Longrightarrow> MessageID m \<noteq> i"
  using run_received [of s es s' m] by auto

text \<open>A delivered message can be deleted with the handle of the delivery, and is gone then.\<close>

lemma delivered_then_deleted:
  assumes "inv s" "step s (EReceive n vt ms) s1" "m \<in> set ms" "step s1 (EDelete (ReceiptHandle m)) s2"
    "opened s1" "run s2 es s3" "MessageID m \<notin> (\<Union>e \<in> set es. sent_ids e)"
    "m' \<in> (\<Union>e \<in> set es. received e)"
  shows "MessageID m' \<noteq> MessageID m"
proof -
  have inv1: "inv s1" using step_inv assms(1,2) by blast
  then have inv2: "inv s2" using step_inv assms(4) by blast
  obtain now rnd redriven where
    r: "op_ReceiveMessages ops now rnd n vt s = (Inr ms, redriven, s1)"
    using assms(2,3) by (auto elim: receiveE)
  note held = receive_delivered(2,3) [OF assms(1) r assms(3)]
  obtain err where "op_DeleteMessage ops (ReceiptHandle m) s1 = (err, s2)"
    using assms(4) by (auto elim: deleteE)
  then have "\<not> holds s2 (MessageID m) k" for k
    using delete_held [OF inv1 assms(5) held] by blast
  then show ?thesis using gone_stays_gone [OF assms(6) inv2 _ assms(7,8)] by blast
qed

text \<open>
  A message in flight, as long as nobody changes its visibility: the store still has it with
  its handle, or with none, hidden until the same instant, or does not have it any more.
\<close>

definition in_flight :: "string \<Rightarrow> string \<Rightarrow> int \<Rightarrow> 's \<Rightarrow> bool" where
  "in_flight i h v s \<longleftrightarrow> (\<forall>k. holds s i k \<longrightarrow> (k = h \<or> k = '''') \<and> visible_ms s i = v)"

lemma step_in_flight:
  assumes "step s e s'" "inv s" "in_flight i h v s" "leaves_handle h e" "i \<notin> sent_ids e"
  shows "in_flight i h v s' \<or> (\<exists>m \<in> received e. MessageID m = i)"
  using assms
proof (induction rule: store_step.induct)
  case (SSend now m d s err m' s')
  then show ?case using send [OF SSend(3,2,1), of i] by (auto simp: in_flight_def)
next
  case (SReceive now rnd n vt s ms redriven s')
  show ?case
  proof (cases "i \<in> MessageID ` set ms")
    case True
    then show ?thesis by auto
  next
    case False
    then have "in_flight i h v s'"
      using SReceive(3) receive_kept [OF SReceive(2,1) False] unfolding in_flight_def by metis
    then show ?thesis by simp
  qed
next
  case (SReceiveError now rnd n vt s e redriven s')
  then show ?case using receive_error [OF SReceiveError(2,1), of i] by (auto simp: in_flight_def)
next
  case (SDelete k s err s')
  then show ?case using delete [OF SDelete(2,1), of i] by (auto simp: in_flight_def)
next
  case (SChange now h' vt s err s')
  have "\<not> holds s i h'" using SChange(3,4) by (auto simp: in_flight_def)
  then show ?case using SChange change [OF SChange(2,1), of i] by (auto simp: in_flight_def)
next
  case (SPurge s err s')
  then show ?case using purge [OF SPurge(2,1), of i] by (auto simp: in_flight_def)
next
  case (SClose s err s')
  then show ?case using close [OF SClose(2,1), of i] by (auto simp: in_flight_def)
next
  case (STick s s')
  then show ?case using ticks [OF STick(2,1), of i] by (fastforce simp: in_flight_def)
qed

lemma run_in_flight:
  assumes "run s es s'" "inv s" "in_flight i h v s" "list_all (leaves_handle h) es"
    "i \<notin> (\<Union>e \<in> set es. sent_ids e)" "\<forall>m \<in> (\<Union>e \<in> set es. received e). MessageID m \<noteq> i"
  shows "in_flight i h v s' \<and> inv s'"
  using assms
proof (induction rule: store_run.induct)
  case (RunStep s e s' es s'')
  have "in_flight i h v s'"
    using step_in_flight [OF RunStep.hyps(1) RunStep.prems(1,2)] RunStep.prems by auto
  then show ?case using RunStep step_inv [OF RunStep.hyps(1)] by simp
qed simp

text \<open>The next delivery of the message comes after its visibility timeout.\<close>

lemma exclusive:
  assumes "inv s" "step s (EReceive n vt ms) s1" "m \<in> set ms" "0 < vt"
    "run s1 es s2" "list_all (leaves_handle (ReceiptHandle m)) es"
    "MessageID m \<notin> (\<Union>e \<in> set es. sent_ids e)"
    "\<forall>m' \<in> (\<Union>e \<in> set es. received e). MessageID m' \<noteq> MessageID m"
    "step s2 (EReceive n' vt' ms') s3" "m' \<in> set ms'" "MessageID m' = MessageID m"
  shows "unix_milli (ReceivedTimestamp m + seconds vt) \<le> unix_milli (ReceivedTimestamp m')"
proof -
  obtain now rnd redriven where
    r: "op_ReceiveMessages ops now rnd n vt s = (Inr ms, redriven, s1)"
    using assms(2,3) by (auto elim: receiveE)
  obtain now' rnd' redriven' where
    r': "op_ReceiveMessages ops now' rnd' n' vt' s2 = (Inr ms', redriven', s3)"
    using assms(9,10) by (auto elim: receiveE)
  let ?v = "unix_milli (ReceivedTimestamp m + seconds vt)"
  have inv1: "inv s1" using step_inv assms(1,2) by blast
  have "holds s1 (MessageID m) (ReceiptHandle m)" "visible_ms s1 (MessageID m) = ?v"
    using receive_delivered [OF assms(1) r assms(3)] assms(4) by auto
  then have "in_flight (MessageID m) (ReceiptHandle m) ?v s1"
    using one_handle [OF inv1] by (auto simp: in_flight_def)
  then have "in_flight (MessageID m) (ReceiptHandle m) ?v s2" "inv s2"
    using run_in_flight [OF assms(5) inv1 _ assms(6,7,8)] by auto
  then show ?thesis
    using receive_delivered(1,4) [OF _ r' assms(10)] assms(11) unfolding in_flight_def by metis
qed

end

end
