(* ===== verification/SqliteStore.thy ===== *)
theory SqliteStore
  imports StoreContract "HOL-Library.Multiset"
begin

section \<open>The SQLite store\<close>

text \<open>
  \<^verbatim>\<open>pkgs/v1/queue/store/sqlite/sqlite.go\<close>.  The queue's table is a list of rows; the
  statements of the code are the filters and updates they denote.  The engine is a
  parameter: the order it gives rows with equal \<open>sent_timestamp\<close>, its cast of text to a
  number, the text of its unique-key error, and \<open>encoding/json\<close> on the attribute columns
  (\<open>Inl\<close> the text of an error) are in \<open>engine\<close>; \<open>fails\<close> tells which
  statements of a call fail, and with what text.  A transaction that fails leaves the table
  as it was.
\<close>

record row =
  r_id :: string
  r_queue_name :: string
  r_body :: string
  r_md5_of_body :: string
  r_md5_of_message_attributes :: string
  r_message_attributes :: string
  r_system_attributes :: string
  r_sent_timestamp :: int
  r_visible_at :: int
  r_receipt_handle :: string
  r_receive_count :: int
  r_first_received_at :: int
  r_sequence_number :: string
  r_message_dedup_id :: string
  r_message_group_id :: string

record engine =
  order_by_sent :: "row list \<Rightarrow> row list"
  cast_integer :: "string \<Rightarrow> int"
  unique_error :: string
  marshal_attrs :: "message_attribute gomap \<Rightarrow> string + string"
  unmarshal_attrs :: "string \<Rightarrow> message_attribute gomap option"

text \<open>The documented behaviour of \<open>ORDER BY\<close>: the same rows, by ascending timestamp.\<close>

definition orders_rows :: "engine \<Rightarrow> bool" where
  "orders_rows D \<longleftrightarrow> (\<forall>rows. mset (order_by_sent D rows) = mset rows \<and>
     sorted (map r_sent_timestamp (order_by_sent D rows)))"

datatype stmt =
  InitSchema | MaxSequence | Insert | DeleteExpired | Select | ScanRow nat | UpdateRow nat
  | Exec | RowsAffected | Count
  | RedriveQuery | RedriveScan nat | BeginTx | Prepare | DeleteRow nat | Commit

type_synonym fails = "stmt \<Rightarrow> string option"

record sqlite_store =
  sq_table :: "row list"
  sq_queueName :: string
  sq_visibilityTimeout :: int
  sq_serverSecret :: string
  sq_closed :: bool
  sq_isFifo :: bool
  sq_contentBasedDeduplication :: bool
  sq_dedupCache :: dedup_cache
  sq_sequenceCounter :: int
  sq_maxReceiveCount :: int
  sq_redriveFunc :: "string option"
  sq_messageRetentionPeriod :: int

subsection \<open>Construction\<close>

text \<open>The regular expression \<open>^[a-zA-Z0-9_.\-]+$\<close>, and the identifier built of a name.\<close>

definition word_byte :: "char \<Rightarrow> bool" where
  "word_byte c = (let n = of_char c :: nat in
     97 \<le> n \<and> n \<le> 122 \<or> 65 \<le> n \<and> n \<le> 90 \<or> 48 \<le> n \<and> n \<le> 57 \<or> n = 95)"

definition validTableName :: "string \<Rightarrow> bool" where
  "validTableName s \<longleftrightarrow>
     s \<noteq> '''' \<and> list_all (\<lambda>c. word_byte c \<or> c = CHR ''.'' \<or> c = CHR ''-'') s"

definition tableName :: "env \<Rightarrow> string \<Rightarrow> string" where
  "tableName E queueName =
     ''queue_'' @ map (\<lambda>r. if word_byte r then r else CHR ''_'') queueName @ ''_'' @
     EncodeToString_hex (take 4 (sha256 E queueName))"

definition sqlite_loadSequenceCounter ::
  "engine \<Rightarrow> fails \<Rightarrow> sqlite_store \<Rightarrow> go_error option \<times> sqlite_store" where
  "sqlite_loadSequenceCounter D fails s =
     (case fails MaxSequence of
        Some e \<Rightarrow> (Some (Errorf (''failed to query max sequence number: '' @ e)), s)
      | None \<Rightarrow>
          (case map (\<lambda>r. cast_integer D (r_sequence_number r))
                  (filter (\<lambda>r. r_sequence_number r \<noteq> '''') (sq_table s)) of
             [] \<Rightarrow> (None, s)
           | m # ms \<Rightarrow>
               (case ParseInt (itoa (foldl max m ms)) of
                  (n, NumOK) \<Rightarrow>
                    (None, if n > sq_sequenceCounter s then s\<lparr> sq_sequenceCounter := n \<rparr> else s)
                | _ \<Rightarrow> (None, s))))"

text \<open>The first argument after the engine is what the database file holds for the queue.\<close>

definition NewSQLiteStore ::
  "engine \<Rightarrow> fails \<Rightarrow> row list \<Rightarrow> string \<Rightarrow> int \<Rightarrow> string \<Rightarrow> StoreConfig
   \<Rightarrow> go_error + sqlite_store" where
  "NewSQLiteStore D fails table queueName visibilityTimeout serverSecret cfg =
     (if \<not> validTableName queueName
      then Inl (Errorf (''invalid queue name for SQLite table: '' @ quote queueName))
      else
        let s = \<lparr> sq_table = table, sq_queueName = queueName,
                  sq_visibilityTimeout = visibilityTimeout, sq_serverSecret = serverSecret,
                  sq_closed = False, sq_isFifo = cfg_IsFifo cfg,
                  sq_contentBasedDeduplication = cfg_ContentBasedDeduplication cfg,
                  sq_dedupCache = (\<lambda>_. None), sq_sequenceCounter = 0,
                  sq_maxReceiveCount = cfg_MaxReceiveCount cfg,
                  sq_redriveFunc = cfg_RedriveFunc cfg,
                  sq_messageRetentionPeriod = cfg_MessageRetentionPeriod cfg \<rparr>
        in case fails InitSchema of
             Some e \<Rightarrow> Inl (Errorf (''failed to initialize SQLite schema: '' @ e))
           | None \<Rightarrow>
               if sq_isFifo s then
                 (case sqlite_loadSequenceCounter D fails s of
                    (Some e, s') \<Rightarrow>
                      Inl (Errorf (''failed to load sequence counter: '' @ error_text e))
                  | (None, s') \<Rightarrow> Inr s')
               else Inr s)"

subsection \<open>Sending\<close>

definition sqlite_SendMessage ::
  "env \<Rightarrow> engine \<Rightarrow> fails \<Rightarrow> clock \<Rightarrow> message \<Rightarrow> int \<Rightarrow> sqlite_store
   \<Rightarrow> go_error option \<times> message \<times> sqlite_store" where
  "sqlite_SendMessage E D fails now msg delaySeconds s =
     (if sq_closed s then (Some store_closed, msg, s)
      else
        let (dup, cache, counter, msg1) =
              (if sq_isFifo s
               then fifo_admit E (sq_contentBasedDeduplication s) now (sq_dedupCache s)
                      (sq_sequenceCounter s) msg
               else (False, sq_dedupCache s, sq_sequenceCounter s, msg));
            s1 = s\<lparr> sq_dedupCache := cache, sq_sequenceCounter := counter \<rparr>
        in if dup then (None, msg, s1)
           else
             let visibleAt = (if delaySeconds > 0 then now 2 + seconds delaySeconds else now 2);
                 msg2 = msg1\<lparr> SentTimestamp := now 2, IsVisible := (delaySeconds = 0) \<rparr>
             in case marshal_attrs D (MessageAttributes msg2) of
                  Inl e \<Rightarrow> (Some (Errorf (''failed to marshal message attributes: '' @ e)), msg2, s1)
                | Inr attrsJSON \<Rightarrow>
                    (case marshal_attrs D (SystemAttributes msg2) of
                       Inl e \<Rightarrow> (Some (Errorf (''failed to marshal system attributes: '' @ e)), msg2, s1)
                     | Inr sysAttrsJSON \<Rightarrow>
                         (case fails Insert of
                            Some e \<Rightarrow> (Some (Errorf e), msg2, s1)
                          | None \<Rightarrow>
                              if MessageID msg2 \<in> r_id ` set (sq_table s1)
                              then (Some (Errorf (unique_error D)), msg2, s1)
                              else (None, msg2, s1\<lparr> sq_table := sq_table s1 @
                                [\<lparr> r_id = MessageID msg2, r_queue_name = sq_queueName s1,
                                   r_body = Body msg2, r_md5_of_body = MD5OfBody msg2,
                                   r_md5_of_message_attributes = MD5OfMessageAttributes msg2,
                                   r_message_attributes = attrsJSON,
                                   r_system_attributes = sysAttrsJSON,
                                   r_sent_timestamp = unix_milli (now 2),
                                   r_visible_at = unix_milli visibleAt,
                                   r_receipt_handle = '''', r_receive_count = 0,
                                   r_first_received_at = 0,
                                   r_sequence_number = SequenceNumber msg2,
                                   r_message_dedup_id = MessageDeduplicationID msg2,
                                   r_message_group_id = MessageGroupID msg2 \<rparr>] \<rparr>))))"

subsection \<open>Receiving\<close>

definition sqlite_deleteExpiredMessages :: "fails \<Rightarrow> time \<Rightarrow> sqlite_store \<Rightarrow> sqlite_store" where
  "sqlite_deleteExpiredMessages fails now s =
     (let cutoff = unix_milli (retention_cutoff (sq_messageRetentionPeriod s) now) in
      if fails DeleteExpired \<noteq> None then s
      else s\<lparr> sq_table := filter (\<lambda>r. \<not> r_sent_timestamp r < cutoff) (sq_table s) \<rparr>)"

text \<open>The attributes of a row: text that does not parse is logged and left out.\<close>

definition read_attrs :: "engine \<Rightarrow> string \<Rightarrow> message_attribute gomap" where
  "read_attrs D text =
     (if text \<noteq> '''' \<and> text \<noteq> ''{}'' then
        (case unmarshal_attrs D text of None \<Rightarrow> [] | Some attrs \<Rightarrow> attrs)
      else [])"

definition row_message :: "engine \<Rightarrow> row \<Rightarrow> message" where
  "row_message D r = zero_message\<lparr> MessageID := r_id r, Body := r_body r,
     MD5OfBody := r_md5_of_body r, MD5OfMessageAttributes := r_md5_of_message_attributes r,
     MessageAttributes := read_attrs D (r_message_attributes r),
     SystemAttributes := read_attrs D (r_system_attributes r),
     SentTimestamp := from_unix_milli (r_sent_timestamp r),
     SequenceNumber := r_sequence_number r,
     MessageDeduplicationID := r_message_dedup_id r, MessageGroupID := r_message_group_id r \<rparr>"

text \<open>
  The two \<open>SELECT\<close> statements; a negative \<open>LIMIT\<close> is none.  In the FIFO query no group
  is a reserved value: the empty group is compared like the others.
\<close>

definition limit_rows :: "int \<Rightarrow> row list \<Rightarrow> row list" where
  "limit_rows n rows = (if n < 0 then rows else take (nat n) rows)"

definition in_flight_groups :: "int \<Rightarrow> row list \<Rightarrow> string list" where
  "in_flight_groups nowMs table =
     map r_message_group_id
       (filter (\<lambda>r. r_receipt_handle r \<noteq> '''' \<and> r_visible_at r > nowMs) table)"

definition select_visible :: "engine \<Rightarrow> bool \<Rightarrow> int \<Rightarrow> int \<Rightarrow> row list \<Rightarrow> row list" where
  "select_visible D fifo nowMs maxMessages table =
     limit_rows maxMessages (order_by_sent D (filter (\<lambda>r. r_visible_at r \<le> nowMs \<and>
       (fifo \<longrightarrow> r_message_group_id r \<notin> set (in_flight_groups nowMs table))) table))"

record candidate =
  c_msg :: message
  c_receiveCount :: int
  c_firstReceived :: time

fun scan_candidates ::
  "engine \<Rightarrow> fails \<Rightarrow> bool \<Rightarrow> nat \<Rightarrow> string list \<Rightarrow> row list \<Rightarrow> go_error + candidate list" where
  "scan_candidates D fails fifo k groups [] = Inr []"
| "scan_candidates D fails fifo k groups (r # rs) =
     (case fails (ScanRow k) of
        Some e \<Rightarrow> Inl (Errorf (''failed to scan message: '' @ e))
      | None \<Rightarrow>
          let grp = r_message_group_id r in
          if fifo \<and> grp \<noteq> '''' \<and> grp \<in> set groups
          then scan_candidates D fails fifo (Suc k) groups rs
          else
            (case scan_candidates D fails fifo (Suc k)
                    (if fifo \<and> grp \<noteq> '''' then grp # groups else groups) rs of
               Inl e \<Rightarrow> Inl e
             | Inr cs \<Rightarrow> Inr (\<lparr> c_msg = row_message D r, c_receiveCount = r_receive_count r,
                               c_firstReceived = from_unix_milli (r_first_received_at r) \<rparr> # cs)))"

definition update_where :: "(row \<Rightarrow> bool) \<Rightarrow> (row \<Rightarrow> row) \<Rightarrow> row list \<Rightarrow> row list" where
  "update_where P f table = map (\<lambda>r. if P r then f r else r) table"

fun claim_candidates ::
  "env \<Rightarrow> fails \<Rightarrow> int \<Rightarrow> time \<Rightarrow> time \<Rightarrow> (nat \<Rightarrow> string) \<Rightarrow> nat \<Rightarrow> candidate list
   \<Rightarrow> message list \<Rightarrow> sqlite_store \<Rightarrow> message list \<times> sqlite_store" where
  "claim_candidates E fails maxMessages now newVisibleAt rnd k [] result s = (result, s)"
| "claim_candidates E fails maxMessages now newVisibleAt rnd k (c # cs) result s =
     (let newReceiveCount = c_receiveCount c + 1;
          firstReceived = (if IsZero (c_firstReceived c) then now else c_firstReceived c);
          handle = generateReceiptHandle E (sq_queueName s) (sq_serverSecret s)
                     (MessageID (c_msg c)) now (rnd k)
      in if fails (UpdateRow k) \<noteq> None
         then claim_candidates E fails maxMessages now newVisibleAt rnd (Suc k) cs result s
         else
           let s' = s\<lparr> sq_table := update_where (\<lambda>r. r_id r = MessageID (c_msg c))
                  (\<lambda>r. r\<lparr> r_receipt_handle := handle, r_visible_at := unix_milli newVisibleAt,
                         r_receive_count := newReceiveCount,
                         r_first_received_at := unix_milli firstReceived \<rparr>) (sq_table s) \<rparr>;
               result' = result @ [(c_msg c)\<lparr> ReceiptHandle := handle, IsVisible := False,
                 ApproximateReceiveCount := newReceiveCount, ReceivedTimestamp := now,
                 ApproximateFirstReceiveTimestamp := firstReceived \<rparr>]
           in if int (length result') \<ge> maxMessages then (result', s')
              else claim_candidates E fails maxMessages now newVisibleAt rnd (Suc k) cs result' s')"

text \<open>
  \<open>redriveIfNeededLocked\<close>: the rows that were received often enough and became visible
  again leave the table in one transaction, then their messages go to the callback.
\<close>

fun redrive_scan :: "engine \<Rightarrow> fails \<Rightarrow> nat \<Rightarrow> row list \<Rightarrow> message list" where
  "redrive_scan D fails k [] = []"
| "redrive_scan D fails k (r # rs) =
     (if fails (RedriveScan k) \<noteq> None then redrive_scan D fails (Suc k) rs
      else row_message D r # redrive_scan D fails (Suc k) rs)"

definition redrive_due :: "int \<Rightarrow> int \<Rightarrow> row \<Rightarrow> bool" where
  "redrive_due nowMs maxReceiveCount r \<longleftrightarrow>
     r_visible_at r \<le> nowMs \<and> r_receipt_handle r \<noteq> '''' \<and> r_receive_count r \<ge> maxReceiveCount"

definition sqlite_redriveIfNeeded ::
  "engine \<Rightarrow> fails \<Rightarrow> time \<Rightarrow> sqlite_store \<Rightarrow> message list \<times> sqlite_store" where
  "sqlite_redriveIfNeeded D fails now s =
     (if sq_maxReceiveCount s \<le> 0 \<or> sq_redriveFunc s = None then ([], s)
      else if fails RedriveQuery \<noteq> None then ([], s)
      else
        let toRedrive = redrive_scan D fails 0
              (filter (redrive_due (unix_milli now) (sq_maxReceiveCount s)) (sq_table s))
        in if fails BeginTx \<noteq> None \<or> fails Prepare \<noteq> None \<or>
              (\<exists>i \<in> set [0 ..< length toRedrive]. fails (DeleteRow i) \<noteq> None) \<or>
              fails Commit \<noteq> None
           then ([], s)
           else (map PrepareForRedrive toRedrive,
                 s\<lparr> sq_table := filter (\<lambda>r. r_id r \<notin> MessageID ` set toRedrive) (sq_table s) \<rparr>))"

text \<open>
  One turn of the loop of \<open>ReceiveMessages\<close>, while the mutex is held; the empty list says
  that the caller must wait.  The first component lists what was redriven.
\<close>

definition sqlite_poll ::
  "env \<Rightarrow> engine \<Rightarrow> fails \<Rightarrow> int \<Rightarrow> int \<Rightarrow> clock \<Rightarrow> (nat \<Rightarrow> string) \<Rightarrow> sqlite_store
   \<Rightarrow> (go_error + message list) \<times> message list \<times> sqlite_store" where
  "sqlite_poll E D fails maxMessages vt now rnd s =
     (if sq_closed s then (Inl store_closed, [], s)
      else
        let (redriven, s1) = sqlite_redriveIfNeeded D fails (now 0) s;
            s2 = sqlite_deleteExpiredMessages fails (now 1) s1
        in case fails Select of
             Some e \<Rightarrow> (Inl (Errorf (''failed to query messages: '' @ e)), redriven, s2)
           | None \<Rightarrow>
               (case scan_candidates D fails (sq_isFifo s2) 0 []
                       (select_visible D (sq_isFifo s2) (unix_milli (now 2)) maxMessages
                          (sq_table s2)) of
                  Inl e \<Rightarrow> (Inl e, redriven, s2)
                | Inr candidates \<Rightarrow>
                    let (result, s3) = claim_candidates E fails maxMessages (now 2)
                          (now 2 + seconds vt) rnd 0 candidates [] s2
                    in (Inr result, redriven, s3)))"

definition sqlite_timeout :: "int \<Rightarrow> sqlite_store \<Rightarrow> int" where
  "sqlite_timeout visibilityTimeout s =
     (if visibilityTimeout \<le> 0 then sq_visibilityTimeout s else visibilityTimeout)"

text \<open>
  The whole call.  Between two turns it sleeps without the mutex: a turn gives the clock,
  the nonces and the failing statements of the turn, the time left when it ends, what other
  goroutines do meanwhile, and whether the sleep ended or the context.
\<close>

record sqlite_turn =
  st_now :: clock
  st_nonces :: "nat \<Rightarrow> string"
  st_fails :: fails
  st_remaining :: int
  st_others :: "sqlite_store \<Rightarrow> sqlite_store"
  st_slept :: bool

fun sqlite_turns ::
  "env \<Rightarrow> engine \<Rightarrow> int \<Rightarrow> int \<Rightarrow> int \<Rightarrow> sqlite_turn list \<Rightarrow> sqlite_store
   \<Rightarrow> (go_error + message list) option \<times> message list \<times> sqlite_store" where
  "sqlite_turns E D maxMessages vt waitTimeSeconds [] s = (None, [], s)"
| "sqlite_turns E D maxMessages vt waitTimeSeconds (p # ps) s =
     (case sqlite_poll E D (st_fails p) maxMessages vt (st_now p) (st_nonces p) s of
        (Inl e, redriven, s') \<Rightarrow> (Some (Inl e), redriven, s')
      | (Inr result, redriven, s') \<Rightarrow>
          if result \<noteq> [] then (Some (Inr result), redriven, s')
          else if waitTimeSeconds \<le> 0 then (Some (Inr []), redriven, s')
          else if st_remaining p \<le> 0 then (Some (Inr []), redriven, s')
          else
            let s'' = st_others p s' in
            if st_slept p then
              let (r, red, s3) = sqlite_turns E D maxMessages vt waitTimeSeconds ps s''
              in (r, redriven @ red, s3)
            else (Some (Inl (Errorf ''context canceled'')), redriven, s''))"

definition sqlite_ReceiveMessages ::
  "env \<Rightarrow> engine \<Rightarrow> sqlite_turn list \<Rightarrow> int \<Rightarrow> int \<Rightarrow> int \<Rightarrow> sqlite_store
   \<Rightarrow> (go_error + message list) option \<times> message list \<times> sqlite_store" where
  "sqlite_ReceiveMessages E D turns maxMessages visibilityTimeout waitTimeSeconds s =
     sqlite_turns E D maxMessages (sqlite_timeout visibilityTimeout s) waitTimeSeconds turns s"

subsection \<open>Deleting and changing visibility\<close>

text \<open>
  The ends of \<open>DeleteMessage\<close> and \<open>ChangeMessageVisibility\<close> alike: how many rows the
  statement matched decides, unless the driver cannot tell.
\<close>

definition affected :: "fails \<Rightarrow> string \<Rightarrow> nat \<Rightarrow> go_error option" where
  "affected fails receiptHandle rows =
     (if fails RowsAffected \<noteq> None then None
      else if rows = 0 then Some (invalid_handle receiptHandle) else None)"

definition holders :: "string \<Rightarrow> row list \<Rightarrow> row list" where
  "holders receiptHandle table = filter (\<lambda>r. r_receipt_handle r = receiptHandle) table"

definition sqlite_DeleteMessage ::
  "fails \<Rightarrow> string \<Rightarrow> sqlite_store \<Rightarrow> go_error option \<times> sqlite_store" where
  "sqlite_DeleteMessage fails receiptHandle s =
     (if sq_closed s then (Some store_closed, s)
      else
        case fails Exec of
          Some e \<Rightarrow> (Some (Errorf (''failed to delete message: '' @ e)), s)
        | None \<Rightarrow>
            (affected fails receiptHandle (length (holders receiptHandle (sq_table s))),
             s\<lparr> sq_table := filter (\<lambda>r. r_receipt_handle r \<noteq> receiptHandle) (sq_table s) \<rparr>))"

definition sqlite_ChangeMessageVisibility ::
  "fails \<Rightarrow> clock \<Rightarrow> string \<Rightarrow> int \<Rightarrow> sqlite_store \<Rightarrow> go_error option \<times> sqlite_store" where
  "sqlite_ChangeMessageVisibility fails now receiptHandle visibilityTimeout s =
     (if sq_closed s then (Some store_closed, s)
      else
        let n = length (holders receiptHandle (sq_table s)) in
        if visibilityTimeout = 0 then
          (case fails Exec of
             Some e \<Rightarrow> (Some (Errorf (''failed to change message visibility: '' @ e)), s)
           | None \<Rightarrow>
               (affected fails receiptHandle n,
                s\<lparr> sq_table := update_where (\<lambda>r. r_receipt_handle r = receiptHandle)
                      (\<lambda>r. r\<lparr> r_visible_at := unix_milli (now 0), r_receipt_handle := '''' \<rparr>)
                      (sq_table s) \<rparr>))
        else
          (case fails Exec of
             Some e \<Rightarrow> (Some (Errorf (''failed to change message visibility: '' @ e)), s)
           | None \<Rightarrow>
               (affected fails receiptHandle n,
                s\<lparr> sq_table := update_where (\<lambda>r. r_receipt_handle r = receiptHandle)
                      (\<lambda>r. r\<lparr> r_visible_at := unix_milli (now 0 + seconds visibilityTimeout) \<rparr>)
                      (sq_table s) \<rparr>)))"

subsection \<open>Counts, purge, close\<close>

definition count_rows :: "fails \<Rightarrow> (row \<Rightarrow> bool) \<Rightarrow> sqlite_store \<Rightarrow> int" where
  "count_rows fails P s =
     (if fails Count \<noteq> None then 0 else int (length (filter P (sq_table s))))"

definition sqlite_ApproximateNumberOfMessages :: "fails \<Rightarrow> time \<Rightarrow> sqlite_store \<Rightarrow> int" where
  "sqlite_ApproximateNumberOfMessages fails now s =
     count_rows fails (\<lambda>r. r_visible_at r \<le> unix_milli now) s"

definition sqlite_ApproximateNumberOfMessagesNotVisible ::
  "fails \<Rightarrow> time \<Rightarrow> sqlite_store \<Rightarrow> int" where
  "sqlite_ApproximateNumberOfMessagesNotVisible fails now s =
     count_rows fails (\<lambda>r. r_visible_at r > unix_milli now \<and> r_receipt_handle r \<noteq> '''') s"

definition sqlite_ApproximateNumberOfMessagesDelayed ::
  "fails \<Rightarrow> time \<Rightarrow> sqlite_store \<Rightarrow> int" where
  "sqlite_ApproximateNumberOfMessagesDelayed fails now s =
     count_rows fails (\<lambda>r. r_visible_at r > unix_milli now \<and> r_receipt_handle r = '''') s"

definition sqlite_Purge :: "fails \<Rightarrow> sqlite_store \<Rightarrow> go_error option \<times> sqlite_store" where
  "sqlite_Purge fails s =
     (if sq_closed s then (Some store_closed, s)
      else
        case fails Exec of
          Some e \<Rightarrow> (Some (Errorf (''failed to purge queue: '' @ e)), s)
        | None \<Rightarrow> (None, s\<lparr> sq_table := [], sq_dedupCache := (\<lambda>_. None) \<rparr>))"

definition sqlite_Close :: "sqlite_store \<Rightarrow> go_error option \<times> sqlite_store" where
  "sqlite_Close s = (None, s\<lparr> sq_closed := True \<rparr>)"

text \<open>The store as a value of the interface, over an engine whose statements may fail.\<close>

definition sqlite_ops :: "env \<Rightarrow> engine \<Rightarrow> fails \<Rightarrow> sqlite_store store_ops" where
  "sqlite_ops E D fails = \<lparr>
     op_SendMessage = sqlite_SendMessage E D fails,
     op_ReceiveMessages = (\<lambda>now rnd n vt s.
       sqlite_poll E D fails n (sqlite_timeout vt s) now rnd s),
     op_DeleteMessage = sqlite_DeleteMessage fails,
     op_ChangeMessageVisibility = sqlite_ChangeMessageVisibility fails,
     op_ApproximateNumberOfMessages = sqlite_ApproximateNumberOfMessages fails,
     op_ApproximateNumberOfMessagesNotVisible =
       sqlite_ApproximateNumberOfMessagesNotVisible fails,
     op_ApproximateNumberOfMessagesDelayed = sqlite_ApproximateNumberOfMessagesDelayed fails,
     op_Purge = sqlite_Purge fails,
     op_Close = sqlite_Close \<rparr>"

end
