(* ===== verification/SqliteProperties.thy ===== *)
theory SqliteProperties
  imports SqliteStore
begin

section \<open>The SQLite store: what its operations promise\<close>

text \<open>
  The rows a receive delivers, the contract of \<open>StoreContract\<close>, FIFO groups, redrive,
  restart, and what the empty receipt handle does.  The statements are about calls whose
  statements do not fail, except where they say otherwise.
\<close>

abbreviation no_fail :: fails where
  "no_fail \<equiv> (\<lambda>_. None)"

subsection \<open>What a receive delivers\<close>

text \<open>The rows left by redrive and expiry, and, of those selected, the first of each group.\<close>

definition live_rows :: "clock \<Rightarrow> sqlite_store \<Rightarrow> row list" where
  "live_rows now s =
     filter (\<lambda>r. \<not> r_sent_timestamp r < unix_milli (retention_cutoff (sq_messageRetentionPeriod s) (now 1)))
       (filter (\<lambda>r. \<not> (sq_maxReceiveCount s > 0 \<and> sq_redriveFunc s \<noteq> None \<and>
                        redrive_due (unix_milli (now 0)) (sq_maxReceiveCount s) r)) (sq_table s))"

fun row_leaders :: "bool \<Rightarrow> string list \<Rightarrow> row list \<Rightarrow> row list" where
  "row_leaders fifo groups [] = []"
| "row_leaders fifo groups (r # rs) =
     (let grp = r_message_group_id r in
      if fifo \<and> grp \<noteq> '''' \<and> grp \<in> set groups then row_leaders fifo groups rs
      else r # row_leaders fifo (if fifo \<and> grp \<noteq> '''' then grp # groups else groups) rs)"

definition sqlite_picks :: "engine \<Rightarrow> int \<Rightarrow> clock \<Rightarrow> sqlite_store \<Rightarrow> row list" where
  "sqlite_picks D n now s =
     take (nat (max 1 n)) (row_leaders (sq_isFifo s) []
       (select_visible D (sq_isFifo s) (unix_milli (now 2)) n (live_rows now s)))"

definition row_first :: "time \<Rightarrow> row \<Rightarrow> time" where
  "row_first now r =
     (if IsZero (from_unix_milli (r_first_received_at r)) then now
      else from_unix_milli (r_first_received_at r))"

definition row_handle :: "env \<Rightarrow> sqlite_store \<Rightarrow> time \<Rightarrow> string \<Rightarrow> row \<Rightarrow> string" where
  "row_handle E s now nonce r =
     generateReceiptHandle E (sq_queueName s) (sq_serverSecret s) (r_id r) now nonce"

definition deliver_row :: "env \<Rightarrow> engine \<Rightarrow> sqlite_store \<Rightarrow> time \<Rightarrow> string \<Rightarrow> row \<Rightarrow> message" where
  "deliver_row E D s now nonce r = (row_message D r)\<lparr> ReceiptHandle := row_handle E s now nonce r,
     IsVisible := False, ApproximateReceiveCount := r_receive_count r + 1,
     ReceivedTimestamp := now, ApproximateFirstReceiveTimestamp := row_first now r \<rparr>"

definition hide_row :: "env \<Rightarrow> sqlite_store \<Rightarrow> time \<Rightarrow> time \<Rightarrow> string \<Rightarrow> row \<Rightarrow> row" where
  "hide_row E s now newVisibleAt nonce r = r\<lparr> r_receipt_handle := row_handle E s now nonce r,
     r_visible_at := unix_milli newVisibleAt, r_receive_count := r_receive_count r + 1,
     r_first_received_at := unix_milli (row_first now r) \<rparr>"

definition claim_row ::
  "env \<Rightarrow> sqlite_store \<Rightarrow> time \<Rightarrow> time \<Rightarrow> (nat \<Rightarrow> string) \<Rightarrow> nat \<Rightarrow> row list \<Rightarrow> row \<Rightarrow> row" where
  "claim_row E s now nv rnd k ps x =
     (case find (\<lambda>(j, r). r_id r = r_id x) (List.enumerate k ps) of
        None \<Rightarrow> x | Some (j, r) \<Rightarrow> hide_row E s now nv (rnd j) x)"

lemma row_table [simp]:
  "row_handle E (s\<lparr> sq_table := t \<rparr>) = row_handle E s"
  "hide_row E (s\<lparr> sq_table := t \<rparr>) = hide_row E s"
  "deliver_row E D (s\<lparr> sq_table := t \<rparr>) = deliver_row E D s"
  by (simp_all add: row_handle_def hide_row_def deliver_row_def fun_eq_iff)

lemma claim_row_table [simp]: "claim_row E (s\<lparr> sq_table := t \<rparr>) = claim_row E s"
  by (simp add: claim_row_def fun_eq_iff split: option.split)

lemma row_message_id [simp]: "MessageID (row_message D r) = r_id r"
  by (simp add: row_message_def)

lemma claim_row_Nil [simp]: "claim_row E s now nv rnd k [] x = x"
  by (simp add: claim_row_def)

lemma claim_row_Cons:
  "claim_row E s now nv rnd k (r # ps) x =
   (if r_id r = r_id x then hide_row E s now nv (rnd k) x else claim_row E s now nv rnd (Suc k) ps x)"
  by (simp add: claim_row_def)

lemma claim_row_other: "r_id x \<notin> r_id ` set ps \<Longrightarrow> claim_row E s now nv rnd k ps x = x"
  by (induction ps arbitrary: k) (auto simp: claim_row_Cons)

lemma claim_row_id [simp]: "r_id (claim_row E s now nv rnd k ps x) = r_id x"
  by (auto simp: claim_row_def hide_row_def split: option.splits)

lemma claim_row_picked:
  "r_id x \<in> r_id ` set ps \<Longrightarrow> \<exists>nonce. claim_row E s now nv rnd k ps x = hide_row E s now nv nonce x"
  by (induction ps arbitrary: k) (auto simp: claim_row_Cons)

definition candidate_of :: "engine \<Rightarrow> row \<Rightarrow> candidate" where
  "candidate_of D r = \<lparr> c_msg = row_message D r, c_receiveCount = r_receive_count r,
     c_firstReceived = from_unix_milli (r_first_received_at r) \<rparr>"

lemma scan_leaders:
  "scan_candidates D no_fail fifo k groups rows =
   Inr (map (candidate_of D) (row_leaders fifo groups rows))"
  by (induction rows arbitrary: k groups) (auto simp: Let_def candidate_of_def)

lemma row_leaders_subset: "set (row_leaders fifo groups rows) \<subseteq> set rows"
  by (induction rows arbitrary: groups) (auto simp: Let_def subset_iff)

lemma claim_spec:
  assumes "distinct (map r_id rows)" "\<forall>r \<in> set rows. \<forall>x \<in> set (sq_table s). r_id x = r_id r \<longrightarrow> x = r"
    "length result < nat (max 1 n)"
  shows "claim_candidates E no_fail n now nv rnd (length result) (map (candidate_of D) rows) result s =
    (let ps = take (nat (max 1 n) - length result) rows in
     (result @ map (\<lambda>(j, r). deliver_row E D s now (rnd j) r) (List.enumerate (length result) ps),
      s\<lparr> sq_table := map (claim_row E s now nv rnd (length result) ps) (sq_table s) \<rparr>))"
  using assms
proof (induction rows arbitrary: result s)
  case Nil
  then show ?case by (simp add: claim_row_def)
next
  case (Cons r rows)
  let ?k = "length result"
  let ?t = "update_where (\<lambda>x. r_id x = r_id r) (hide_row E s now nv (rnd ?k)) (sq_table s)"
  let ?m = "deliver_row E D s now (rnd ?k) r"
  have upd: "update_where (\<lambda>x. r_id x = r_id r) (\<lambda>x. x\<lparr> r_receipt_handle := row_handle E s now (rnd ?k) r,
      r_visible_at := unix_milli nv, r_receive_count := r_receive_count r + 1,
      r_first_received_at := unix_milli (row_first now r) \<rparr>) (sq_table s) = ?t"
    using Cons.prems(2) by (auto simp: update_where_def hide_row_def)
  have claimed: "(c_msg (candidate_of D r))\<lparr> ReceiptHandle := row_handle E s now (rnd ?k) r,
      IsVisible := False, ApproximateReceiveCount := r_receive_count r + 1, ReceivedTimestamp := now,
      ApproximateFirstReceiveTimestamp := row_first now r \<rparr> = ?m"
    by (simp add: candidate_of_def deliver_row_def)
  obtain d where d: "nat (max 1 n) - ?k = Suc d"
    using Cons.prems(3) by (metis Suc_diff_Suc)
  have unfold: "claim_candidates E no_fail n now nv rnd ?k (map (candidate_of D) (r # rows)) result s =
    (if int (length (result @ [?m])) \<ge> n then (result @ [?m], s\<lparr> sq_table := ?t \<rparr>)
     else claim_candidates E no_fail n now nv rnd (Suc ?k) (map (candidate_of D) rows) (result @ [?m])
       (s\<lparr> sq_table := ?t \<rparr>))"
    using upd claimed
    by (cases "IsZero (from_unix_milli (r_first_received_at r))")
      (simp_all add: Let_def candidate_of_def row_first_def row_handle_def)
  have first: "claim_row E s now nv rnd ?k (r # ps) x =
      claim_row E s now nv rnd (Suc ?k) ps
        (if r_id x = r_id r then hide_row E s now nv (rnd ?k) x else x)"
    if "set ps \<subseteq> set rows" for ps x
  proof (cases "r_id x = r_id r")
    case True
    then have "r_id (hide_row E s now nv (rnd ?k) x) \<notin> r_id ` set ps"
      using that Cons.prems(1) by (auto simp: hide_row_def)
    then show ?thesis using True by (simp add: claim_row_Cons claim_row_other)
  qed (simp add: claim_row_Cons)
  show ?case
  proof (cases "int (length (result @ [?m])) \<ge> n")
    case True
    then have "d = 0" using d Cons.prems(3) by simp
    then show ?thesis using True d first [of "[]"] unfolding unfold
      by (simp add: update_where_def Let_def del: claim_candidates.simps)
  next
    case False
    let ?s = "s\<lparr> sq_table := ?t \<rparr>"
    have len: "length (result @ [?m]) < nat (max 1 n)" "nat (max 1 n) - length (result @ [?m]) = d"
      using False d by auto
    have tab: "\<forall>r' \<in> set rows. \<forall>x \<in> set (sq_table ?s). r_id x = r_id r' \<longrightarrow> x = r'"
    proof (intro ballI impI)
      fix r' x assume r': "r' \<in> set rows" and "x \<in> set (sq_table ?s)" and id: "r_id x = r_id r'"
      then obtain y where y: "y \<in> set (sq_table s)" "x = (if r_id y = r_id r then hide_row E s now nv (rnd ?k) y else y)"
        by (auto simp: update_where_def)
      have "r_id y = r_id r'" using id y(2) by (auto simp: hide_row_def split: if_splits)
      then have "y = r'" "r_id r' \<noteq> r_id r" using Cons.prems(1,2) r' y(1) by auto
      then show "x = r'" using y(2) by simp
    qed
    have ps: "take (Suc d) (r # rows) = r # take d rows" by simp
    have "set (take d rows) \<subseteq> set rows" by (rule set_take_subset)
    note first = first [OF this]
    have "map (claim_row E s now nv rnd ?k (r # take d rows)) (sq_table s) =
        map (claim_row E s now nv rnd (Suc ?k) (take d rows)) ?t"
      by (simp add: update_where_def first)
    then show ?thesis
      using Cons.IH [OF _ tab len(1)] Cons.prems(1) False
      unfolding d ps len(2) unfold by (simp add: Let_def del: claim_candidates.simps)
  qed
qed
definition redriven_rows :: "clock \<Rightarrow> sqlite_store \<Rightarrow> row list" where
  "redriven_rows now s =
     filter (\<lambda>r. sq_maxReceiveCount s > 0 \<and> sq_redriveFunc s \<noteq> None \<and>
               redrive_due (unix_milli (now 0)) (sq_maxReceiveCount s) r) (sq_table s)"

lemma redrive_scan_all: "redrive_scan D no_fail k rows = map (row_message D) rows"
  by (induction rows arbitrary: k) simp_all

lemma distinct_filter_id:
  "distinct (map r_id t) \<Longrightarrow> filter (\<lambda>r. r_id r \<notin> r_id ` set (filter P t)) t = filter (\<lambda>r. \<not> P r) t"
proof (rule filter_cong [OF refl])
  fix r assume d: "distinct (map r_id t)" and "r \<in> set t"
  then show "(r_id r \<notin> r_id ` set (filter P t)) = (\<not> P r)"
    using inj_on_eq_iff [of r_id "set t" r] by (auto simp: distinct_map)
qed

lemma poll_prepares:
  assumes "distinct (map r_id (sq_table s))"
  shows "(let (redriven, s1) = sqlite_redriveIfNeeded D no_fail (now 0) s
          in (redriven, sqlite_deleteExpiredMessages no_fail (now 1) s1)) =
    (map (PrepareForRedrive \<circ> row_message D) (redriven_rows now s), s\<lparr> sq_table := live_rows now s \<rparr>)"
proof (cases "sq_maxReceiveCount s > 0 \<and> sq_redriveFunc s \<noteq> None")
  case True
  have "filter (\<lambda>r. r_id r \<notin> MessageID ` set (map (row_message D)
        (filter (redrive_due (unix_milli (now 0)) (sq_maxReceiveCount s)) (sq_table s)))) (sq_table s) =
      filter (\<lambda>r. \<not> redrive_due (unix_milli (now 0)) (sq_maxReceiveCount s) r) (sq_table s)"
    using distinct_filter_id [OF assms] by (simp add: image_image)
  moreover obtain arn where "sq_redriveFunc s = Some arn" using True by auto
  ultimately show ?thesis using True
    by (simp add: sqlite_redriveIfNeeded_def sqlite_deleteExpiredMessages_def live_rows_def
        redriven_rows_def redrive_scan_all Let_def)
next
  case False
  then have "sq_maxReceiveCount s \<le> 0 \<or> sq_redriveFunc s = None" by auto
  then have "sqlite_redriveIfNeeded D no_fail (now 0) s = ([], s)"
    by (simp add: sqlite_redriveIfNeeded_def)
  then show ?thesis using False
    by (simp add: sqlite_deleteExpiredMessages_def live_rows_def redriven_rows_def Let_def)
qed

lemma orders_rowsD:
  assumes "orders_rows D"
  shows "mset (order_by_sent D rows) = mset rows" "set (order_by_sent D rows) = set rows"
    "sorted (map r_sent_timestamp (order_by_sent D rows))"
  using assms mset_eq_setD unfolding orders_rows_def by blast+

lemma limit_rows_in: "r \<in> set (limit_rows n rows) \<Longrightarrow> r \<in> set rows"
  by (auto simp: limit_rows_def dest: in_set_takeD split: if_splits)

lemma select_visible_in:
  "orders_rows D \<Longrightarrow> r \<in> set (select_visible D fifo ms n t) \<Longrightarrow>
   r \<in> set t \<and> r_visible_at r \<le> ms \<and> (fifo \<longrightarrow> r_message_group_id r \<notin> set (in_flight_groups ms t))"
  unfolding select_visible_def by (drule limit_rows_in) (simp add: orders_rowsD(2))

lemma select_visible_set: "orders_rows D \<Longrightarrow> set (select_visible D fifo ms n t) \<subseteq> set t"
  using select_visible_in by blast

lemma distinct_ids_mset: "mset t = mset u \<Longrightarrow> distinct (map r_id t) = distinct (map r_id u)"
  by (metis mset_map distinct_count_atmost_1 mset_eq_imp_distinct_iff)

lemma select_visible_distinct:
  assumes "orders_rows D" "distinct (map r_id t)"
  shows "distinct (map r_id (select_visible D fifo ms n t))"
proof -
  have "distinct (map r_id (order_by_sent D (filter P t)))" for P
    using distinct_ids_mset [OF orders_rowsD(1) [OF assms(1)]] assms(2) distinct_map_filter by blast
  then show ?thesis by (simp add: select_visible_def limit_rows_def take_map [symmetric])
qed

lemma live_distinct: "distinct (map r_id (sq_table s)) \<Longrightarrow> distinct (map r_id (live_rows now s))"
  by (simp add: live_rows_def distinct_map_filter)

lemma row_leaders_distinct:
  "distinct (map r_id rows) \<Longrightarrow> distinct (map r_id (row_leaders fifo groups rows))"
proof (induction rows arbitrary: groups)
  case (Cons r rows)
  have "r_id r \<notin> r_id ` set (row_leaders fifo g rows)" for g
    using Cons.prems row_leaders_subset [of fifo g rows] by auto
  then show ?case using Cons by (cases fifo) (simp_all add: Let_def)
qed simp

lemma sqlite_picks_subset:
  assumes "orders_rows D" "r \<in> set (sqlite_picks D n now s)"
  shows "r \<in> set (live_rows now s)" "r \<in> set (sq_table s)"
    "r \<in> set (select_visible D (sq_isFifo s) (unix_milli (now 2)) n (live_rows now s))"
proof -
  show sel: "r \<in> set (select_visible D (sq_isFifo s) (unix_milli (now 2)) n (live_rows now s))"
    using assms(2) row_leaders_subset by (fastforce simp: sqlite_picks_def dest: in_set_takeD)
  then show "r \<in> set (live_rows now s)" using select_visible_set [OF assms(1)] by blast
  then show "r \<in> set (sq_table s)" by (auto simp: live_rows_def)
qed

lemma picks_visible:
  "orders_rows D \<Longrightarrow> r \<in> set (sqlite_picks D n now s) \<Longrightarrow> r_visible_at r \<le> unix_milli (now 2)"
  using sqlite_picks_subset(3) select_visible_in by blast

lemma picks_distinct:
  "orders_rows D \<Longrightarrow> distinct (map r_id (sq_table s)) \<Longrightarrow> distinct (map r_id (sqlite_picks D n now s))"
  unfolding sqlite_picks_def
  by (simp add: take_map [symmetric] row_leaders_distinct select_visible_distinct live_distinct)

lemma sqlite_poll_open:
  assumes "orders_rows D" "distinct (map r_id (sq_table s))" "\<not> sq_closed s"
  shows "sqlite_poll E D no_fail n vt now rnd s =
    (Inr (map (\<lambda>(j, r). deliver_row E D s (now 2) (rnd j) r) (List.enumerate 0 (sqlite_picks D n now s))),
     map (PrepareForRedrive \<circ> row_message D) (redriven_rows now s),
     s\<lparr> sq_table := map (claim_row E s (now 2) (now 2 + seconds vt) rnd 0 (sqlite_picks D n now s))
                     (live_rows now s) \<rparr>)"
proof -
  let ?s2 = "s\<lparr> sq_table := live_rows now s \<rparr>"
  let ?rows = "row_leaders (sq_isFifo s) []
      (select_visible D (sq_isFifo s) (unix_milli (now 2)) n (live_rows now s))"
  obtain redriven s1 where r: "sqlite_redriveIfNeeded D no_fail (now 0) s = (redriven, s1)" by fastforce
  have s2: "redriven = map (PrepareForRedrive \<circ> row_message D) (redriven_rows now s)"
    "sqlite_deleteExpiredMessages no_fail (now 1) s1 = ?s2"
    using poll_prepares [OF assms(2), of D now] r by auto
  have d: "distinct (map r_id ?rows)"
    by (intro row_leaders_distinct select_visible_distinct assms live_distinct)
  have same: "\<forall>r \<in> set ?rows. \<forall>x \<in> set (sq_table ?s2). r_id x = r_id r \<longrightarrow> x = r"
  proof (intro ballI impI)
    fix r x assume "r \<in> set ?rows" "x \<in> set (sq_table ?s2)" "r_id x = r_id r"
    then have "r \<in> set (live_rows now s)" "x \<in> set (live_rows now s)"
      using row_leaders_subset select_visible_set [OF assms(1)] by fastforce+
    then show "x = r" using live_distinct [OF assms(2), of now] \<open>r_id x = r_id r\<close>
      by (auto simp: distinct_map inj_on_eq_iff)
  qed
  have claim: "claim_candidates E no_fail n (now 2) (now 2 + seconds vt) rnd 0
      (map (candidate_of D) ?rows) [] ?s2 =
    (map (\<lambda>(j, r). deliver_row E D s (now 2) (rnd j) r) (List.enumerate 0 (sqlite_picks D n now s)),
     s\<lparr> sq_table := map (claim_row E s (now 2) (now 2 + seconds vt) rnd 0 (sqlite_picks D n now s))
                     (live_rows now s) \<rparr>)"
    using claim_spec [OF d same, where n = n and result = "[]" and E = E and rnd = rnd and D = D and
        now = "now 2" and nv = "now 2 + seconds vt"]
    by (simp add: Let_def sqlite_picks_def [symmetric])
  show ?thesis
    unfolding sqlite_poll_def using assms(3) by (simp add: r s2 scan_leaders claim del: One_nat_def)
qed
lemma claim_row_nth:
  "distinct (map r_id ps) \<Longrightarrow> k < length ps \<Longrightarrow>
   claim_row E s now nv rnd j ps (ps ! k) = hide_row E s now nv (rnd (j + k)) (ps ! k)"
proof (induction ps arbitrary: j k)
  case (Cons r ps)
  show ?case
  proof (cases k)
    case (Suc k')
    then have "r_id r \<noteq> r_id (ps ! k')" using Cons.prems by auto
    then show ?thesis using Cons Suc by (simp add: claim_row_Cons)
  qed (simp add: claim_row_Cons)
qed simp


subsection \<open>The contract of a message store\<close>

definition sqlite_inv :: "env \<Rightarrow> engine \<Rightarrow> sqlite_store \<Rightarrow> bool" where
  "sqlite_inv E D s \<longleftrightarrow> env_ok E \<and> orders_rows D \<and> distinct (map r_id (sq_table s)) \<and>
     (\<forall>r \<in> set (sq_table s). r_receipt_handle r \<noteq> '''' \<longrightarrow>
        issued E (sq_queueName s) (sq_serverSecret s) (r_id r) (r_receipt_handle r))"

definition sqlite_holds :: "sqlite_store \<Rightarrow> string \<Rightarrow> string \<Rightarrow> bool" where
  "sqlite_holds s i h \<longleftrightarrow> (\<exists>r \<in> set (sq_table s). r_id r = i \<and> r_receipt_handle r = h)"

definition sqlite_visible :: "sqlite_store \<Rightarrow> string \<Rightarrow> int" where
  "sqlite_visible s i =
     (case find (\<lambda>r. r_id r = i) (sq_table s) of Some r \<Rightarrow> r_visible_at r | None \<Rightarrow> 0)"

lemma find_snoc:
  "find P (xs @ [y]) = (case find P xs of Some x \<Rightarrow> Some x | None \<Rightarrow> if P y then Some y else None)"
  by (induction xs) auto

lemma find_row:
  "distinct (map r_id t) \<Longrightarrow> r \<in> set t \<Longrightarrow> find (\<lambda>x. r_id x = r_id r) t = Some r"
  by (induction t) force+

lemma visible_row:
  "distinct (map r_id (sq_table s)) \<Longrightarrow> r \<in> set (sq_table s) \<Longrightarrow> sqlite_visible s (r_id r) = r_visible_at r"
  by (simp add: sqlite_visible_def find_row)

text \<open>
  Most calls replace the table: rows go, and of the rows that stay some change.  A row keeps
  its identifier, and its handle is the old one, the empty one or a new one of its own.
\<close>

lemma sqlite_inv_map:
  assumes "sqlite_inv E D s" "map r_id t = map r_id (filter P (sq_table s))"
    "\<And>r. r \<in> set t \<Longrightarrow> r_receipt_handle r \<noteq> '''' \<Longrightarrow> r \<notin> set (sq_table s) \<Longrightarrow>
       issued E (sq_queueName s) (sq_serverSecret s) (r_id r) (r_receipt_handle r)"
  shows "sqlite_inv E D (s\<lparr> sq_table := t \<rparr>)"
  using assms unfolding sqlite_inv_def by (auto simp: distinct_map_filter)

lemma sqlite_inv_frame [simp]:
  "sqlite_inv E D (s\<lparr> sq_dedupCache := c \<rparr>) = sqlite_inv E D s"
  "sqlite_inv E D (s\<lparr> sq_sequenceCounter := k \<rparr>) = sqlite_inv E D s"
  "sqlite_inv E D (s\<lparr> sq_closed := b \<rparr>) = sqlite_inv E D s"
  by (simp_all add: sqlite_inv_def)

lemma sqlite_inv_New:
  "NewSQLiteStore D fails [] q vt secret cfg = Inr s \<Longrightarrow> env_ok E \<Longrightarrow> orders_rows D \<Longrightarrow> sqlite_inv E D s"
  by (auto simp: NewSQLiteStore_def sqlite_loadSequenceCounter_def sqlite_inv_def Let_def
      split: if_splits option.splits)

lemma holds_same:
  "sq_table s' = sq_table s \<Longrightarrow> sqlite_holds s' i h = sqlite_holds s i h"
  "sq_table s' = sq_table s \<Longrightarrow> sqlite_visible s' i = sqlite_visible s i"
  by (simp_all add: sqlite_holds_def sqlite_visible_def)

lemma holds_sub:
  assumes "distinct (map r_id (sq_table s))" "sq_table s' = filter P (sq_table s)" "sqlite_holds s' i h"
  shows "sqlite_holds s i h \<and> sqlite_visible s' i = sqlite_visible s i"
proof -
  obtain r where r: "r \<in> set (sq_table s')" "r_id r = i" "r_receipt_handle r = h"
    using assms(3) by (auto simp: sqlite_holds_def)
  then have "r \<in> set (sq_table s)" using assms(2) by simp
  moreover have "distinct (map r_id (sq_table s'))" using assms(1,2) by (simp add: distinct_map_filter)
  ultimately show ?thesis
    using r assms(1) visible_row [of s r] visible_row [of s' r] by (auto simp: sqlite_holds_def)
qed

lemma sqlite_send_law:
  assumes "sqlite_inv E D s" "\<forall>h. \<not> sqlite_holds s (MessageID m) h"
    "sqlite_SendMessage E D no_fail now m d s = (err, m', s')"
  shows "sqlite_inv E D s' \<and> (i \<noteq> MessageID m \<longrightarrow> (sqlite_holds s' i h \<longleftrightarrow> sqlite_holds s i h)) \<and>
    (i \<noteq> MessageID m \<longrightarrow> sqlite_visible s' i = sqlite_visible s i)"
proof -
  consider "sq_table s' = sq_table s" "sq_queueName s' = sq_queueName s" "sq_serverSecret s' = sq_serverSecret s"
    | r where "r_id r = MessageID m" "r_receipt_handle r = ''''" "sq_table s' = sq_table s @ [r]"
      "sq_queueName s' = sq_queueName s" "sq_serverSecret s' = sq_serverSecret s"
    using assms(3) fifo_admit_message [of E "sq_contentBasedDeduplication s" now "sq_dedupCache s" "sq_sequenceCounter s" m]
    by (fastforce simp: sqlite_SendMessage_def Let_def split: if_splits prod.splits sum.splits)
  then show ?thesis
  proof cases
    case 1
    then show ?thesis using assms(1) holds_same [OF 1(1)] by (simp add: sqlite_inv_def)
  next
    case 2
    have "MessageID m \<notin> r_id ` set (sq_table s)" using assms(2) unfolding sqlite_holds_def image_iff by metis
    then show ?thesis using assms(1) 2
      by (auto simp: sqlite_inv_def sqlite_holds_def sqlite_visible_def find_snoc split: option.splits)
  qed
qed
lemma delivered_ids:
  "map MessageID (map (\<lambda>(k, r). deliver_row E D s now (rnd k) r) (List.enumerate j ps)) = map r_id ps"
  by (induction ps arbitrary: j) (simp_all add: deliver_row_def)

lemma sqlite_receive_law:
  assumes inv: "sqlite_inv E D s" and poll: "sqlite_poll E D no_fail n vt0 now rnd s = (Inr ms, red, s')"
  shows "sqlite_inv E D s' \<and> length ms \<le> nat (max 1 n) \<and>
    (\<forall>m \<in> set ms. (\<exists>h. sqlite_holds s (MessageID m) h) \<and>
       sqlite_holds s' (MessageID m) (ReceiptHandle m) \<and> ReceiptHandle m \<noteq> '''' \<and>
       sqlite_visible s (MessageID m) \<le> unix_milli (ReceivedTimestamp m) \<and>
       sqlite_visible s' (MessageID m) = unix_milli (ReceivedTimestamp m + seconds vt0)) \<and>
    (\<forall>i h. i \<notin> MessageID ` set ms \<longrightarrow> sqlite_holds s' i h \<longrightarrow>
       sqlite_holds s i h \<and> sqlite_visible s' i = sqlite_visible s i)"
proof -
  let ?ps = "sqlite_picks D n now s" and ?live = "live_rows now s"
  let ?claim = "claim_row E s (now 2) (now 2 + seconds vt0) rnd 0 ?ps"
  let ?t = "map ?claim ?live"
  from inv have D: "orders_rows D" and d: "distinct (map r_id (sq_table s))" and E: "receipts_ok E"
    and old: "\<And>r. r \<in> set (sq_table s) \<Longrightarrow> r_receipt_handle r \<noteq> '''' \<Longrightarrow>
      issued E (sq_queueName s) (sq_serverSecret s) (r_id r) (r_receipt_handle r)"
    by (auto simp: sqlite_inv_def env_ok_def)
  have "\<not> sq_closed s" using poll by (auto simp: sqlite_poll_def)
  note open_poll = sqlite_poll_open [OF D d this, of E n vt0 now rnd]
  have ms: "ms = map (\<lambda>(k, r). deliver_row E D s (now 2) (rnd k) r) (List.enumerate 0 ?ps)"
    and s': "s' = s\<lparr> sq_table := ?t \<rparr>" using poll open_poll by auto
  have dl: "distinct (map r_id ?live)" by (rule live_distinct [OF d])
  have dt: "distinct (map r_id ?t)" using dl by (simp add: comp_def)
  have sub: "set ?live \<subseteq> set (sq_table s)" by (auto simp: live_rows_def)
  have dp: "distinct (map r_id ?ps)" by (rule picks_distinct [OF D d])
  have cases: "?claim r = r \<and> r_id r \<notin> r_id ` set ?ps \<or> (\<exists>nonce. ?claim r = hide_row E s (now 2) (now 2 + seconds vt0) nonce r)" for r
    using claim_row_other claim_row_picked by metis
  have "sqlite_inv E D s'" unfolding s'
  proof (rule sqlite_inv_map [OF inv])
    show "map r_id ?t = map r_id (filter (\<lambda>r. r \<in> set ?live) (sq_table s))"
      by (simp add: comp_def) (auto simp: live_rows_def intro!: arg_cong [where f = "map r_id"] filter_cong)
  next
    fix r assume "r \<in> set ?t" and new: "r \<notin> set (sq_table s)"
    then obtain x where x: "x \<in> set (sq_table s)" "r = ?claim x" using sub by auto
    then obtain nonce where "r = hide_row E s (now 2) (now 2 + seconds vt0) nonce x"
      using cases [of x] new by auto
    then show "issued E (sq_queueName s) (sq_serverSecret s) (r_id r) (r_receipt_handle r)"
      by (simp add: hide_row_def row_handle_def)
  qed
  moreover have "length ms \<le> nat (max 1 n)" by (simp add: ms sqlite_picks_def)
  moreover have "(\<exists>h. sqlite_holds s (MessageID m) h) \<and> sqlite_holds s' (MessageID m) (ReceiptHandle m) \<and>
      ReceiptHandle m \<noteq> '''' \<and> sqlite_visible s (MessageID m) \<le> unix_milli (ReceivedTimestamp m) \<and>
      sqlite_visible s' (MessageID m) = unix_milli (ReceivedTimestamp m + seconds vt0)" if m: "m \<in> set ms" for m
  proof -
    obtain k r0 where kr: "(k, r0) \<in> set (List.enumerate 0 ?ps)"
      "m = deliver_row E D s (now 2) (rnd k) r0"
      using m by (auto simp: ms)
    then have k: "k < length ?ps" "m = deliver_row E D s (now 2) (rnd k) (?ps ! k)"
      using in_set_enumerate_eq [of "(k, r0)" 0 ?ps] by auto
    let ?r = "?ps ! k"
    have r: "?r \<in> set ?ps" using k(1) by simp
    let ?x = "hide_row E s (now 2) (now 2 + seconds vt0) (rnd k) ?r"
    have "?claim ?r = ?x" using claim_row_nth [OF dp k(1), of E s _ _ rnd 0] by simp
    then have x: "?x \<in> set (sq_table s')" using sqlite_picks_subset(1) [OF D r] by (force simp: s')
    have "sqlite_visible s' (r_id ?x) = r_visible_at ?x"
      by (rule visible_row [OF _ x]) (use dt s' in simp)
    moreover have "sqlite_visible s (r_id ?r) = r_visible_at ?r"
      by (rule visible_row [OF d sqlite_picks_subset(2) [OF D r]])
    moreover have "sqlite_holds s' (r_id ?x) (r_receipt_handle ?x)" "sqlite_holds s (r_id ?r) (r_receipt_handle ?r)"
      using x sqlite_picks_subset(2) [OF D r] unfolding sqlite_holds_def by blast+
    moreover have "r_receipt_handle ?x \<noteq> ''''"
      using handle_nonempty [OF E] by (simp add: hide_row_def row_handle_def)
    ultimately show ?thesis using picks_visible [OF D r] unfolding k(2)
      by (auto simp: deliver_row_def hide_row_def)
  qed
  moreover have "sqlite_holds s i h \<and> sqlite_visible s' i = sqlite_visible s i"
    if i: "i \<notin> MessageID ` set ms" "sqlite_holds s' i h" for i h
  proof -
    have "MessageID ` set ms = r_id ` set ?ps"
      unfolding ms by (metis delivered_ids list.set_map)
    moreover obtain r where r: "r \<in> set ?t" "r_id r = i" "r_receipt_handle r = h"
      using i(2) unfolding s' sqlite_holds_def by force
    moreover obtain x where x: "x \<in> set ?live" "r = ?claim x" using r(1) by auto
    ultimately have "r = x" using i(1) claim_row_other [of x ?ps] by simp
    then show ?thesis
      using r x sub visible_row [OF d, of x] visible_row [of s' r] dt by (auto simp: s' sqlite_holds_def)
  qed
  ultimately show ?thesis by blast
qed
lemma sqlite_receive_error_law:
  assumes "sqlite_inv E D s" "sqlite_poll E D no_fail n vt now rnd s = (Inl er, red, s')"
  shows "s' = s"
proof (cases "sq_closed s")
  case False
  then show ?thesis using assms sqlite_poll_open [OF _ _ False] by (auto simp: sqlite_inv_def)
qed (use assms(2) in \<open>auto simp: sqlite_poll_def\<close>)

lemma sqlite_delete_law:
  assumes "sqlite_inv E D s" "sqlite_DeleteMessage no_fail h s = (err, s')"
  shows "sqlite_inv E D s' \<and> (sqlite_holds s' i k \<longrightarrow> sqlite_holds s i k \<and> sqlite_visible s' i = sqlite_visible s i)"
proof (cases "sq_closed s")
  case False
  then have s': "s' = s\<lparr> sq_table := filter (\<lambda>r. r_receipt_handle r \<noteq> h) (sq_table s) \<rparr>"
    using assms(2) by (auto simp: sqlite_DeleteMessage_def)
  have "sqlite_inv E D s'" unfolding s' by (rule sqlite_inv_map [OF assms(1) refl]) auto
  then show ?thesis using holds_sub [of s s' "\<lambda>r. r_receipt_handle r \<noteq> h" i k] assms(1)
    by (auto simp: s' sqlite_inv_def)
qed (use assms in \<open>auto simp: sqlite_DeleteMessage_def\<close>)

lemma sqlite_delete_held_law:
  assumes "sqlite_inv E D s" "\<not> sq_closed s" "sqlite_holds s i h" "h \<noteq> ''''"
    "sqlite_DeleteMessage no_fail h s = (err, s')"
  shows "err = None \<and> \<not> sqlite_holds s' i k \<and> (j \<noteq> i \<longrightarrow> (sqlite_holds s' j k \<longleftrightarrow> sqlite_holds s j k))"
proof -
  have s': "s' = s\<lparr> sq_table := filter (\<lambda>r. r_receipt_handle r \<noteq> h) (sq_table s) \<rparr>"
    and err: "err = affected no_fail h (length (holders h (sq_table s)))"
    using assms(2,5) by (auto simp: sqlite_DeleteMessage_def)
  obtain r where r: "r \<in> set (sq_table s)" "r_id r = i" "r_receipt_handle r = h"
    using assms(3) by (auto simp: sqlite_holds_def)
  have iss: "x \<in> set (sq_table s) \<Longrightarrow> r_receipt_handle x = h \<Longrightarrow> issued E (sq_queueName s) (sq_serverSecret s) (r_id x) h" for x
    using assms(1,4) by (auto simp: sqlite_inv_def)
  have one: "x \<in> set (sq_table s) \<Longrightarrow> r_receipt_handle x = h \<longleftrightarrow> r_id x = i" for x
    using issued_same [OF _ _ iss [of x] iss [OF r(1,3)]] assms(1) r
    by (auto simp: sqlite_inv_def env_ok_def distinct_map inj_on_def)
  have "r \<in> set (holders h (sq_table s))" using r by (simp add: holders_def)
  then have "holders h (sq_table s) \<noteq> []" by auto
  then show ?thesis using one by (auto simp: err affected_def s' sqlite_holds_def)
qed

lemma sqlite_change_law:
  assumes "sqlite_inv E D s" "sqlite_ChangeMessageVisibility no_fail now h vt s = (err, s')"
  shows "sqlite_inv E D s' \<and> ((\<exists>k. sqlite_holds s' i k) \<longleftrightarrow> (\<exists>k. sqlite_holds s i k)) \<and>
    (\<not> sqlite_holds s i h \<longrightarrow> sqlite_holds s' i k \<longrightarrow>
       sqlite_holds s i k \<and> sqlite_visible s' i = sqlite_visible s i)"
proof (cases "sq_closed s")
  case False
  then obtain f where s': "s' = s\<lparr> sq_table := map (\<lambda>r. if r_receipt_handle r = h then f r else r) (sq_table s) \<rparr>"
    and f: "\<And>r. r_id (f r) = r_id r" "\<And>r. r_receipt_handle (f r) = r_receipt_handle r \<or> r_receipt_handle (f r) = ''''"
    using assms(2) by (cases "vt = 0") (auto simp: sqlite_ChangeMessageVisibility_def update_where_def Let_def)
  let ?g = "\<lambda>r. if r_receipt_handle r = h then f r else r"
  have id: "r_id (?g r) = r_id r" for r using f(1) by simp
  have ids: "map r_id (sq_table s') = map r_id (sq_table s)" using id by (simp add: s')
  have "sqlite_inv E D s'" unfolding s'
  proof (rule sqlite_inv_map [OF assms(1), of _ "\<lambda>_. True"])
    show "map r_id (map ?g (sq_table s)) = map r_id (filter (\<lambda>_. True) (sq_table s))" using id by simp
    show "issued E (sq_queueName s) (sq_serverSecret s) (r_id r) (r_receipt_handle r)"
      if r: "r \<in> set (map ?g (sq_table s))" "r_receipt_handle r \<noteq> ''''" for r
    proof -
      obtain x where x: "x \<in> set (sq_table s)" "r = ?g x" using r(1) by auto
      then have "r_id r = r_id x" "r_receipt_handle r = r_receipt_handle x"
        using id f(2) [of x] r(2) by auto
      then show ?thesis using assms(1) x(1) r(2) by (simp add: sqlite_inv_def)
    qed
  qed
  moreover have "(\<exists>k. sqlite_holds s' i k) \<longleftrightarrow> i \<in> r_id ` set (sq_table s')" for s' i
    by (auto simp: sqlite_holds_def)
  then have "(\<exists>k. sqlite_holds s' i k) \<longleftrightarrow> (\<exists>k. sqlite_holds s i k)"
    using ids by (metis list.set_map)
  moreover have "sqlite_holds s i k \<and> sqlite_visible s' i = sqlite_visible s i"
    if nh: "\<not> sqlite_holds s i h" and k: "sqlite_holds s' i k"
  proof -
    obtain r where r: "r \<in> set (sq_table s)" "r_id (?g r) = i" "r_receipt_handle (?g r) = k"
      using k by (auto simp: s' sqlite_holds_def)
    then have "r_id r = i" "r_receipt_handle r \<noteq> h" using nh id by (auto simp: sqlite_holds_def)
    then have "r \<in> set (sq_table s')" "r_receipt_handle r = k" using r by (auto simp: s')
    moreover have "distinct (map r_id (sq_table s))" using assms(1) by (simp add: sqlite_inv_def)
    ultimately show ?thesis
      using r(1) \<open>r_id r = i\<close> ids visible_row [of s r] visible_row [of s' r]
      by (auto simp: sqlite_holds_def)
  qed
  ultimately show ?thesis by blast
qed (use assms in \<open>auto simp: sqlite_ChangeMessageVisibility_def\<close>)

lemma sqlite_purge_law:
  assumes "sqlite_inv E D s" "sqlite_Purge no_fail s = (err, s')"
  shows "sqlite_inv E D s' \<and> (\<not> sq_closed s \<longrightarrow> \<not> sqlite_holds s' i h) \<and>
    (sqlite_holds s' i h \<longrightarrow> sqlite_holds s i h \<and> sqlite_visible s' i = sqlite_visible s i)"
  using assms by (auto simp: sqlite_Purge_def sqlite_inv_def sqlite_holds_def split: if_splits)

lemma sqlite_ops_simps [simp]:
  "op_SendMessage (sqlite_ops E D fails) = sqlite_SendMessage E D fails"
  "op_ReceiveMessages (sqlite_ops E D fails) now rnd n vt s =
     sqlite_poll E D fails n (sqlite_timeout vt s) now rnd s"
  "op_DeleteMessage (sqlite_ops E D fails) = sqlite_DeleteMessage fails"
  "op_ChangeMessageVisibility (sqlite_ops E D fails) = sqlite_ChangeMessageVisibility fails"
  "op_Purge (sqlite_ops E D fails) = sqlite_Purge fails"
  "op_Close (sqlite_ops E D fails) = sqlite_Close"
  by (simp_all add: sqlite_ops_def)

lemma sqlite_open_stays:
  "store_step (sqlite_ops E D no_fail) (\<lambda>s s'. s' = s) sqlite_holds s e s' \<Longrightarrow>
   \<not> sq_closed s' \<Longrightarrow> \<not> sq_closed s"
  by (induction rule: store_step.induct)
    (auto simp: sqlite_SendMessage_def sqlite_poll_def sqlite_DeleteMessage_def
      sqlite_ChangeMessageVisibility_def sqlite_Purge_def sqlite_Close_def)

text \<open>Nothing happens to a table between two calls.\<close>

interpretation sqlite: message_store "sqlite_ops E D no_fail" "sqlite_inv E D" "\<lambda>s s'. s' = s"
  "\<lambda>s. \<not> sq_closed s" sqlite_holds sqlite_visible
  for E D
proof (unfold_locales, goal_cases)
  case (1 s i h h')
  then show ?case by (auto simp: sqlite_inv_def sqlite_holds_def distinct_map inj_on_def)
next
  case 2
  then show ?case unfolding sqlite_ops_simps by (rule sqlite_send_law)
next
  case (3 s now rnd n vt ms red s')
  note law = sqlite_receive_law [OF 3(1) 3(2) [unfolded sqlite_ops_simps]]
  have "0 < vt \<Longrightarrow> sqlite_timeout vt s = vt" by (simp add: sqlite_timeout_def)
  with law show ?case by simp
next
  case (4 s now rnd n vt er red s' i h)
  then show ?case using sqlite_receive_error_law [OF 4(1) 4(2) [unfolded sqlite_ops_simps]] by simp
next
  case 5
  then show ?case unfolding sqlite_ops_simps by (rule sqlite_delete_law)
next
  case 6
  then show ?case unfolding sqlite_ops_simps by (rule sqlite_delete_held_law)
next
  case 7
  then show ?case unfolding sqlite_ops_simps by (rule sqlite_change_law)
next
  case 8
  then show ?case unfolding sqlite_ops_simps by (rule sqlite_purge_law)
next
  case 9
  then show ?case by (auto simp: sqlite_Close_def sqlite_holds_def sqlite_visible_def)
next
  case 10
  then show ?case by simp
next
  case 11
  then show ?case using sqlite_open_stays by blast
qed
text \<open>
  C21.  Exclusive delivery from a SQLite queue, through any calls of other clients in between:
  a message delivered with a positive visibility timeout is not delivered again before the
  timeout, to the millisecond, unless a visibility change names its handle or the empty one,
  or the same identifier is sent again.
\<close>

theorem sqlite_exclusive:
  assumes "sqlite_inv E D s"
    "store_step (sqlite_ops E D no_fail) (\<lambda>s s'. s' = s) sqlite_holds s (EReceive n vt ms) s1"
    "m \<in> set ms" "0 < vt"
    "store_run (sqlite_ops E D no_fail) (\<lambda>s s'. s' = s) sqlite_holds s1 es s2"
    "list_all (leaves_handle (ReceiptHandle m)) es" "MessageID m \<notin> (\<Union>e \<in> set es. sent_ids e)"
    "\<forall>m' \<in> (\<Union>e \<in> set es. received e). MessageID m' \<noteq> MessageID m"
    "store_step (sqlite_ops E D no_fail) (\<lambda>s s'. s' = s) sqlite_holds s2 (EReceive n' vt' ms') s3"
    "m' \<in> set ms'" "MessageID m' = MessageID m"
  shows "unix_milli (ReceivedTimestamp m + seconds vt) \<le> unix_milli (ReceivedTimestamp m')"
  by (rule sqlite.exclusive [OF assms])

subsection \<open>FIFO groups\<close>

lemma row_leaders_seen:
  "r \<in> set (row_leaders True groups rows) \<Longrightarrow> r_message_group_id r \<noteq> '''' \<Longrightarrow>
   r_message_group_id r \<notin> set groups"
  by (induction rows arbitrary: groups) (fastforce simp: Let_def split: if_splits)+

lemma row_leaders_groups:
  "r \<in> set (row_leaders True groups rows) \<Longrightarrow> r' \<in> set (row_leaders True groups rows) \<Longrightarrow>
   r_message_group_id r = r_message_group_id r' \<Longrightarrow> r_message_group_id r \<noteq> '''' \<Longrightarrow> r = r'"
proof (induction rows arbitrary: groups)
  case (Cons x rows)
  then show ?case
    using row_leaders_seen [of _ "r_message_group_id x # groups" rows]
    by (fastforce simp: Let_def split: if_splits)
qed simp

lemma delivered_from:
  "m \<in> set (map (\<lambda>(k, r). deliver_row E D s now (rnd k) r) (List.enumerate 0 ps)) \<Longrightarrow>
   \<exists>k < length ps. m = deliver_row E D s now (rnd k) (ps ! k)"
  by (auto simp: in_set_enumerate_eq)

text \<open>
  C22.  A message a FIFO queue delivers is, when the receive returns, the only one of its group
  in flight.
\<close>

theorem sqlite_fifo_one_in_flight:
  assumes "sqlite_inv E D s" "sq_isFifo s"
    "sqlite_poll E D no_fail n vt now rnd s = (Inr ms, redriven, s')" "m \<in> set ms"
    "MessageGroupID m \<noteq> ''''"
    "r \<in> set (sq_table s')" "r_message_group_id r = MessageGroupID m"
    "r_receipt_handle r \<noteq> ''''" "unix_milli (now 2) < r_visible_at r"
  shows "r_id r = MessageID m"
proof -
  let ?ps = "sqlite_picks D n now s" and ?live = "live_rows now s"
  let ?claim = "claim_row E s (now 2) (now 2 + seconds vt) rnd 0 ?ps"
  have D: "orders_rows D" and d: "distinct (map r_id (sq_table s))"
    using assms(1) by (auto simp: sqlite_inv_def)
  have "\<not> sq_closed s" using assms(3) by (auto simp: sqlite_poll_def)
  note open_poll = sqlite_poll_open [OF D d this, of E n vt now rnd]
  have ms: "ms = map (\<lambda>(k, r). deliver_row E D s (now 2) (rnd k) r) (List.enumerate 0 ?ps)"
    and s': "sq_table s' = map ?claim ?live" using assms(3) open_poll by auto
  obtain p where p: "p \<in> set ?ps" "MessageID m = r_id p" "MessageGroupID m = r_message_group_id p"
    using delivered_from [OF assms(4) [unfolded ms]]
    by (force simp: deliver_row_def row_message_def)
  obtain x where x: "x \<in> set ?live" "r = ?claim x" using assms(6) by (auto simp: s')
  then have grp: "r_message_group_id x = r_message_group_id p"
    using assms(7) p(3) by (auto simp: claim_row_def hide_row_def split: option.splits)
  show ?thesis
  proof (cases "r_id x \<in> r_id ` set ?ps")
    case True
    then obtain q where q: "q \<in> set ?ps" "r_id q = r_id x" by auto
    have "q = x"
      using q x(1) sqlite_picks_subset(1) [OF D q(1)] live_distinct [OF d, of now]
      by (auto simp: distinct_map dest: inj_onD)
    moreover have "p \<in> set (row_leaders True [] (select_visible D (sq_isFifo s) (unix_milli (now 2)) n ?live))"
      "q \<in> set (row_leaders True [] (select_visible D (sq_isFifo s) (unix_milli (now 2)) n ?live))"
      using p(1) q(1) assms(2) by (auto simp: sqlite_picks_def dest: in_set_takeD)
    ultimately have "p = x"
      using row_leaders_groups grp assms(5) p(3) by metis
    then show ?thesis using x(2) p(2) by simp
  next
    case False
    then have "r = x" using x(2) claim_row_other by metis
    then have "r_message_group_id p \<in> set (in_flight_groups (unix_milli (now 2)) ?live)"
      using x(1) assms(8,9) unfolding grp [symmetric] in_flight_groups_def by auto
    then show ?thesis
      using select_visible_in [OF D sqlite_picks_subset(3) [OF D p(1)]] assms(2) by simp
  qed
qed

subsection \<open>Handles, counts and the first receipt\<close>

text \<open>
  A delete removes exactly the rows that hold the handle and fails when there is none.  A
  message never received holds the empty handle: a delete with the empty handle removes all
  of them at once, and reports success.
\<close>

theorem sqlite_delete_by_handle:
  assumes "\<not> sq_closed s" "holders '''' (sq_table s) \<noteq> []"
  shows "sq_table (snd (sqlite_DeleteMessage no_fail h s)) =
      filter (\<lambda>r. r_receipt_handle r \<noteq> h) (sq_table s) \<and>
    (fst (sqlite_DeleteMessage no_fail h s) = None \<longleftrightarrow>
       h \<in> r_receipt_handle ` set (sq_table s)) \<and>
    fst (sqlite_DeleteMessage no_fail '''' s) = None \<and>
    (\<forall>r \<in> set (sq_table (snd (sqlite_DeleteMessage no_fail '''' s))). r_receipt_handle r \<noteq> '''')"
  using assms by (auto simp: sqlite_DeleteMessage_def affected_def holders_def filter_empty_conv)

text \<open>
  The three counts split the messages of the queue: visible, in flight, delayed.
\<close>

theorem sqlite_counts:
  "sqlite_ApproximateNumberOfMessages no_fail now s +
   sqlite_ApproximateNumberOfMessagesNotVisible no_fail now s +
   sqlite_ApproximateNumberOfMessagesDelayed no_fail now s = int (length (sq_table s))"
proof -
  have "length (filter (\<lambda>r. r_visible_at r \<le> ms) t) +
      length (filter (\<lambda>r. r_visible_at r > ms \<and> r_receipt_handle r \<noteq> '''') t) +
      length (filter (\<lambda>r. r_visible_at r > ms \<and> r_receipt_handle r = '''') t) = length t" for ms t
    by (induction t) auto
  then show ?thesis
    by (simp add: sqlite_ApproximateNumberOfMessages_def sqlite_ApproximateNumberOfMessagesNotVisible_def
        sqlite_ApproximateNumberOfMessagesDelayed_def count_rows_def flip: of_nat_add)
qed

definition never_first :: "sqlite_store \<Rightarrow> bool" where
  "never_first s \<longleftrightarrow> (\<forall>r \<in> set (sq_table s). r_first_received_at r = 0)"

lemma row_first_zero: "r_first_received_at r = 0 \<Longrightarrow> row_first now r = 0"
  by (simp add: row_first_def from_unix_milli_def IsZero_def zero_time_def)

lemma never_first_poll:
  assumes "sqlite_inv E D s" "never_first s"
    "sqlite_poll E D no_fail n vt now rnd s = (Inr ms, redriven, s')"
  shows "never_first s' \<and> (\<forall>m \<in> set ms. ApproximateFirstReceiveTimestamp m = 0)"
proof -
  have D: "orders_rows D" and d: "distinct (map r_id (sq_table s))"
    using assms(1) by (auto simp: sqlite_inv_def)
  have "\<not> sq_closed s" using assms(3) by (auto simp: sqlite_poll_def)
  note open_poll = sqlite_poll_open [OF D d this, of E n vt now rnd]
  have zero: "r \<in> set (sq_table s) \<Longrightarrow> row_first t r = 0" for r t
    using assms(2) row_first_zero unfolding never_first_def by blast
  have "never_first s'"
    using assms(2,3) open_poll zero
    by (auto simp: never_first_def claim_row_def hide_row_def live_rows_def unix_milli_def split: option.splits)
  moreover have "ApproximateFirstReceiveTimestamp m = 0" if m: "m \<in> set ms" for m
  proof -
    obtain k where "k < length (sqlite_picks D n now s)"
      "m = deliver_row E D s (now 2) (rnd k) (sqlite_picks D n now s ! k)"
      using m assms(3) open_poll delivered_from [of m E D s "now 2" rnd] by fastforce
    then show ?thesis using zero [OF sqlite_picks_subset(2) [OF D nth_mem]] by (simp add: deliver_row_def)
  qed
  ultimately show ?thesis by blast
qed
lemma never_first_step:
  assumes "store_step (sqlite_ops E D no_fail) (\<lambda>s s'. s' = s) sqlite_holds s e s'"
    "sqlite_inv E D s" "never_first s"
  shows "never_first s' \<and> (\<forall>m \<in> received e. ApproximateFirstReceiveTimestamp m = 0)"
  using assms
proof (induction rule: store_step.induct)
  case (SReceive now rnd n vt s ms redriven s')
  then show ?case using never_first_poll [of E D s n "sqlite_timeout vt s" now rnd] by simp
next
  case (SReceiveError now rnd n vt s e redriven s')
  then show ?case using sqlite_receive_error_law [of E D s n "sqlite_timeout vt s" now rnd] by simp
next
  case (SChange now h vt s err s')
  then show ?case
    by (auto simp: sqlite_ChangeMessageVisibility_def never_first_def update_where_def Let_def
        split: if_splits)
qed (auto simp: never_first_def sqlite_SendMessage_def sqlite_DeleteMessage_def sqlite_Purge_def
      sqlite_Close_def Let_def split: if_splits prod.splits sum.splits)

text \<open>
  The time of the first receipt is never recorded: whatever clients do, a message sent to
  a SQLite queue that started empty is delivered, the first time and every time, with the Unix
  epoch as its \<open>ApproximateFirstReceiveTimestamp\<close>.  The zero that \<open>SendMessage\<close> stores
  is read back as an instant that is not Go's zero time, so \<open>IsZero\<close> never holds.
\<close>

theorem sqlite_first_receipt_lost:
  assumes "sqlite_inv E D s" "sq_table s = []"
    "store_run (sqlite_ops E D no_fail) (\<lambda>s s'. s' = s) sqlite_holds s es s'"
    "m \<in> (\<Union>e \<in> set es. received e)"
  shows "ApproximateFirstReceiveTimestamp m = 0"
proof -
  have "never_first s" using assms(2) by (simp add: never_first_def)
  with assms(3,1) have "\<forall>m \<in> (\<Union>e \<in> set es. received e). ApproximateFirstReceiveTimestamp m = 0"
  proof (induction rule: store_run.induct)
    case (RunStep s e s' es s'')
    then show ?case using never_first_step [OF RunStep(1)] sqlite.step_inv [OF RunStep(1)] by auto
  qed simp
  then show ?thesis using assms(4) by blast
qed

subsection \<open>Restart and identifiers\<close>

lemma foldl_max_ge: "m \<le> foldl max (m :: int) ms"
proof (induction ms arbitrary: m)
  case (Cons a ms)
  have "m \<le> max m a" by simp
  also have "\<dots> \<le> foldl max (max m a) ms" by (rule Cons)
  finally show ?case by simp
qed simp

lemma foldl_max: "x \<in> set (m # ms) \<Longrightarrow> x \<le> foldl max (m :: int) ms"
proof (induction ms arbitrary: m)
  case (Cons a ms)
  have "max m a \<le> foldl max (max m a) ms" by (rule foldl_max_ge)
  with Cons show ?case by auto
qed simp

lemma foldl_max_in: "foldl max (m :: int) ms \<in> set (m # ms)"
  by (induction ms arbitrary: m) (auto simp: max_def)

text \<open>
  After a restart a FIFO queue continues its sequence: the counter loaded from the table
  is at least every sequence number stored, so the next message gets a larger one.
\<close>

theorem sqlite_restart_sequence:
  assumes "NewSQLiteStore D no_fail table q vt secret cfg = Inr s" "cfg_IsFifo cfg"
    "\<And>i. int64_range i \<Longrightarrow> cast_integer D (itoa i) = i"
    "\<And>r. r \<in> set table \<Longrightarrow> \<exists>i. int64_range i \<and> 0 < i \<and> r_sequence_number r = itoa i"
    "r \<in> set table"
  shows "\<exists>i. r_sequence_number r = itoa i \<and> i \<le> sq_sequenceCounter s"
proof -
  let ?seqs = "map (\<lambda>r. cast_integer D (r_sequence_number r)) (filter (\<lambda>r. r_sequence_number r \<noteq> '''') table)"
  have ne: "r_sequence_number x \<noteq> ''''" if x: "x \<in> set table" for x
  proof -
    obtain i where "r_sequence_number x = itoa i" using assms(4) [OF x] by blast
    then show ?thesis by (simp add: itoa_def)
  qed
  then have "filter (\<lambda>r. r_sequence_number r \<noteq> '''') table = table" by (simp add: filter_id_conv)
  then have seqs: "?seqs = map (\<lambda>r. cast_integer D (r_sequence_number r)) table" by simp
  obtain m ms where m: "?seqs = m # ms"
    using assms(5) seqs by (cases ?seqs) auto
  have val: "int64_range i \<and> 0 < i" if "i \<in> set ?seqs" for i
    using that assms(3,4) unfolding seqs by fastforce
  have max: "int64_range (foldl max m ms)" "0 < foldl max m ms"
    using val foldl_max_in [of m ms] unfolding m by blast+
  then have "sq_sequenceCounter s = foldl max m ms"
    using assms(1,2) m Atoi_itoa [OF max(1)]
    by (auto simp: NewSQLiteStore_def sqlite_loadSequenceCounter_def Let_def split: if_splits)
  moreover obtain i where i: "int64_range i" "r_sequence_number r = itoa i" using assms(4,5) by blast
  then have "i \<in> set (m # ms)" using assms(3) [OF i(1)] assms(5) m seqs by (force simp flip: m)
  then have "i \<le> foldl max m ms" by (rule foldl_max)
  ultimately show ?thesis using i(2) by auto
qed

lemma hex_byte_word: "c \<in> set (hex_byte b) \<Longrightarrow> word_byte c"
proof -
  have digit: "word_byte (hex_digit n)" if "n < 16" for n
    using that by (cases "n < 10") (auto simp: hex_digit_def word_byte_def)
  have "(of_char b :: nat) < 256" by simp
  then have "(of_char b :: nat) div 16 < 16" by (simp add: less_mult_imp_div_less)
  then show "c \<in> set (hex_byte b) \<Longrightarrow> word_byte c"
    using digit by (auto simp: hex_byte_def)
qed

text \<open>
  Whatever the queue is called, the table name spliced into the SQL text consists of
  letters, digits and underscores only.
\<close>

theorem tableName_safe:
  "list_all word_byte (tableName E queueName)"
proof -
  have "word_byte c" if "c \<in> set (EncodeToString_hex s)" for c s
    using that hex_byte_word by (auto simp: EncodeToString_hex_def)
  then show ?thesis
    by (auto simp: tableName_def list_all_iff word_byte_def)
qed

end
