(* ===== verification/BadgerStore.thy ===== *)
theory BadgerStore
  imports StoreContract "HOL-Library.Multiset" "HOL-Library.Char_ord" "HOL-Library.List_Lexorder"
begin

section \<open>The BadgerDB store\<close>

text \<open>
  \<^verbatim>\<open>pkgs/v1/queue/store/badger/badger.go\<close>.  All queues, and the credentials, share one
  database: keys and values are byte strings, and an iterator visits the keys in byte order.
  A message of a queue is a \<open>storedMessage\<close> in JSON under the key \<open>q:name:id\<close>.
  \<open>encoding/json\<close> and the order \<open>sort.Slice\<close> gives to equal elements are parameters
  (\<open>codec\<close>); \<open>fails\<close> tells which transactions of a call fail.  A transaction that fails
  changes nothing.
\<close>

type_synonym kv = "(string \<times> string) list"

fun db_set :: "string \<Rightarrow> string \<Rightarrow> kv \<Rightarrow> kv" where
  "db_set k v [] = [(k, v)]"
| "db_set k v ((k', v') # rest) =
     (if k = k' then (k, v) # rest
      else if k < k' then (k, v) # (k', v') # rest
      else (k', v') # db_set k v rest)"

definition db_delete :: "string \<Rightarrow> kv \<Rightarrow> kv" where
  "db_delete k db = filter (\<lambda>(k', v). k' \<noteq> k) db"

text \<open>What an iterator with a prefix visits.\<close>

definition items :: "string \<Rightarrow> kv \<Rightarrow> kv" where
  "items keyPrefix db = filter (\<lambda>(k, v). HasPrefix k keyPrefix) db"

record storedMessage =
  sm_ID :: string
  sm_Body :: string
  sm_MD5OfBody :: string
  sm_MD5OfMsgAttrs :: string
  sm_MessageAttrs :: "message_attribute gomap"
  sm_SystemAttrs :: "message_attribute gomap"
  sm_SentTimestamp :: int
  sm_VisibleAt :: int
  sm_ReceiptHandle :: string
  sm_ReceiveCount :: int
  sm_FirstReceivedAt :: int
  sm_SequenceNumber :: string
  sm_DedupID :: string
  sm_GroupID :: string

record candidate_b =
  cb_key :: string
  cb_msg :: message
  cb_sm :: storedMessage
  cb_receiveCount :: int
  cb_firstReceived :: time

record codec =
  marshal_stored :: "storedMessage \<Rightarrow> string + string"
  unmarshal_stored :: "string \<Rightarrow> storedMessage option"
  sort_by_sent :: "candidate_b list \<Rightarrow> candidate_b list"

definition codec_ok :: "codec \<Rightarrow> bool" where
  "codec_ok C \<longleftrightarrow>
     (\<forall>sm. \<exists>data. marshal_stored C sm = Inr data \<and> unmarshal_stored C data = Some sm) \<and>
     (\<forall>cs. mset (sort_by_sent C cs) = mset cs \<and>
        sorted (map (sm_SentTimestamp \<circ> cb_sm) (sort_by_sent C cs)))"

datatype txn =
  LoadView | SendUpdate | ExpireUpdate | ReceiveView | ReceiveUpdate | ReceiveSet nat
  | RedriveView | RedriveUpdate | DeleteUpdate | ChangeUpdate | CountView | PurgeUpdate

type_synonym txn_fails = "txn \<Rightarrow> string option"

record badger_store =
  bd_db :: kv
  bd_queueName :: string
  bd_keyPrefix :: string
  bd_visibilityTimeout :: int
  bd_serverSecret :: string
  bd_closed :: bool
  bd_isFifo :: bool
  bd_contentBasedDeduplication :: bool
  bd_dedupCache :: dedup_cache
  bd_sequenceCounter :: int
  bd_maxReceiveCount :: int
  bd_redriveFunc :: "string option"
  bd_messageRetentionPeriod :: int

subsection \<open>Construction\<close>

definition max_sequence :: "codec \<Rightarrow> int \<Rightarrow> kv \<Rightarrow> int" where
  "max_sequence C counter kvs =
     fold (\<lambda>(k, v) n. case unmarshal_stored C v of
             None \<Rightarrow> n
           | Some sm \<Rightarrow>
               if sm_SequenceNumber sm = '''' then n
               else (case ParseInt (sm_SequenceNumber sm) of
                       (i, NumOK) \<Rightarrow> if i > n then i else n | _ \<Rightarrow> n)) kvs counter"

definition badger_loadSequenceCounter ::
  "codec \<Rightarrow> txn_fails \<Rightarrow> badger_store \<Rightarrow> go_error option \<times> badger_store" where
  "badger_loadSequenceCounter C fails s =
     (case fails LoadView of
        Some e \<Rightarrow> (Some (Errorf e), s)
      | None \<Rightarrow> (None, s\<lparr> bd_sequenceCounter :=
                   max_sequence C (bd_sequenceCounter s) (items (bd_keyPrefix s) (bd_db s)) \<rparr>))"

definition NewBadgerStore ::
  "codec \<Rightarrow> txn_fails \<Rightarrow> kv \<Rightarrow> string \<Rightarrow> int \<Rightarrow> string \<Rightarrow> StoreConfig
   \<Rightarrow> go_error + badger_store" where
  "NewBadgerStore C fails db queueName visibilityTimeout serverSecret cfg =
     (if CHR '':'' \<in> set queueName
      then Inl (Errorf (''invalid queue name '' @ quote queueName @ '': contains '' @ [CHR 0x27] @
             '':'' @ [CHR 0x27]))
      else
        let s = \<lparr> bd_db = db, bd_queueName = queueName,
                  bd_keyPrefix = ''q:'' @ queueName @ '':'',
                  bd_visibilityTimeout = visibilityTimeout, bd_serverSecret = serverSecret,
                  bd_closed = False, bd_isFifo = cfg_IsFifo cfg,
                  bd_contentBasedDeduplication = cfg_ContentBasedDeduplication cfg,
                  bd_dedupCache = (\<lambda>_. None), bd_sequenceCounter = 0,
                  bd_maxReceiveCount = cfg_MaxReceiveCount cfg,
                  bd_redriveFunc = cfg_RedriveFunc cfg,
                  bd_messageRetentionPeriod = cfg_MessageRetentionPeriod cfg \<rparr>
        in if bd_isFifo s then
             (case badger_loadSequenceCounter C fails s of
                (Some e, s') \<Rightarrow>
                  Inl (Errorf (''failed to load sequence counter: '' @ error_text e))
              | (None, s') \<Rightarrow> Inr s')
           else Inr s)"

definition msgKey :: "badger_store \<Rightarrow> string \<Rightarrow> string" where
  "msgKey s messageID = bd_keyPrefix s @ messageID"

definition storedToMessage :: "storedMessage \<Rightarrow> message" where
  "storedToMessage sm = zero_message\<lparr> MessageID := sm_ID sm, Body := sm_Body sm,
     MD5OfBody := sm_MD5OfBody sm, MD5OfMessageAttributes := sm_MD5OfMsgAttrs sm,
     MessageAttributes := sm_MessageAttrs sm, SystemAttributes := sm_SystemAttrs sm,
     SentTimestamp := from_unix_milli (sm_SentTimestamp sm),
     SequenceNumber := sm_SequenceNumber sm,
     MessageDeduplicationID := sm_DedupID sm, MessageGroupID := sm_GroupID sm \<rparr>"

subsection \<open>Sending\<close>

definition badger_SendMessage ::
  "env \<Rightarrow> codec \<Rightarrow> txn_fails \<Rightarrow> clock \<Rightarrow> message \<Rightarrow> int \<Rightarrow> badger_store
   \<Rightarrow> go_error option \<times> message \<times> badger_store" where
  "badger_SendMessage E C fails now msg delaySeconds s =
     (if bd_closed s then (Some store_closed, msg, s)
      else
        let (dup, cache, counter, msg1) =
              (if bd_isFifo s
               then fifo_admit E (bd_contentBasedDeduplication s) now (bd_dedupCache s)
                      (bd_sequenceCounter s) msg
               else (False, bd_dedupCache s, bd_sequenceCounter s, msg));
            s1 = s\<lparr> bd_dedupCache := cache, bd_sequenceCounter := counter \<rparr>
        in if dup then (None, msg, s1)
           else
             let visibleAt = (if delaySeconds > 0 then now 2 + seconds delaySeconds else now 2);
                 msg2 = msg1\<lparr> SentTimestamp := now 2, IsVisible := (delaySeconds = 0) \<rparr>;
                 sm = \<lparr> sm_ID = MessageID msg2, sm_Body = Body msg2,
                        sm_MD5OfBody = MD5OfBody msg2,
                        sm_MD5OfMsgAttrs = MD5OfMessageAttributes msg2,
                        sm_MessageAttrs = MessageAttributes msg2,
                        sm_SystemAttrs = SystemAttributes msg2,
                        sm_SentTimestamp = unix_milli (now 2),
                        sm_VisibleAt = unix_milli visibleAt, sm_ReceiptHandle = '''',
                        sm_ReceiveCount = 0, sm_FirstReceivedAt = 0,
                        sm_SequenceNumber = SequenceNumber msg2,
                        sm_DedupID = MessageDeduplicationID msg2,
                        sm_GroupID = MessageGroupID msg2 \<rparr>
             in case marshal_stored C sm of
                  Inl e \<Rightarrow> (Some (Errorf (''failed to marshal message: '' @ e)), msg2, s1)
                | Inr data \<Rightarrow>
                    (case fails SendUpdate of
                       Some e \<Rightarrow> (Some (Errorf (''failed to store message: '' @ e)), msg2, s1)
                     | None \<Rightarrow> (None, msg2, s1\<lparr> bd_db :=
                                 db_set (msgKey s1 (MessageID msg2)) data (bd_db s1) \<rparr>)))"

subsection \<open>Receiving\<close>

definition badger_deleteExpiredMessages ::
  "codec \<Rightarrow> txn_fails \<Rightarrow> time \<Rightarrow> badger_store \<Rightarrow> badger_store" where
  "badger_deleteExpiredMessages C fails now s =
     (let cutoff = unix_milli (retention_cutoff (bd_messageRetentionPeriod s) now);
          old = (\<lambda>v. case unmarshal_stored C v of
                        None \<Rightarrow> False | Some sm \<Rightarrow> sm_SentTimestamp sm < cutoff);
          keysToDelete = map fst (filter (\<lambda>(k, v). old v) (items (bd_keyPrefix s) (bd_db s)))
      in if fails ExpireUpdate \<noteq> None then s
         else s\<lparr> bd_db := fold db_delete keysToDelete (bd_db s) \<rparr>)"

text \<open>The scan for candidates; \<open>groups\<close> is the set of groups seen in flight or taken.\<close>

fun badger_scan ::
  "codec \<Rightarrow> bool \<Rightarrow> int \<Rightarrow> int \<Rightarrow> string list \<Rightarrow> candidate_b list \<Rightarrow> kv \<Rightarrow> candidate_b list" where
  "badger_scan C fifo maxMessages nowMilli groups cs [] = cs"
| "badger_scan C fifo maxMessages nowMilli groups cs ((k, v) # rest) =
     (case unmarshal_stored C v of
        None \<Rightarrow> badger_scan C fifo maxMessages nowMilli groups cs rest
      | Some sm \<Rightarrow>
          let grp = sm_GroupID sm in
          if sm_VisibleAt sm > nowMilli then
            badger_scan C fifo maxMessages nowMilli
              (if fifo \<and> grp \<noteq> '''' \<and> sm_ReceiptHandle sm \<noteq> '''' then grp # groups else groups)
              cs rest
          else if fifo \<and> grp \<noteq> '''' \<and> grp \<in> set groups then
            badger_scan C fifo maxMessages nowMilli groups cs rest
          else if fifo \<and> grp \<noteq> '''' \<and> sm_ReceiptHandle sm \<noteq> '''' then
            badger_scan C fifo maxMessages nowMilli (grp # groups) cs rest
          else
            let groups' = (if fifo \<and> grp \<noteq> '''' then grp # groups else groups);
                cs' = cs @ [\<lparr> cb_key = k, cb_msg = storedToMessage sm, cb_sm = sm,
                              cb_receiveCount = sm_ReceiveCount sm,
                              cb_firstReceived = from_unix_milli (sm_FirstReceivedAt sm) \<rparr>]
            in if int (length cs') \<ge> maxMessages then cs'
               else badger_scan C fifo maxMessages nowMilli groups' cs' rest)"

fun badger_claim ::
  "env \<Rightarrow> codec \<Rightarrow> txn_fails \<Rightarrow> int \<Rightarrow> time \<Rightarrow> time \<Rightarrow> (nat \<Rightarrow> string) \<Rightarrow> string \<Rightarrow> string
   \<Rightarrow> nat \<Rightarrow> candidate_b list \<Rightarrow> message list \<Rightarrow> kv \<Rightarrow> message list \<times> kv" where
  "badger_claim E C fails maxMessages now newVisibleAt rnd queue secret n [] result db = (result, db)"
| "badger_claim E C fails maxMessages now newVisibleAt rnd queue secret n (c # cs) result db =
     (let newReceiveCount = cb_receiveCount c + 1;
          firstReceived = (if IsZero (cb_firstReceived c) then now else cb_firstReceived c);
          handle = generateReceiptHandle E queue secret (MessageID (cb_msg c)) now (rnd n);
          sm = (cb_sm c)\<lparr> sm_ReceiptHandle := handle, sm_VisibleAt := unix_milli newVisibleAt,
                 sm_ReceiveCount := newReceiveCount,
                 sm_FirstReceivedAt := unix_milli firstReceived \<rparr>
      in case marshal_stored C sm of
           Inl e \<Rightarrow>
             badger_claim E C fails maxMessages now newVisibleAt rnd queue secret (Suc n) cs result db
         | Inr data \<Rightarrow>
             if fails (ReceiveSet n) \<noteq> None then
               badger_claim E C fails maxMessages now newVisibleAt rnd queue secret (Suc n) cs result db
             else
               let db' = db_set (cb_key c) data db;
                   result' = result @ [(cb_msg c)\<lparr> ReceiptHandle := handle, IsVisible := False,
                     ApproximateReceiveCount := newReceiveCount, ReceivedTimestamp := now,
                     ApproximateFirstReceiveTimestamp := firstReceived \<rparr>]
               in if int (length result') \<ge> maxMessages then (result', db')
                  else badger_claim E C fails maxMessages now newVisibleAt rnd queue secret (Suc n)
                         cs result' db')"

definition badger_redrive_due :: "int \<Rightarrow> int \<Rightarrow> storedMessage \<Rightarrow> bool" where
  "badger_redrive_due nowMilli maxReceiveCount sm \<longleftrightarrow>
     sm_VisibleAt sm \<le> nowMilli \<and> sm_ReceiptHandle sm \<noteq> '''' \<and> sm_ReceiveCount sm \<ge> maxReceiveCount"

definition badger_redriveIfNeeded ::
  "codec \<Rightarrow> txn_fails \<Rightarrow> time \<Rightarrow> badger_store \<Rightarrow> message list \<times> badger_store" where
  "badger_redriveIfNeeded C fails now s =
     (if bd_maxReceiveCount s \<le> 0 \<or> bd_redriveFunc s = None then ([], s)
      else if fails RedriveView \<noteq> None then ([], s)
      else
        let toRedrive = concat (map (\<lambda>(k, v). case unmarshal_stored C v of
                  None \<Rightarrow> []
                | Some sm \<Rightarrow>
                    if badger_redrive_due (unix_milli now) (bd_maxReceiveCount s) sm
                    then [(k, storedToMessage sm)] else [])
              (items (bd_keyPrefix s) (bd_db s)))
        in if toRedrive = [] then ([], s)
           else if fails RedriveUpdate \<noteq> None then ([], s)
           else (map (PrepareForRedrive \<circ> snd) toRedrive,
                 s\<lparr> bd_db := fold db_delete (map fst toRedrive) (bd_db s) \<rparr>))"

definition badger_poll ::
  "env \<Rightarrow> codec \<Rightarrow> txn_fails \<Rightarrow> int \<Rightarrow> int \<Rightarrow> clock \<Rightarrow> (nat \<Rightarrow> string) \<Rightarrow> badger_store
   \<Rightarrow> (go_error + message list) \<times> message list \<times> badger_store" where
  "badger_poll E C fails maxMessages vt now rnd s =
     (if bd_closed s then (Inl store_closed, [], s)
      else
        let (redriven, s1) = badger_redriveIfNeeded C fails (now 0) s;
            s2 = badger_deleteExpiredMessages C fails (now 1) s1
        in case fails ReceiveView of
             Some e \<Rightarrow> (Inl (Errorf (''failed to query messages: '' @ e)), redriven, s2)
           | None \<Rightarrow>
               let candidates = sort_by_sent C (badger_scan C (bd_isFifo s2) maxMessages
                     (unix_milli (now 2)) [] [] (items (bd_keyPrefix s2) (bd_db s2)))
               in if candidates = [] then (Inr [], redriven, s2)
                  else
                    let (result, db') = badger_claim E C fails maxMessages (now 2)
                          (now 2 + seconds vt) rnd (bd_queueName s2) (bd_serverSecret s2) 0
                          candidates [] (bd_db s2)
                    in case fails ReceiveUpdate of
                         Some e \<Rightarrow> (Inl (Errorf (''failed to update messages: '' @ e)), redriven, s2)
                       | None \<Rightarrow> (Inr result, redriven, s2\<lparr> bd_db := db' \<rparr>))"

definition badger_timeout :: "int \<Rightarrow> badger_store \<Rightarrow> int" where
  "badger_timeout visibilityTimeout s =
     (if visibilityTimeout \<le> 0 then bd_visibilityTimeout s else visibilityTimeout)"

text \<open>The whole call: between two turns it sleeps without the mutex.\<close>

record badger_turn =
  bt_now :: clock
  bt_nonces :: "nat \<Rightarrow> string"
  bt_fails :: txn_fails
  bt_remaining :: int
  bt_others :: "badger_store \<Rightarrow> badger_store"
  bt_slept :: bool

fun badger_turns ::
  "env \<Rightarrow> codec \<Rightarrow> int \<Rightarrow> int \<Rightarrow> int \<Rightarrow> badger_turn list \<Rightarrow> badger_store
   \<Rightarrow> (go_error + message list) option \<times> message list \<times> badger_store" where
  "badger_turns E C maxMessages vt waitTimeSeconds [] s = (None, [], s)"
| "badger_turns E C maxMessages vt waitTimeSeconds (p # ps) s =
     (case badger_poll E C (bt_fails p) maxMessages vt (bt_now p) (bt_nonces p) s of
        (Inl e, redriven, s') \<Rightarrow> (Some (Inl e), redriven, s')
      | (Inr result, redriven, s') \<Rightarrow>
          if result \<noteq> [] then (Some (Inr result), redriven, s')
          else if waitTimeSeconds \<le> 0 then (Some (Inr []), redriven, s')
          else if bt_remaining p \<le> 0 then (Some (Inr []), redriven, s')
          else
            let s'' = bt_others p s' in
            if bt_slept p then
              let (r, red, s3) = badger_turns E C maxMessages vt waitTimeSeconds ps s''
              in (r, redriven @ red, s3)
            else (Some (Inl (Errorf ''context canceled'')), redriven, s''))"

definition badger_ReceiveMessages ::
  "env \<Rightarrow> codec \<Rightarrow> badger_turn list \<Rightarrow> int \<Rightarrow> int \<Rightarrow> int \<Rightarrow> badger_store
   \<Rightarrow> (go_error + message list) option \<times> message list \<times> badger_store" where
  "badger_ReceiveMessages E C turns maxMessages visibilityTimeout waitTimeSeconds s =
     badger_turns E C maxMessages (badger_timeout visibilityTimeout s) waitTimeSeconds turns s"

subsection \<open>Deleting and changing visibility\<close>

text \<open>The first message in key order that holds the handle.\<close>

definition held_by :: "codec \<Rightarrow> string \<Rightarrow> string \<times> string \<Rightarrow> bool" where
  "held_by C h kv = (case unmarshal_stored C (snd kv) of
     None \<Rightarrow> False | Some sm \<Rightarrow> sm_ReceiptHandle sm = h)"

definition badger_DeleteMessage ::
  "codec \<Rightarrow> txn_fails \<Rightarrow> string \<Rightarrow> badger_store \<Rightarrow> go_error option \<times> badger_store" where
  "badger_DeleteMessage C fails receiptHandle s =
     (if bd_closed s then (Some store_closed, s)
      else
        case fails DeleteUpdate of
          Some e \<Rightarrow> (Some (Errorf (''failed to delete message: '' @ e)), s)
        | None \<Rightarrow>
            (case find (held_by C receiptHandle) (items (bd_keyPrefix s) (bd_db s)) of
               None \<Rightarrow> (Some (invalid_handle receiptHandle), s)
             | Some (k, v) \<Rightarrow> (None, s\<lparr> bd_db := db_delete k (bd_db s) \<rparr>)))"

definition badger_ChangeMessageVisibility ::
  "codec \<Rightarrow> txn_fails \<Rightarrow> clock \<Rightarrow> string \<Rightarrow> int \<Rightarrow> badger_store \<Rightarrow> go_error option \<times> badger_store"
where
  "badger_ChangeMessageVisibility C fails now receiptHandle visibilityTimeout s =
     (if bd_closed s then (Some store_closed, s)
      else
        case find (held_by C receiptHandle) (items (bd_keyPrefix s) (bd_db s)) of
          None \<Rightarrow>
            (case fails ChangeUpdate of
               Some e \<Rightarrow> (Some (Errorf (''failed to change message visibility: '' @ e)), s)
             | None \<Rightarrow> (Some (invalid_handle receiptHandle), s))
        | Some (k, v) \<Rightarrow>
            let sm = the (unmarshal_stored C v);
                sm' = (if visibilityTimeout = 0
                       then sm\<lparr> sm_VisibleAt := unix_milli (now 0), sm_ReceiptHandle := '''' \<rparr>
                       else sm\<lparr> sm_VisibleAt := unix_milli (now 0 + seconds visibilityTimeout) \<rparr>)
            in case marshal_stored C sm' of
                 Inl e \<Rightarrow> (Some (Errorf (''failed to change message visibility: '' @
                              ''failed to marshal message: '' @ e)), s)
               | Inr data \<Rightarrow>
                   (case fails ChangeUpdate of
                      Some e \<Rightarrow> (Some (Errorf (''failed to change message visibility: '' @ e)), s)
                    | None \<Rightarrow> (None, s\<lparr> bd_db := db_set k data (bd_db s) \<rparr>)))"

subsection \<open>Counts, purge, close\<close>

definition count_stored ::
  "codec \<Rightarrow> txn_fails \<Rightarrow> (storedMessage \<Rightarrow> bool) \<Rightarrow> badger_store \<Rightarrow> int" where
  "count_stored C fails P s =
     (if fails CountView \<noteq> None then 0
      else int (length (filter (\<lambda>(k, v). case unmarshal_stored C v of
                                  None \<Rightarrow> False | Some sm \<Rightarrow> P sm)
                          (items (bd_keyPrefix s) (bd_db s)))))"

definition badger_ApproximateNumberOfMessages ::
  "codec \<Rightarrow> txn_fails \<Rightarrow> time \<Rightarrow> badger_store \<Rightarrow> int" where
  "badger_ApproximateNumberOfMessages C fails now s =
     count_stored C fails (\<lambda>sm. sm_VisibleAt sm \<le> unix_milli now) s"

definition badger_ApproximateNumberOfMessagesNotVisible ::
  "codec \<Rightarrow> txn_fails \<Rightarrow> time \<Rightarrow> badger_store \<Rightarrow> int" where
  "badger_ApproximateNumberOfMessagesNotVisible C fails now s =
     count_stored C fails (\<lambda>sm. sm_VisibleAt sm > unix_milli now \<and> sm_ReceiptHandle sm \<noteq> '''') s"

definition badger_ApproximateNumberOfMessagesDelayed ::
  "codec \<Rightarrow> txn_fails \<Rightarrow> time \<Rightarrow> badger_store \<Rightarrow> int" where
  "badger_ApproximateNumberOfMessagesDelayed C fails now s =
     count_stored C fails (\<lambda>sm. sm_VisibleAt sm > unix_milli now \<and> sm_ReceiptHandle sm = '''') s"

definition badger_Purge ::
  "txn_fails \<Rightarrow> badger_store \<Rightarrow> go_error option \<times> badger_store" where
  "badger_Purge fails s =
     (if bd_closed s then (Some store_closed, s)
      else
        case fails PurgeUpdate of
          Some e \<Rightarrow> (Some (Errorf (''failed to purge queue: '' @ e)), s)
        | None \<Rightarrow> (None, s\<lparr> bd_db := fold db_delete (map fst (items (bd_keyPrefix s) (bd_db s)))
                              (bd_db s), bd_dedupCache := (\<lambda>_. None) \<rparr>))"

definition badger_Close :: "badger_store \<Rightarrow> go_error option \<times> badger_store" where
  "badger_Close s = (None, s\<lparr> bd_closed := True \<rparr>)"

definition badger_ops :: "env \<Rightarrow> codec \<Rightarrow> txn_fails \<Rightarrow> badger_store store_ops" where
  "badger_ops E C fails = \<lparr>
     op_SendMessage = badger_SendMessage E C fails,
     op_ReceiveMessages = (\<lambda>now rnd n vt s.
       badger_poll E C fails n (badger_timeout vt s) now rnd s),
     op_DeleteMessage = badger_DeleteMessage C fails,
     op_ChangeMessageVisibility = badger_ChangeMessageVisibility C fails,
     op_ApproximateNumberOfMessages = badger_ApproximateNumberOfMessages C fails,
     op_ApproximateNumberOfMessagesNotVisible =
       badger_ApproximateNumberOfMessagesNotVisible C fails,
     op_ApproximateNumberOfMessagesDelayed = badger_ApproximateNumberOfMessagesDelayed C fails,
     op_Purge = badger_Purge fails,
     op_Close = badger_Close \<rparr>"

end
