(* ===== verification/BadgerProperties.thy ===== *)
theory BadgerProperties
  imports BadgerStore
begin

section \<open>The BadgerDB store: what its operations promise\<close>

text \<open>
  The database as a map, the candidates a receive finds, the contract of
  \<open>StoreContract\<close>, the isolation of queues that share a database, and the FIFO messages
  that are never delivered again.  The statements are about calls whose transactions do not
  fail.
\<close>

abbreviation no_txn_fail :: txn_fails where
  "no_txn_fail \<equiv> (\<lambda>_. None)"

subsection \<open>The database as a map\<close>

definition sorted_db :: "kv \<Rightarrow> bool" where
  "sorted_db db \<longleftrightarrow> sorted_wrt (<) (map fst db)"

lemma sorted_db_distinct: "sorted_db db \<Longrightarrow> distinct (map fst db)"
  by (simp add: sorted_db_def strict_sorted_iff)

lemma set_db_set: "fst ` set (db_set k v db) = insert k (fst ` set db)"
  by (induction k v db rule: db_set.induct) auto

lemma sorted_db_set: "sorted_db db \<Longrightarrow> sorted_db (db_set k v db)"
proof (induction k v db rule: db_set.induct)
  case (2 k v k' v' rest)
  have keys: "fst x = k \<or> fst x \<in> fst ` set rest" if "x \<in> set (db_set k v rest)" for x
    using that set_db_set [of k v rest] by (metis image_eqI insertE)
  have "k' < fst x" if x: "x \<in> set (db_set k v rest)" "\<not> k < k'" "k \<noteq> k'" for x
  proof -
    have "k' < k" using x(2,3) by simp
    then show ?thesis using keys [OF x(1)] "2.prems" by (auto simp: sorted_db_def)
  qed
  with 2 show ?case by (auto simp: sorted_db_def dest: less_trans)
qed (simp add: sorted_db_def)

lemma map_of_db_set: "sorted_db db \<Longrightarrow> map_of (db_set k v db) = (map_of db)(k \<mapsto> v)"
proof (induction k v db rule: db_set.induct)
  case (2 k v k' v' rest)
  show ?case
  proof (cases "k = k' \<or> k < k'")
    case True
    then show ?thesis by (auto simp: fun_eq_iff)
  next
    case False
    then show ?thesis using 2 by (auto simp: fun_eq_iff sorted_db_def)
  qed
qed simp

lemma sorted_db_filter: "sorted_db db \<Longrightarrow> sorted_db (filter P db)"
  by (induction db) (auto simp: sorted_db_def)

lemma sorted_db_delete: "sorted_db db \<Longrightarrow> sorted_db (db_delete k db)"
  by (simp add: db_delete_def sorted_db_filter)

lemma map_of_db_delete: "map_of (db_delete k db) = (map_of db)(k := None)"
  by (induction db) (auto simp: db_delete_def fun_eq_iff)

lemma sorted_db_deletes: "sorted_db db \<Longrightarrow> sorted_db (fold db_delete ks db)"
  by (induction ks arbitrary: db) (auto intro: sorted_db_delete)

lemma map_of_db_deletes: "map_of (fold db_delete ks db) = (\<lambda>k. if k \<in> set ks then None else map_of db k)"
  by (induction ks arbitrary: db) (auto simp: map_of_db_delete fun_eq_iff)

lemma HasPrefix_iff: "HasPrefix k p \<longleftrightarrow> (\<exists>i. k = p @ i)"
  by (metis HasPrefix_append HasPrefix_def append_take_drop_id)

lemma items_iff:
  assumes "sorted_db db"
  shows "(k, v) \<in> set (items p db) \<longleftrightarrow> (\<exists>i. k = p @ i) \<and> map_of db k = Some v"
  using sorted_db_distinct [OF assms] by (auto simp: items_def HasPrefix_iff)

lemma items_distinct: "sorted_db db \<Longrightarrow> distinct (map fst (items p db))"
  using sorted_db_distinct [OF sorted_db_filter] unfolding items_def by blast

subsection \<open>The messages of a queue\<close>

definition stored :: "codec \<Rightarrow> badger_store \<Rightarrow> string \<Rightarrow> storedMessage option" where
  "stored C s i = Option.bind (map_of (bd_db s) (msgKey s i)) (unmarshal_stored C)"

definition enc :: "codec \<Rightarrow> storedMessage \<Rightarrow> string" where
  "enc C sm = projr (marshal_stored C sm)"

lemma codec_enc:
  assumes "codec_ok C"
  shows "marshal_stored C sm = Inr (enc C sm)" "unmarshal_stored C (enc C sm) = Some sm"
proof -
  obtain data where d: "marshal_stored C sm = Inr data" "unmarshal_stored C data = Some sm"
    using assms unfolding codec_ok_def by blast
  then show "marshal_stored C sm = Inr (enc C sm)" "unmarshal_stored C (enc C sm) = Some sm"
    by (simp_all add: enc_def)
qed

lemma codec_sorts:
  assumes "codec_ok C"
  shows "mset (sort_by_sent C cs) = mset cs" "set (sort_by_sent C cs) = set cs"
    "length (sort_by_sent C cs) = length cs"
proof -
  show "mset (sort_by_sent C cs) = mset cs" using assms by (simp add: codec_ok_def)
  then show "set (sort_by_sent C cs) = set cs" "length (sort_by_sent C cs) = length cs"
    by (metis set_mset_mset, metis size_mset)
qed

definition badger_inv :: "env \<Rightarrow> codec \<Rightarrow> badger_store \<Rightarrow> bool" where
  "badger_inv E C s \<longleftrightarrow> env_ok E \<and> codec_ok C \<and> sorted_db (bd_db s) \<and>
     (\<forall>i sm. stored C s i = Some sm \<longrightarrow> sm_ID sm = i \<and>
        (sm_ReceiptHandle sm \<noteq> '''' \<longrightarrow>
           issued E (bd_queueName s) (bd_serverSecret s) i (sm_ReceiptHandle sm)))"

definition badger_holds :: "codec \<Rightarrow> badger_store \<Rightarrow> string \<Rightarrow> string \<Rightarrow> bool" where
  "badger_holds C s i h \<longleftrightarrow> (\<exists>sm. stored C s i = Some sm \<and> sm_ReceiptHandle sm = h)"

definition badger_visible :: "codec \<Rightarrow> badger_store \<Rightarrow> string \<Rightarrow> int" where
  "badger_visible C s i = (case stored C s i of Some sm \<Rightarrow> sm_VisibleAt sm | None \<Rightarrow> 0)"

lemma stored_item:
  assumes "sorted_db (bd_db s)" "(k, v) \<in> set (items (bd_keyPrefix s) (bd_db s))"
    "unmarshal_stored C v = Some sm"
  shows "\<exists>i. k = msgKey s i \<and> stored C s i = Some sm"
  using assms by (auto simp: items_iff stored_def msgKey_def)

lemma stored_set:
  "sorted_db (bd_db s) \<Longrightarrow> stored C (s\<lparr> bd_db := db_set (msgKey s j) v (bd_db s) \<rparr>) i =
   (if i = j then unmarshal_stored C v else stored C s i)"
  by (simp add: stored_def msgKey_def map_of_db_set)

lemma stored_deletes:
  "stored C (s\<lparr> bd_db := fold db_delete ks (bd_db s) \<rparr>) i =
   (if msgKey s i \<in> set ks then None else stored C s i)"
  by (simp add: stored_def msgKey_def map_of_db_deletes)

lemma stored_frame [simp]:
  "stored C (s\<lparr> bd_dedupCache := c \<rparr>) = stored C s"
  "stored C (s\<lparr> bd_sequenceCounter := n \<rparr>) = stored C s"
  "stored C (s\<lparr> bd_closed := b \<rparr>) = stored C s"
  "msgKey (s\<lparr> bd_dedupCache := c \<rparr>) = msgKey s"
  "msgKey (s\<lparr> bd_sequenceCounter := n \<rparr>) = msgKey s"
  "msgKey (s\<lparr> bd_db := db \<rparr>) = msgKey s"
  by (simp_all add: stored_def msgKey_def fun_eq_iff)

text \<open>A call that only takes messages away.\<close>

lemma badger_inv_less:
  assumes "badger_inv E C s" "s' = s\<lparr> bd_db := db \<rparr>" "sorted_db db"
    "\<And>i sm. stored C s' i = Some sm \<Longrightarrow> stored C s i = Some sm"
  shows "badger_inv E C s'"
  using assms unfolding badger_inv_def by auto

lemma holds_less:
  assumes "\<And>i sm. stored C s' i = Some sm \<Longrightarrow> stored C s i = Some sm" "badger_holds C s' i h"
  shows "badger_holds C s i h \<and> badger_visible C s' i = badger_visible C s i"
  using assms by (force simp: badger_holds_def badger_visible_def)
subsection \<open>What a receive delivers\<close>

definition stored_first :: "time \<Rightarrow> storedMessage \<Rightarrow> time" where
  "stored_first now sm =
     (if IsZero (from_unix_milli (sm_FirstReceivedAt sm)) then now
      else from_unix_milli (sm_FirstReceivedAt sm))"

definition stored_handle :: "env \<Rightarrow> badger_store \<Rightarrow> time \<Rightarrow> string \<Rightarrow> storedMessage \<Rightarrow> string" where
  "stored_handle E s now nonce sm =
     generateReceiptHandle E (bd_queueName s) (bd_serverSecret s) (sm_ID sm) now nonce"

definition deliver_stored :: "env \<Rightarrow> badger_store \<Rightarrow> time \<Rightarrow> string \<Rightarrow> storedMessage \<Rightarrow> message" where
  "deliver_stored E s now nonce sm = (storedToMessage sm)\<lparr>
     ReceiptHandle := stored_handle E s now nonce sm, IsVisible := False,
     ApproximateReceiveCount := sm_ReceiveCount sm + 1, ReceivedTimestamp := now,
     ApproximateFirstReceiveTimestamp := stored_first now sm \<rparr>"

definition hide_stored ::
  "env \<Rightarrow> badger_store \<Rightarrow> time \<Rightarrow> time \<Rightarrow> string \<Rightarrow> storedMessage \<Rightarrow> storedMessage" where
  "hide_stored E s now newVisibleAt nonce sm = sm\<lparr> sm_ReceiptHandle := stored_handle E s now nonce sm,
     sm_VisibleAt := unix_milli newVisibleAt, sm_ReceiveCount := sm_ReceiveCount sm + 1,
     sm_FirstReceivedAt := unix_milli (stored_first now sm) \<rparr>"

definition candidate_at :: "string \<Rightarrow> storedMessage \<Rightarrow> candidate_b" where
  "candidate_at k sm = \<lparr> cb_key = k, cb_msg = storedToMessage sm, cb_sm = sm,
     cb_receiveCount = sm_ReceiveCount sm,
     cb_firstReceived = from_unix_milli (sm_FirstReceivedAt sm) \<rparr>"

lemma storedToMessage_simps [simp]:
  "MessageID (storedToMessage sm) = sm_ID sm" "MessageGroupID (storedToMessage sm) = sm_GroupID sm"
  by (simp_all add: storedToMessage_def)

lemma candidate_at_simps [simp]: "cb_key (candidate_at k sm) = k" "cb_sm (candidate_at k sm) = sm"
  by (simp_all add: candidate_at_def)

text \<open>
  What the scan takes: visible messages in key order, in a FIFO queue none that holds a
  handle and none of a group seen before.
\<close>

definition scan_ok ::
  "codec \<Rightarrow> bool \<Rightarrow> int \<Rightarrow> string list \<Rightarrow> kv \<Rightarrow> candidate_b list \<Rightarrow> bool" where
  "scan_ok C fifo ms groups kvs new \<longleftrightarrow>
     subseq (map cb_key new) (map fst kvs) \<and>
     (\<forall>c \<in> set new. \<exists>v. (cb_key c, v) \<in> set kvs \<and> unmarshal_stored C v = Some (cb_sm c) \<and>
        c = candidate_at (cb_key c) (cb_sm c) \<and> sm_VisibleAt (cb_sm c) \<le> ms \<and>
        (fifo \<and> sm_GroupID (cb_sm c) \<noteq> '''' \<longrightarrow>
           sm_ReceiptHandle (cb_sm c) = '''' \<and> sm_GroupID (cb_sm c) \<notin> set groups)) \<and>
     (fifo \<longrightarrow> distinct (filter (\<lambda>g. g \<noteq> '''') (map (sm_GroupID \<circ> cb_sm) new)))"

lemma scan_ok_Nil [simp]: "scan_ok C fifo ms groups kvs []"
  by (simp add: scan_ok_def)

lemma scan_ok_skip:
  "scan_ok C fifo ms groups' kvs new \<Longrightarrow> set groups \<subseteq> set groups' \<Longrightarrow>
   scan_ok C fifo ms groups ((k, v) # kvs) new"
  unfolding scan_ok_def by (auto simp: list_emb_Cons)

lemma scan_ok_take:
  assumes "scan_ok C fifo ms groups' kvs new" "unmarshal_stored C v = Some sm"
    "\<not> sm_VisibleAt sm > ms"
    "groups' = (if fifo \<and> sm_GroupID sm \<noteq> '''' then sm_GroupID sm # groups else groups)"
    "fifo \<and> sm_GroupID sm \<noteq> '''' \<Longrightarrow> sm_ReceiptHandle sm = '''' \<and> sm_GroupID sm \<notin> set groups"
  shows "scan_ok C fifo ms groups ((k, v) # kvs) (candidate_at k sm # new)"
proof -
  have "sm_GroupID sm \<notin> sm_GroupID ` cb_sm ` set new" if "fifo" "sm_GroupID sm \<noteq> ''''"
    using assms(1,4) that unfolding scan_ok_def by fastforce
  then show ?thesis using assms unfolding scan_ok_def
    by (auto simp: image_image split: if_splits)
qed

lemma badger_scan_ok:
  "\<exists>new. badger_scan C fifo n ms groups cs kvs = cs @ new \<and> scan_ok C fifo ms groups kvs new"
proof (induction C fifo n ms groups cs kvs rule: badger_scan.induct)
  case (1 C fifo n ms groups cs)
  then show ?case by simp
next
  case (2 C fifo n ms groups cs k v rest)
  show ?case
  proof (cases "unmarshal_stored C v")
    case None
    then show ?thesis using 2(1) by (auto intro: scan_ok_skip)
  next
    case (Some sm)
    let ?grp = "sm_GroupID sm"
    consider (hidden) "sm_VisibleAt sm > ms"
      | (seen) "\<not> sm_VisibleAt sm > ms" "fifo \<and> ?grp \<noteq> '''' \<and> ?grp \<in> set groups"
      | (held) "\<not> sm_VisibleAt sm > ms" "\<not> (fifo \<and> ?grp \<noteq> '''' \<and> ?grp \<in> set groups)"
          "fifo \<and> ?grp \<noteq> '''' \<and> sm_ReceiptHandle sm \<noteq> ''''"
      | (free) "\<not> sm_VisibleAt sm > ms" "\<not> (fifo \<and> ?grp \<noteq> '''' \<and> ?grp \<in> set groups)"
          "\<not> (fifo \<and> ?grp \<noteq> '''' \<and> sm_ReceiptHandle sm \<noteq> '''')" by blast
    then show ?thesis
    proof cases
      case hidden
      let ?g = "if fifo \<and> ?grp \<noteq> '''' \<and> sm_ReceiptHandle sm \<noteq> '''' then ?grp # groups else groups"
      obtain new where "badger_scan C fifo n ms ?g cs rest = cs @ new" "scan_ok C fifo ms ?g rest new"
        using 2(2) [OF Some refl hidden] by blast
      then show ?thesis using Some hidden
        by (intro exI [of _ new] conjI scan_ok_skip [of C fifo ms ?g]) (simp_all add: Let_def, auto)
    next
      case seen
      then show ?thesis using 2(3) [OF Some refl seen] Some by (auto simp: Let_def intro: scan_ok_skip)
    next
      case held
      obtain new where "badger_scan C fifo n ms (?grp # groups) cs rest = cs @ new"
        "scan_ok C fifo ms (?grp # groups) rest new"
        using 2(4) [OF Some refl held] by blast
      then show ?thesis using Some held
        by (intro exI [of _ new] conjI scan_ok_skip [of C fifo ms "?grp # groups"])
          (simp_all add: Let_def, auto)
    next
      case free
      let ?g = "if fifo \<and> ?grp \<noteq> '''' then ?grp # groups else groups"
      let ?c = "candidate_at k sm"
      have eq: "badger_scan C fifo n ms groups cs ((k, v) # rest) =
          (if int (length (cs @ [?c])) \<ge> n then cs @ [?c]
           else badger_scan C fifo n ms ?g (cs @ [?c]) rest)"
        using Some free by (cases "fifo \<and> ?grp \<noteq> ''''") (auto simp: Let_def candidate_at_def)
      show ?thesis
      proof (cases "int (length (cs @ [?c])) \<ge> n")
        case True
        have "scan_ok C fifo ms groups ((k, v) # rest) [?c]"
          by (rule scan_ok_take [OF scan_ok_Nil Some free(1) refl]) (use free in auto)
        then show ?thesis unfolding eq using True by (intro exI [of _ "[?c]"]) simp
      next
        case False
        obtain new where new: "badger_scan C fifo n ms ?g (cs @ [?c]) rest = (cs @ [?c]) @ new"
          "scan_ok C fifo ms ?g rest new"
          using 2(5) [OF Some refl free refl _ False] by (auto simp: candidate_at_def)
        have "scan_ok C fifo ms groups ((k, v) # rest) (?c # new)"
          by (rule scan_ok_take [OF new(2) Some free(1) refl]) (use free in auto)
        then show ?thesis unfolding eq using False new(1) by (intro exI [of _ "?c # new"]) simp
      qed
    qed
  qed
qed
definition claim_db ::
  "env \<Rightarrow> codec \<Rightarrow> badger_store \<Rightarrow> time \<Rightarrow> time \<Rightarrow> (nat \<Rightarrow> string) \<Rightarrow> nat \<Rightarrow> candidate_b list \<Rightarrow> kv \<Rightarrow> kv"
where
  "claim_db E C s now nv rnd k ps db =
     fold (\<lambda>(j, c). db_set (cb_key c) (enc C (hide_stored E s now nv (rnd j) (cb_sm c))))
       (List.enumerate k ps) db"

lemma claim_db_simps [simp]:
  "claim_db E C s now nv rnd k [] db = db"
  "claim_db E C s now nv rnd k (c # ps) db = claim_db E C s now nv rnd (Suc k) ps
     (db_set (cb_key c) (enc C (hide_stored E s now nv (rnd k) (cb_sm c))) db)"
  by (simp_all add: claim_db_def)

lemma sorted_claim_db: "sorted_db db \<Longrightarrow> sorted_db (claim_db E C s now nv rnd k ps db)"
  by (induction ps arbitrary: k db) (simp_all add: sorted_db_set)

lemma map_of_claim_db_other:
  "sorted_db db \<Longrightarrow> key \<notin> cb_key ` set ps \<Longrightarrow>
   map_of (claim_db E C s now nv rnd k ps db) key = map_of db key"
  by (induction ps arbitrary: k db) (simp_all add: sorted_db_set map_of_db_set)

lemma map_of_claim_db_nth:
  "sorted_db db \<Longrightarrow> distinct (map cb_key ps) \<Longrightarrow> j < length ps \<Longrightarrow>
   map_of (claim_db E C s now nv rnd k ps db) (cb_key (ps ! j)) =
     Some (enc C (hide_stored E s now nv (rnd (k + j)) (cb_sm (ps ! j))))"
proof (induction ps arbitrary: j k db)
  case (Cons c ps)
  show ?case
  proof (cases j)
    case 0
    have "cb_key c \<notin> cb_key ` set ps" using Cons.prems(2) by simp
    then show ?thesis using 0 Cons.prems(1)
      by (simp add: map_of_claim_db_other sorted_db_set map_of_db_set)
  next
    case (Suc j')
    then show ?thesis using Cons by (simp add: sorted_db_set)
  qed
qed simp

lemma badger_claim_spec:
  assumes "codec_ok C" "\<forall>c \<in> set cs. c = candidate_at (cb_key c) (cb_sm c)" "length result < nat (max 1 n)"
  shows "badger_claim E C no_txn_fail n now nv rnd (bd_queueName s) (bd_serverSecret s) (length result)
      cs result db =
    (let ps = take (nat (max 1 n) - length result) cs in
     (result @ map (\<lambda>(j, c). deliver_stored E s now (rnd j) (cb_sm c)) (List.enumerate (length result) ps),
      claim_db E C s now nv rnd (length result) ps db))"
  using assms(2,3)
proof (induction cs arbitrary: result db)
  case (Cons c cs)
  let ?k = "length result"
  let ?m = "deliver_stored E s now (rnd ?k) (cb_sm c)"
  let ?db = "db_set (cb_key c) (enc C (hide_stored E s now nv (rnd ?k) (cb_sm c))) db"
  obtain d where d: "nat (max 1 n) - ?k = Suc d"
    using Cons.prems(2) by (metis Suc_diff_Suc)
  obtain key sm where c: "c = candidate_at key sm" using Cons.prems(1) by (metis list.set_intros(1))
  have f: "cb_receiveCount c = sm_ReceiveCount (cb_sm c)" "MessageID (cb_msg c) = sm_ID (cb_sm c)"
    "cb_firstReceived c = from_unix_milli (sm_FirstReceivedAt (cb_sm c))" "cb_msg c = storedToMessage (cb_sm c)"
    by (simp_all add: c candidate_at_def storedToMessage_def)
  have unfold: "badger_claim E C no_txn_fail n now nv rnd (bd_queueName s) (bd_serverSecret s) ?k (c # cs) result db =
    (if int (length (result @ [?m])) \<ge> n then (result @ [?m], ?db)
     else badger_claim E C no_txn_fail n now nv rnd (bd_queueName s) (bd_serverSecret s) (Suc ?k) cs
       (result @ [?m]) ?db)"
    by (cases "IsZero (from_unix_milli (sm_FirstReceivedAt (cb_sm c)))")
      (simp_all add: Let_def f codec_enc(1) [OF assms(1)] deliver_stored_def hide_stored_def
        stored_first_def stored_handle_def)
  show ?case
  proof (cases "int (length (result @ [?m])) \<ge> n")
    case True
    then have "d = 0" using d Cons.prems(2) by simp
    then show ?thesis using True d unfolding unfold by (simp add: Let_def)
  next
    case False
    have len: "length (result @ [?m]) < nat (max 1 n)" "nat (max 1 n) - length (result @ [?m]) = d"
      using False d by auto
    show ?thesis using Cons.IH [OF _ len(1), of ?db] Cons.prems(1) False
      unfolding d len(2) unfold by (simp add: Let_def del: badger_claim.simps)
  qed
qed simp

text \<open>The messages left by redrive and expiry.\<close>

definition live_stored :: "codec \<Rightarrow> clock \<Rightarrow> badger_store \<Rightarrow> storedMessage \<Rightarrow> bool" where
  "live_stored C now s sm \<longleftrightarrow>
     \<not> (bd_maxReceiveCount s > 0 \<and> bd_redriveFunc s \<noteq> None \<and>
        badger_redrive_due (unix_milli (now 0)) (bd_maxReceiveCount s) sm) \<and>
     \<not> sm_SentTimestamp sm < unix_milli (retention_cutoff (bd_messageRetentionPeriod s) (now 1))"

definition prepared :: "codec \<Rightarrow> clock \<Rightarrow> badger_store \<Rightarrow> badger_store" where
  "prepared C now s =
     badger_deleteExpiredMessages C no_txn_fail (now 1) (snd (badger_redriveIfNeeded C no_txn_fail (now 0) s))"

lemma key_of_filter:
  assumes "sorted_db (bd_db s)"
  shows "msgKey s i \<in> set (map fst (filter (\<lambda>(k, v). case unmarshal_stored C v of None \<Rightarrow> False | Some sm \<Rightarrow> P sm)
      (items (bd_keyPrefix s) (bd_db s)))) \<longleftrightarrow> (\<exists>sm. stored C s i = Some sm \<and> P sm)"
proof -
  have "(msgKey s i, v) \<in> set (items (bd_keyPrefix s) (bd_db s)) \<longleftrightarrow> map_of (bd_db s) (msgKey s i) = Some v" for v
    by (simp add: items_iff [OF assms] msgKey_def)
  moreover have "key \<in> set (map fst (filter Q xs)) \<longleftrightarrow> (\<exists>v. (key, v) \<in> set xs \<and> Q (key, v))"
    for key :: string and Q and xs :: kv by force
  ultimately show ?thesis
    by (cases "map_of (bd_db s) (msgKey s i)") (auto simp: stored_def split: option.splits)
qed

lemma redrive_db:
  "\<exists>ks. snd (badger_redriveIfNeeded C no_txn_fail now s) = s\<lparr> bd_db := fold db_delete ks (bd_db s) \<rparr> \<and>
     (sorted_db (bd_db s) \<longrightarrow> (\<forall>i. msgKey s i \<in> set ks \<longleftrightarrow> (\<exists>sm. stored C s i = Some sm \<and>
        bd_maxReceiveCount s > 0 \<and> bd_redriveFunc s \<noteq> None \<and>
        badger_redrive_due (unix_milli now) (bd_maxReceiveCount s) sm)))"
proof (cases "bd_maxReceiveCount s \<le> 0 \<or> bd_redriveFunc s = None")
  case True
  then show ?thesis by (intro exI [of _ "[]"]) (auto simp: badger_redriveIfNeeded_def)
next
  case False
  let ?due = "badger_redrive_due (unix_milli now) (bd_maxReceiveCount s)"
  let ?red = "concat (map (\<lambda>(k, v). case unmarshal_stored C v of None \<Rightarrow> []
      | Some sm \<Rightarrow> if ?due sm then [(k, storedToMessage sm)] else []) (items (bd_keyPrefix s) (bd_db s)))"
  have keys: "map fst (concat (map (\<lambda>(k, v). case unmarshal_stored C v of None \<Rightarrow> []
      | Some sm \<Rightarrow> if ?due sm then [(k, storedToMessage sm)] else []) kvs)) =
    map fst (filter (\<lambda>(k, v). case unmarshal_stored C v of None \<Rightarrow> False | Some sm \<Rightarrow> ?due sm) kvs)" for kvs
    by (induction kvs) (auto split: option.splits if_splits)
  have "snd (badger_redriveIfNeeded C no_txn_fail now s) =
      s\<lparr> bd_db := fold db_delete (map fst ?red) (bd_db s) \<rparr>"
    using False unfolding badger_redriveIfNeeded_def Let_def by (cases "?red = []") (simp_all only:, simp_all)
  moreover have "msgKey s i \<in> set (map fst ?red) \<longleftrightarrow> (\<exists>sm. stored C s i = Some sm \<and>
      bd_maxReceiveCount s > 0 \<and> bd_redriveFunc s \<noteq> None \<and> ?due sm)" if "sorted_db (bd_db s)" for i
    using False key_of_filter [OF that, where C = C and P = ?due and i = i] unfolding keys by auto
  ultimately show ?thesis by blast
qed

lemma prepared_stored:
  assumes "sorted_db (bd_db s)"
  shows "sorted_db (bd_db (prepared C now s))"
    "stored C (prepared C now s) i = (case stored C s i of None \<Rightarrow> None
       | Some sm \<Rightarrow> if live_stored C now s sm then Some sm else None)"
    "prepared C now s = s\<lparr> bd_db := bd_db (prepared C now s) \<rparr>"
proof -
  obtain ks where ks: "snd (badger_redriveIfNeeded C no_txn_fail (now 0) s) = s\<lparr> bd_db := fold db_delete ks (bd_db s) \<rparr>"
    "\<And>i. msgKey s i \<in> set ks \<longleftrightarrow> (\<exists>sm. stored C s i = Some sm \<and>
        bd_maxReceiveCount s > 0 \<and> bd_redriveFunc s \<noteq> None \<and>
        badger_redrive_due (unix_milli (now 0)) (bd_maxReceiveCount s) sm)"
    using redrive_db [of C "now 0" s] assms by blast
  let ?s1 = "s\<lparr> bd_db := fold db_delete ks (bd_db s) \<rparr>"
  let ?old = "\<lambda>sm. sm_SentTimestamp sm < unix_milli (retention_cutoff (bd_messageRetentionPeriod s) (now 1))"
  let ?ks = "map fst (filter (\<lambda>(k, v). case unmarshal_stored C v of None \<Rightarrow> False | Some sm \<Rightarrow> ?old sm)
      (items (bd_keyPrefix ?s1) (bd_db ?s1)))"
  have s1: "sorted_db (bd_db ?s1)" using assms by (simp add: sorted_db_deletes)
  have p: "prepared C now s = ?s1\<lparr> bd_db := fold db_delete ?ks (bd_db ?s1) \<rparr>"
    by (simp add: prepared_def ks(1) badger_deleteExpiredMessages_def Let_def del: One_nat_def)
  show "sorted_db (bd_db (prepared C now s))" using s1 by (simp add: p sorted_db_deletes)
  show "prepared C now s = s\<lparr> bd_db := bd_db (prepared C now s) \<rparr>" by (simp add: p)
  have "stored C (prepared C now s) i = (if msgKey s i \<in> set ?ks then None else stored C ?s1 i)"
    unfolding p by (subst stored_deletes) simp
  then show "stored C (prepared C now s) i = (case stored C s i of None \<Rightarrow> None
       | Some sm \<Rightarrow> if live_stored C now s sm then Some sm else None)"
    using key_of_filter [OF s1, where i = i and P = ?old and C = C] ks(2) [of i] stored_deletes [where C = C and s = s and ks = ks and i = i]
    by (auto simp: live_stored_def split: option.splits if_splits)
qed
definition badger_candidates :: "codec \<Rightarrow> int \<Rightarrow> clock \<Rightarrow> badger_store \<Rightarrow> candidate_b list" where
  "badger_candidates C n now s =
     sort_by_sent C (badger_scan C (bd_isFifo s) n (unix_milli (now 2)) [] []
       (items (bd_keyPrefix s) (bd_db (prepared C now s))))"

definition badger_picks :: "codec \<Rightarrow> int \<Rightarrow> clock \<Rightarrow> badger_store \<Rightarrow> candidate_b list" where
  "badger_picks C n now s = take (nat (max 1 n)) (badger_candidates C n now s)"

lemma subseq_distinct: "subseq xs ys \<Longrightarrow> distinct ys \<Longrightarrow> distinct xs"
  by (metis subseq_conv_nths distinct_nthsI)

lemma candidates_ok:
  assumes "codec_ok C" "sorted_db (bd_db s)"
  shows "distinct (map cb_key (badger_candidates C n now s))"
    and "c \<in> set (badger_candidates C n now s) \<Longrightarrow> \<exists>i sm. c = candidate_at (msgKey s i) sm \<and>
      stored C s i = Some sm \<and> stored C (prepared C now s) i = Some sm \<and> live_stored C now s sm \<and>
      sm_VisibleAt sm \<le> unix_milli (now 2) \<and>
      (bd_isFifo s \<and> sm_GroupID sm \<noteq> '''' \<longrightarrow> sm_ReceiptHandle sm = '''')"
    and "bd_isFifo s \<Longrightarrow> distinct (filter (\<lambda>g. g \<noteq> '''') (map (sm_GroupID \<circ> cb_sm) (badger_candidates C n now s)))"
proof -
  let ?p = "prepared C now s"
  let ?kvs = "items (bd_keyPrefix s) (bd_db ?p)"
  note prep = prepared_stored [OF assms(2), of C now]
  have pre: "bd_keyPrefix ?p = bd_keyPrefix s" "msgKey ?p = msgKey s"
    using prep(3) by (metis badger_store.ext_inject badger_store.surjective badger_store.update_convs(1), metis prep(3) stored_frame(6))
  obtain new where new: "badger_scan C (bd_isFifo s) n (unix_milli (now 2)) [] [] ?kvs = new"
    "scan_ok C (bd_isFifo s) (unix_milli (now 2)) [] ?kvs new"
    using badger_scan_ok [of C "bd_isFifo s" n "unix_milli (now 2)" "[]" "[]" ?kvs] by auto
  have perm: "mset (badger_candidates C n now s) = mset new" "set (badger_candidates C n now s) = set new"
    using codec_sorts [OF assms(1), of new] new(1) by (simp_all add: badger_candidates_def)
  have mm: "mset (map f (badger_candidates C n now s)) = mset (map f new)" for f :: "candidate_b \<Rightarrow> string"
    using perm(1) by (metis mset_map)
  have "distinct (map cb_key new)"
    using new(2) items_distinct [OF prep(1)] unfolding scan_ok_def by (meson subseq_distinct)
  then show "distinct (map cb_key (badger_candidates C n now s))"
    using mm by (metis mset_eq_imp_distinct_iff)
  show "distinct (filter (\<lambda>g. g \<noteq> '''') (map (sm_GroupID \<circ> cb_sm) (badger_candidates C n now s)))" if "bd_isFifo s"
    using new(2) that mm [of "sm_GroupID \<circ> cb_sm"] unfolding scan_ok_def
    by (metis mset_eq_imp_distinct_iff mset_filter)
  show "\<exists>i sm. c = candidate_at (msgKey s i) sm \<and>
      stored C s i = Some sm \<and> stored C ?p i = Some sm \<and> live_stored C now s sm \<and>
      sm_VisibleAt sm \<le> unix_milli (now 2) \<and>
      (bd_isFifo s \<and> sm_GroupID sm \<noteq> '''' \<longrightarrow> sm_ReceiptHandle sm = '''')"
    if c: "c \<in> set (badger_candidates C n now s)"
  proof -
    obtain v where v: "(cb_key c, v) \<in> set ?kvs" "unmarshal_stored C v = Some (cb_sm c)"
      "c = candidate_at (cb_key c) (cb_sm c)" "sm_VisibleAt (cb_sm c) \<le> unix_milli (now 2)"
      "bd_isFifo s \<and> sm_GroupID (cb_sm c) \<noteq> '''' \<longrightarrow> sm_ReceiptHandle (cb_sm c) = ''''"
      using c new(2) perm(2) unfolding scan_ok_def by blast
    then obtain i where i: "cb_key c = msgKey s i" "stored C ?p i = Some (cb_sm c)"
      using stored_item [OF prep(1) _ v(2), of "cb_key c"] pre by auto
    then have "stored C s i = Some (cb_sm c)" "live_stored C now s (cb_sm c)"
      using prep(2) [of i] by (auto split: option.splits if_splits)
    moreover have "c = candidate_at (msgKey s i) (cb_sm c)" using v(3) i(1) by metis
    ultimately show ?thesis using v(4,5) i(2) by blast
  qed
qed

lemma badger_poll_open:
  assumes "codec_ok C" "sorted_db (bd_db s)" "\<not> bd_closed s"
  shows "\<exists>redriven. badger_poll E C no_txn_fail n vt now rnd s =
    (Inr (map (\<lambda>(j, c). deliver_stored E s (now 2) (rnd j) (cb_sm c)) (List.enumerate 0 (badger_picks C n now s))),
     redriven,
     s\<lparr> bd_db := claim_db E C s (now 2) (now 2 + seconds vt) rnd 0 (badger_picks C n now s)
                  (bd_db (prepared C now s)) \<rparr>)"
proof -
  obtain redriven s1 where r: "badger_redriveIfNeeded C no_txn_fail (now 0) s = (redriven, s1)" by fastforce
  let ?p = "prepared C now s"
  have p: "badger_deleteExpiredMessages C no_txn_fail (now 1) s1 = ?p" by (simp add: prepared_def r)
  obtain db where db: "?p = s\<lparr> bd_db := db \<rparr>" using prepared_stored(3) [OF assms(2)] by blast
  have cand: "sort_by_sent C (badger_scan C (bd_isFifo ?p) n (unix_milli (now 2)) [] []
      (items (bd_keyPrefix ?p) (bd_db ?p))) = badger_candidates C n now s"
    by (simp add: badger_candidates_def db)
  have ok: "\<forall>c \<in> set (badger_candidates C n now s). c = candidate_at (cb_key c) (cb_sm c)"
    using candidates_ok(2) [OF assms(1,2)] by fastforce
  have claim: "badger_claim E C no_txn_fail n (now 2) (now 2 + seconds vt) rnd (bd_queueName s)
      (bd_serverSecret s) 0 (badger_candidates C n now s) [] (bd_db ?p) =
    (map (\<lambda>(j, c). deliver_stored E s (now 2) (rnd j) (cb_sm c)) (List.enumerate 0 (badger_picks C n now s)),
     claim_db E C s (now 2) (now 2 + seconds vt) rnd 0 (badger_picks C n now s) (bd_db ?p))"
    using badger_claim_spec [OF assms(1) ok, where result = "[]" and n = n and db = "bd_db ?p" and E = E
        and rnd = rnd and now = "now 2" and nv = "now 2 + seconds vt" and s = s]
    by (simp add: Let_def badger_picks_def)
  show ?thesis
  proof (cases "badger_candidates C n now s = []")
    case True
    then show ?thesis unfolding badger_poll_def using assms(3) cand
      by (simp add: r p badger_picks_def Let_def db del: One_nat_def)
  next
    case False
    then show ?thesis unfolding badger_poll_def using assms(3) cand claim
      by (simp add: r p Let_def db del: One_nat_def)
  qed
qed
text \<open>The same in terms of the messages stored.\<close>

lemma badger_poll_effect:
  assumes inv: "badger_inv E C s" and poll: "badger_poll E C no_txn_fail n vt now rnd s = (Inr ms, red, s')"
  shows "\<exists>ps. length ps \<le> nat (max 1 n) \<and> distinct (map sm_ID ps) \<and>
    ms = map (\<lambda>(j, sm). deliver_stored E s (now 2) (rnd j) sm) (List.enumerate 0 ps) \<and>
    (\<forall>j < length ps. let sm = ps ! j in stored C s (sm_ID sm) = Some sm \<and>
       sm_VisibleAt sm \<le> unix_milli (now 2) \<and> live_stored C now s sm \<and>
       (bd_isFifo s \<and> sm_GroupID sm \<noteq> '''' \<longrightarrow> sm_ReceiptHandle sm = '''') \<and>
       stored C s' (sm_ID sm) = Some (hide_stored E s (now 2) (now 2 + seconds vt) (rnd j) sm)) \<and>
    (\<forall>i. i \<notin> sm_ID ` set ps \<longrightarrow> stored C s' i = stored C (prepared C now s) i) \<and>
    (bd_isFifo s \<longrightarrow> distinct (filter (\<lambda>g. g \<noteq> '''') (map sm_GroupID ps))) \<and>
    (\<exists>db. s' = s\<lparr> bd_db := db \<rparr> \<and> sorted_db db)"
proof -
  from inv have C: "codec_ok C" and srt: "sorted_db (bd_db s)"
    and ids: "\<And>i sm. stored C s i = Some sm \<Longrightarrow> sm_ID sm = i" by (auto simp: badger_inv_def)
  have "\<not> bd_closed s" using poll by (auto simp: badger_poll_def)
  let ?cs = "badger_picks C n now s"
  let ?ps = "map cb_sm ?cs"
  let ?db = "claim_db E C s (now 2) (now 2 + seconds vt) rnd 0 ?cs (bd_db (prepared C now s))"
  obtain red' where "badger_poll E C no_txn_fail n vt now rnd s =
    (Inr (map (\<lambda>(j, c). deliver_stored E s (now 2) (rnd j) (cb_sm c)) (List.enumerate 0 ?cs)), red', s\<lparr> bd_db := ?db \<rparr>)"
    using badger_poll_open [OF C srt \<open>\<not> bd_closed s\<close>] by blast
  then have ms: "ms = map (\<lambda>(j, c). deliver_stored E s (now 2) (rnd j) (cb_sm c)) (List.enumerate 0 ?cs)"
    and s': "s' = s\<lparr> bd_db := ?db \<rparr>" using poll by auto
  have enum: "map (\<lambda>(j, c). f j (cb_sm c)) (List.enumerate k cs) = map (\<lambda>(j, sm). f j sm) (List.enumerate k (map cb_sm cs))"
    for f :: "nat \<Rightarrow> storedMessage \<Rightarrow> message" and k cs by (induction cs arbitrary: k) auto
  have p: "sorted_db (bd_db (prepared C now s))" by (rule prepared_stored(1) [OF srt])
  have keys: "distinct (map cb_key ?cs)"
    using candidates_ok(1) [OF C srt] by (simp add: badger_picks_def take_map [symmetric])
  have cand: "\<exists>i sm. c = candidate_at (msgKey s i) sm \<and> sm_ID sm = i \<and> stored C s i = Some sm \<and>
      live_stored C now s sm \<and> sm_VisibleAt sm \<le> unix_milli (now 2) \<and>
      (bd_isFifo s \<and> sm_GroupID sm \<noteq> '''' \<longrightarrow> sm_ReceiptHandle sm = '''')" if c: "c \<in> set ?cs" for c
  proof -
    have "c \<in> set (badger_candidates C n now s)" using c by (auto simp: badger_picks_def dest: in_set_takeD)
    then show ?thesis using candidates_ok(2) [OF C srt, of c n now] ids by blast
  qed
  have key: "cb_key c = msgKey s (sm_ID (cb_sm c))" if "c \<in> set ?cs" for c
    using cand [OF that] by auto
  have "map cb_key ?cs = map (msgKey s) (map sm_ID ?ps)" using key by simp
  then have dist: "distinct (map sm_ID ?ps)" using keys by (metis distinct_map)
  have other: "stored C s' i = stored C (prepared C now s) i" if "i \<notin> sm_ID ` set ?ps" for i
  proof -
    have "msgKey s i \<notin> cb_key ` set ?cs" using that key by (auto simp: msgKey_def)
    then show ?thesis using prepared_stored(3) [OF srt, of C now]
      by (simp add: s' stored_def map_of_claim_db_other [OF p]) (metis stored_frame(6))
  qed
  have at: "let sm = ?ps ! j in stored C s (sm_ID sm) = Some sm \<and>
       sm_VisibleAt sm \<le> unix_milli (now 2) \<and> live_stored C now s sm \<and>
       (bd_isFifo s \<and> sm_GroupID sm \<noteq> '''' \<longrightarrow> sm_ReceiptHandle sm = '''') \<and>
       stored C s' (sm_ID sm) = Some (hide_stored E s (now 2) (now 2 + seconds vt) (rnd j) sm)"
    if j: "j < length ?ps" for j
  proof -
    let ?c = "?cs ! j"
    have c: "?c \<in> set ?cs" "?ps ! j = cb_sm ?c" using j by auto
    have "map_of ?db (cb_key ?c) = Some (enc C (hide_stored E s (now 2) (now 2 + seconds vt) (rnd j) (cb_sm ?c)))"
      using map_of_claim_db_nth [OF p keys, of j E C s "now 2" "now 2 + seconds vt" rnd 0] j by simp
    then have "stored C s' (sm_ID (cb_sm ?c)) = Some (hide_stored E s (now 2) (now 2 + seconds vt) (rnd j) (cb_sm ?c))"
      using key [OF c(1)] by (simp add: s' stored_def codec_enc [OF C])
    then show ?thesis using cand [OF c(1)] c(2) by (auto simp: Let_def)
  qed
  have groups: "distinct (filter (\<lambda>g. g \<noteq> '''') (map sm_GroupID ?ps))" if "bd_isFifo s"
  proof -
    let ?xs = "badger_candidates C n now s" and ?f = "sm_GroupID \<circ> cb_sm" and ?m = "nat (max 1 n)"
    have "filter (\<lambda>g. g \<noteq> '''') (map ?f (take ?m ?xs @ drop ?m ?xs)) =
        filter (\<lambda>g. g \<noteq> '''') (map ?f (take ?m ?xs)) @ filter (\<lambda>g. g \<noteq> '''') (map ?f (drop ?m ?xs))"
      by (simp only: map_append filter_append)
    then have "distinct (filter (\<lambda>g. g \<noteq> '''') (map ?f (take ?m ?xs)))"
      using candidates_ok(3) [OF C srt that, of n now] by (metis append_take_drop_id distinct_append)
    then show ?thesis by (simp add: badger_picks_def)
  qed
  show ?thesis
    by (intro exI [of _ ?ps] conjI allI impI)
      (use ms enum [of "\<lambda>j. deliver_stored E s (now 2) (rnd j)"] dist at other groups s' p in
        \<open>auto simp: badger_picks_def sorted_claim_db\<close>)
qed

lemma badger_receive_law:
  assumes inv: "badger_inv E C s" and poll: "badger_poll E C no_txn_fail n vt0 now rnd s = (Inr ms, red, s')"
  shows "badger_inv E C s' \<and> length ms \<le> nat (max 1 n) \<and>
    (\<forall>m \<in> set ms. (\<exists>h. badger_holds C s (MessageID m) h) \<and>
       badger_holds C s' (MessageID m) (ReceiptHandle m) \<and> ReceiptHandle m \<noteq> '''' \<and>
       badger_visible C s (MessageID m) \<le> unix_milli (ReceivedTimestamp m) \<and>
       badger_visible C s' (MessageID m) = unix_milli (ReceivedTimestamp m + seconds vt0)) \<and>
    (\<forall>i h. i \<notin> MessageID ` set ms \<longrightarrow> badger_holds C s' i h \<longrightarrow>
       badger_holds C s i h \<and> badger_visible C s' i = badger_visible C s i)"
proof -
  obtain ps where ps: "length ps \<le> nat (max 1 n)"
    "ms = map (\<lambda>(j, sm). deliver_stored E s (now 2) (rnd j) sm) (List.enumerate 0 ps)"
    "\<And>j. j < length ps \<Longrightarrow> stored C s (sm_ID (ps ! j)) = Some (ps ! j) \<and>
       sm_VisibleAt (ps ! j) \<le> unix_milli (now 2) \<and>
       stored C s' (sm_ID (ps ! j)) = Some (hide_stored E s (now 2) (now 2 + seconds vt0) (rnd j) (ps ! j))"
    "\<And>i. i \<notin> sm_ID ` set ps \<Longrightarrow> stored C s' i = stored C (prepared C now s) i"
    "\<exists>db. s' = s\<lparr> bd_db := db \<rparr> \<and> sorted_db db"
    using badger_poll_effect [OF inv poll] by (auto simp: Let_def)
  obtain db where db: "s' = s\<lparr> bd_db := db \<rparr>" "sorted_db db" using ps(5) by blast
  from inv have E: "receipts_ok E" and srt: "sorted_db (bd_db s)" by (auto simp: badger_inv_def env_ok_def)
  have old: "stored C s i = Some sm" if "i \<notin> sm_ID ` set ps" "stored C s' i = Some sm" for i sm
    using ps(4) [OF that(1)] that(2) prepared_stored(2) [OF srt] by (auto split: option.splits if_splits)
  have "badger_inv E C s'"
  proof -
    have "sm_ID sm = i \<and> (sm_ReceiptHandle sm \<noteq> '''' \<longrightarrow>
        issued E (bd_queueName s) (bd_serverSecret s) i (sm_ReceiptHandle sm))"
      if sm: "stored C s' i = Some sm" for i sm
    proof (cases "i \<in> sm_ID ` set ps")
      case True
      then obtain j where "j < length ps" "i = sm_ID (ps ! j)" by (auto simp: in_set_conv_nth)
      then show ?thesis using sm ps(3) by (auto simp: hide_stored_def stored_handle_def)
    next
      case False
      then show ?thesis using old [OF False sm] inv by (simp add: badger_inv_def)
    qed
    then show ?thesis using inv db by (simp add: badger_inv_def)
  qed
  moreover have "length ms \<le> nat (max 1 n)" using ps(1,2) by simp
  moreover have "(\<exists>h. badger_holds C s (MessageID m) h) \<and> badger_holds C s' (MessageID m) (ReceiptHandle m) \<and>
       ReceiptHandle m \<noteq> '''' \<and> badger_visible C s (MessageID m) \<le> unix_milli (ReceivedTimestamp m) \<and>
       badger_visible C s' (MessageID m) = unix_milli (ReceivedTimestamp m + seconds vt0)"
    if m: "m \<in> set ms" for m
  proof -
    obtain j where "j < length ps" "m = deliver_stored E s (now 2) (rnd j) (ps ! j)"
      using m ps(2) by (auto simp: in_set_enumerate_eq)
    then show ?thesis using ps(3) [of j] handle_nonempty [OF E]
      by (auto simp: deliver_stored_def hide_stored_def stored_handle_def badger_holds_def badger_visible_def)
  qed
  moreover have "badger_holds C s i h \<and> badger_visible C s' i = badger_visible C s i"
    if i: "i \<notin> MessageID ` set ms" "badger_holds C s' i h" for i h
  proof -
    have "map MessageID ms = map sm_ID ps" unfolding ps(2)
      by (induction ps rule: rev_induct) (simp_all add: deliver_stored_def enumerate_append_eq)
    then have "i \<notin> sm_ID ` set ps" using i(1) by (metis list.set_map)
    then show ?thesis using old i(2) by (force simp: badger_holds_def badger_visible_def)
  qed
  ultimately show ?thesis by blast
qed
subsection \<open>The contract of a message store\<close>

lemma badger_inv_frame [simp]:
  "badger_inv E C (s\<lparr> bd_dedupCache := c \<rparr>) = badger_inv E C s"
  "badger_inv E C (s\<lparr> bd_sequenceCounter := n \<rparr>) = badger_inv E C s"
  "badger_inv E C (s\<lparr> bd_closed := b \<rparr>) = badger_inv E C s"
  by (simp_all add: badger_inv_def)

lemma badger_holds_frame [simp]:
  "badger_holds C (s\<lparr> bd_dedupCache := c \<rparr>) = badger_holds C s"
  "badger_holds C (s\<lparr> bd_sequenceCounter := n \<rparr>) = badger_holds C s"
  "badger_holds C (s\<lparr> bd_closed := b \<rparr>) = badger_holds C s"
  "badger_visible C (s\<lparr> bd_dedupCache := c \<rparr>) = badger_visible C s"
  "badger_visible C (s\<lparr> bd_sequenceCounter := n \<rparr>) = badger_visible C s"
  "badger_visible C (s\<lparr> bd_closed := b \<rparr>) = badger_visible C s"
  by (simp_all add: badger_holds_def badger_visible_def fun_eq_iff)

text \<open>One message is written under its own key, with the empty handle or one of its own.\<close>

lemma badger_write:
  assumes "badger_inv E C s" "sm_ID sm = i"
    "sm_ReceiptHandle sm = '''' \<or> issued E (bd_queueName s) (bd_serverSecret s) i (sm_ReceiptHandle sm)"
    "s' = s\<lparr> bd_db := db_set (msgKey s i) (enc C sm) (bd_db s) \<rparr>"
  shows "badger_inv E C s' \<and> (j \<noteq> i \<longrightarrow> (badger_holds C s' j h \<longleftrightarrow> badger_holds C s j h) \<and>
    badger_visible C s' j = badger_visible C s j) \<and> (badger_holds C s' i h \<longleftrightarrow> sm_ReceiptHandle sm = h)"
proof -
  have srt: "sorted_db (bd_db s)" and C: "codec_ok C" using assms(1) by (auto simp: badger_inv_def)
  have st: "stored C s' k = (if k = i then Some sm else stored C s k)" for k
    using stored_set [OF srt, of C i "enc C sm" k] codec_enc(2) [OF C] by (simp add: assms(4))
  have "badger_inv E C s'" using assms st srt by (auto simp: badger_inv_def sorted_db_set)
  then show ?thesis using st by (auto simp: badger_holds_def badger_visible_def)
qed

lemma badger_send_law:
  assumes "badger_inv E C s" "\<forall>h. \<not> badger_holds C s (MessageID m) h"
    "badger_SendMessage E C no_txn_fail now m d s = (err, m', s')"
  shows "badger_inv E C s' \<and> (i \<noteq> MessageID m \<longrightarrow> (badger_holds C s' i h \<longleftrightarrow> badger_holds C s i h)) \<and>
    (i \<noteq> MessageID m \<longrightarrow> badger_visible C s' i = badger_visible C s i)"
proof -
  have C: "codec_ok C" using assms(1) by (simp add: badger_inv_def)
  obtain dup cache counter m1 where adm: "(if bd_isFifo s
      then fifo_admit E (bd_contentBasedDeduplication s) now (bd_dedupCache s) (bd_sequenceCounter s) m
      else (False, bd_dedupCache s, bd_sequenceCounter s, m)) = (dup, cache, counter, m1)"
    by (metis prod_cases4)
  then have id: "MessageID m1 = MessageID m"
    using fifo_admit_message by (metis prod.inject)
  consider c n where "s' = s\<lparr> bd_dedupCache := c, bd_sequenceCounter := n \<rparr>" | "s' = s"
    | sm c n where "sm_ID sm = MessageID m" "sm_ReceiptHandle sm = ''''"
      "s' = s\<lparr> bd_dedupCache := c, bd_sequenceCounter := n,
         bd_db := db_set (msgKey s (MessageID m)) (enc C sm) (bd_db s) \<rparr>"
  proof (cases "bd_closed s \<or> dup")
    case True
    then show ?thesis using assms(3) that(1) [where c = cache and n = counter] that(2)
      unfolding badger_SendMessage_def adm by (auto split: if_splits)
  next
    case False
    let ?sm = "\<lparr> sm_ID = MessageID m1, sm_Body = Body m1, sm_MD5OfBody = MD5OfBody m1,
      sm_MD5OfMsgAttrs = MD5OfMessageAttributes m1, sm_MessageAttrs = MessageAttributes m1,
      sm_SystemAttrs = SystemAttributes m1, sm_SentTimestamp = unix_milli (now 2),
      sm_VisibleAt = unix_milli (if d > 0 then now 2 + seconds d else now 2), sm_ReceiptHandle = '''',
      sm_ReceiveCount = 0, sm_FirstReceivedAt = 0, sm_SequenceNumber = SequenceNumber m1,
      sm_DedupID = MessageDeduplicationID m1, sm_GroupID = MessageGroupID m1 \<rparr>"
    show ?thesis
      by (rule that(3) [of ?sm, where c = cache and n = counter])
        (use assms(3) False id in \<open>simp_all add: badger_SendMessage_def adm Let_def codec_enc(1) [OF C] msgKey_def\<close>)
  qed
  then show ?thesis
  proof cases
    case 3
    let ?s = "s\<lparr> bd_dedupCache := c, bd_sequenceCounter := n \<rparr>"
    show ?thesis using badger_write [of E C ?s sm "MessageID m" s' i h] 3 assms(1) by simp
  qed (use assms(1) in simp_all)
qed

lemma badger_receive_error_law:
  assumes "badger_inv E C s" "badger_poll E C no_txn_fail n vt now rnd s = (Inl er, red, s')"
  shows "s' = s"
proof (cases "bd_closed s")
  case False
  then show ?thesis using assms badger_poll_open [OF _ _ False, of C E n vt now rnd]
    by (auto simp: badger_inv_def)
qed (use assms(2) in \<open>auto simp: badger_poll_def\<close>)

lemma find_held:
  assumes "sorted_db (bd_db s)" "find (held_by C h) (items (bd_keyPrefix s) (bd_db s)) = Some (k, v)"
  shows "\<exists>i sm. k = msgKey s i \<and> stored C s i = Some sm \<and> unmarshal_stored C v = Some sm \<and>
    sm_ReceiptHandle sm = h"
proof -
  have "(k, v) \<in> set (items (bd_keyPrefix s) (bd_db s))" "held_by C h (k, v)"
    using assms(2) by (auto simp: find_Some_iff)
  then obtain sm where "unmarshal_stored C v = Some sm" "sm_ReceiptHandle sm = h"
    by (auto simp: held_by_def split: option.splits)
  then show ?thesis using stored_item [OF assms(1) \<open>(k, v) \<in> _\<close>, of C sm] by blast
qed

lemma find_held_None:
  assumes "sorted_db (bd_db s)" "find (held_by C h) (items (bd_keyPrefix s) (bd_db s)) = None"
  shows "\<not> badger_holds C s i h"
proof
  assume "badger_holds C s i h"
  then obtain v sm where "map_of (bd_db s) (msgKey s i) = Some v" "unmarshal_stored C v = Some sm"
    "sm_ReceiptHandle sm = h" by (auto simp: badger_holds_def stored_def bind_eq_Some_conv)
  then have "(msgKey s i, v) \<in> set (items (bd_keyPrefix s) (bd_db s))" "held_by C h (msgKey s i, v)"
    by (auto simp: items_iff [OF assms(1)] msgKey_def held_by_def)
  then show False using assms(2) by (auto simp: find_None_iff)
qed

lemma stored_delete:
  "stored C (s\<lparr> bd_db := db_delete (msgKey s j) (bd_db s) \<rparr>) i = (if i = j then None else stored C s i)"
  by (simp add: stored_def msgKey_def map_of_db_delete)

lemma badger_delete_law:
  assumes "badger_inv E C s" "badger_DeleteMessage C no_txn_fail h s = (err, s')"
  shows "badger_inv E C s' \<and>
    (badger_holds C s' i k \<longrightarrow> badger_holds C s i k \<and> badger_visible C s' i = badger_visible C s i)"
proof -
  have srt: "sorted_db (bd_db s)" using assms(1) by (simp add: badger_inv_def)
  consider "s' = s" | j where "s' = s\<lparr> bd_db := db_delete (msgKey s j) (bd_db s) \<rparr>"
    using assms(2) find_held [OF srt, of C h]
    by (fastforce simp: badger_DeleteMessage_def split: if_splits option.splits)
  then show ?thesis
  proof cases
    case 2
    have less: "stored C s' i = Some sm \<Longrightarrow> stored C s i = Some sm" for i sm
      using stored_delete [of C s j i] by (simp add: 2 split: if_splits)
    show ?thesis using badger_inv_less [OF assms(1) 2 _ less] holds_less [OF less] sorted_db_delete [OF srt]
      by simp
  qed (use assms in simp)
qed

lemma badger_delete_held_law:
  assumes "badger_inv E C s" "\<not> bd_closed s" "badger_holds C s i h" "h \<noteq> ''''"
    "badger_DeleteMessage C no_txn_fail h s = (err, s')"
  shows "err = None \<and> \<not> badger_holds C s' i k \<and> (j \<noteq> i \<longrightarrow> (badger_holds C s' j k \<longleftrightarrow> badger_holds C s j k))"
proof -
  have srt: "sorted_db (bd_db s)" and E: "receipts_ok E" "receipts_differ E"
    using assms(1) by (auto simp: badger_inv_def env_ok_def)
  obtain k v where f: "find (held_by C h) (items (bd_keyPrefix s) (bd_db s)) = Some (k, v)"
    using find_held_None [OF srt, of C h i] assms(3) by fastforce
  obtain i' sm where i': "k = msgKey s i'" "stored C s i' = Some sm" "sm_ReceiptHandle sm = h"
    using find_held [OF srt f] by blast
  have iss: "issued E (bd_queueName s) (bd_serverSecret s) j h" if "badger_holds C s j h" for j
    using that assms(1,4) by (auto simp: badger_inv_def badger_holds_def)
  have "badger_holds C s i' h" using i' by (auto simp: badger_holds_def)
  then have "i' = i" using issued_same [OF E iss iss] assms(3) by blast
  moreover have "err = None" "s' = s\<lparr> bd_db := db_delete k (bd_db s) \<rparr>"
    using assms(2,5) f by (auto simp: badger_DeleteMessage_def)
  ultimately show ?thesis using stored_delete [of C s i] by (simp add: i'(1) badger_holds_def)
qed

lemma badger_change_law:
  assumes "badger_inv E C s" "badger_ChangeMessageVisibility C no_txn_fail now h vt s = (err, s')"
  shows "badger_inv E C s' \<and> ((\<exists>k. badger_holds C s' i k) \<longleftrightarrow> (\<exists>k. badger_holds C s i k)) \<and>
    (\<not> badger_holds C s i h \<longrightarrow> badger_holds C s' i k \<longrightarrow>
       badger_holds C s i k \<and> badger_visible C s' i = badger_visible C s i)"
proof (cases "bd_closed s \<or> find (held_by C h) (items (bd_keyPrefix s) (bd_db s)) = None")
  case True
  then have "s' = s"
    using assms(2) unfolding badger_ChangeMessageVisibility_def by (cases "bd_closed s") auto
  then show ?thesis using assms(1) by simp
next
  case False
  have srt: "sorted_db (bd_db s)" and C: "codec_ok C" using assms(1) by (auto simp: badger_inv_def)
  obtain key v where f: "find (held_by C h) (items (bd_keyPrefix s) (bd_db s)) = Some (key, v)"
    using False by auto
  obtain j sm where j: "key = msgKey s j" "stored C s j = Some sm" "unmarshal_stored C v = Some sm"
    "sm_ReceiptHandle sm = h" using find_held [OF srt f] by blast
  have own: "sm_ID sm = j" "h = '''' \<or> issued E (bd_queueName s) (bd_serverSecret s) j h"
    using assms(1) j(2,4) by (auto simp: badger_inv_def)
  let ?sm = "if vt = 0 then sm\<lparr> sm_VisibleAt := unix_milli (now 0), sm_ReceiptHandle := '''' \<rparr>
             else sm\<lparr> sm_VisibleAt := unix_milli (now 0 + seconds vt) \<rparr>"
  have sm': "sm_ID ?sm = j" "sm_ReceiptHandle ?sm = '''' \<or> sm_ReceiptHandle ?sm = h"
    "s' = s\<lparr> bd_db := db_set (msgKey s j) (enc C ?sm) (bd_db s) \<rparr>"
    using assms(2) False f j own(1)
    by (auto simp: badger_ChangeMessageVisibility_def codec_enc(1) [OF C] Let_def)
  note w = badger_write [OF assms(1) sm'(1) _ sm'(3)]
  have "badger_holds C s j h" using j by (auto simp: badger_holds_def)
  then show ?thesis using w [of i] w [of j] sm'(2) own(2) by (cases "i = j") auto
qed

lemma badger_purge_law:
  assumes "badger_inv E C s" "badger_Purge no_txn_fail s = (err, s')"
  shows "badger_inv E C s' \<and> (\<not> bd_closed s \<longrightarrow> \<not> badger_holds C s' i h) \<and>
    (badger_holds C s' i h \<longrightarrow> badger_holds C s i h \<and> badger_visible C s' i = badger_visible C s i)"
proof (cases "bd_closed s")
  case False
  have srt: "sorted_db (bd_db s)" using assms(1) by (simp add: badger_inv_def)
  let ?ks = "map fst (items (bd_keyPrefix s) (bd_db s))"
  let ?s1 = "s\<lparr> bd_db := fold db_delete ?ks (bd_db s) \<rparr>"
  have s': "s' = ?s1\<lparr> bd_dedupCache := \<lambda>_. None \<rparr>" using assms(2) False by (simp add: badger_Purge_def)
  have none: "stored C ?s1 i = None" for i
  proof (cases "map_of (bd_db s) (msgKey s i)")
    case None
    then show ?thesis using stored_deletes [where C = C and s = s and ks = ?ks and i = i] by (simp add: stored_def)
  next
    case (Some v)
    then have "(msgKey s i, v) \<in> set (items (bd_keyPrefix s) (bd_db s))" by (simp add: items_iff [OF srt] msgKey_def)
    then have "msgKey s i \<in> set ?ks" by force
    then show ?thesis using stored_deletes [where C = C and s = s and ks = ?ks and i = i] by simp
  qed
  have "badger_inv E C ?s1"
    by (rule badger_inv_less [OF assms(1) refl]) (simp_all add: sorted_db_deletes srt none)
  then show ?thesis using none by (simp add: s' badger_holds_def)
qed (use assms in \<open>auto simp: badger_Purge_def\<close>)

lemma badger_ops_simps [simp]:
  "op_SendMessage (badger_ops E C fails) = badger_SendMessage E C fails"
  "op_ReceiveMessages (badger_ops E C fails) now rnd n vt s =
     badger_poll E C fails n (badger_timeout vt s) now rnd s"
  "op_DeleteMessage (badger_ops E C fails) = badger_DeleteMessage C fails"
  "op_ChangeMessageVisibility (badger_ops E C fails) = badger_ChangeMessageVisibility C fails"
  "op_Purge (badger_ops E C fails) = badger_Purge fails"
  "op_Close (badger_ops E C fails) = badger_Close"
  by (simp_all add: badger_ops_def)

lemma badger_open_stays:
  "store_step (badger_ops E C no_txn_fail) (\<lambda>s s'. s' = s) (badger_holds C) s e s' \<Longrightarrow>
   \<not> bd_closed s' \<Longrightarrow> \<not> bd_closed s"
  by (induction rule: store_step.induct)
    (auto simp: badger_SendMessage_def badger_poll_def badger_DeleteMessage_def
      badger_ChangeMessageVisibility_def badger_Purge_def badger_Close_def)

interpretation badger: message_store "badger_ops E C no_txn_fail" "badger_inv E C" "\<lambda>s s'. s' = s"
  "\<lambda>s. \<not> bd_closed s" "badger_holds C" "badger_visible C"
  for E C
proof (unfold_locales, goal_cases)
  case 1
  then show ?case by (auto simp: badger_holds_def)
next
  case 2
  then show ?case unfolding badger_ops_simps by (rule badger_send_law)
next
  case (3 s now rnd n vt ms red s')
  note law = badger_receive_law [OF 3(1) 3(2) [unfolded badger_ops_simps]]
  have "0 < vt \<Longrightarrow> badger_timeout vt s = vt" by (simp add: badger_timeout_def)
  with law show ?case by simp
next
  case (4 s now rnd n vt er red s' i h)
  then show ?case using badger_receive_error_law [OF 4(1) 4(2) [unfolded badger_ops_simps]] by simp
next
  case 5
  then show ?case unfolding badger_ops_simps by (rule badger_delete_law)
next
  case 6
  then show ?case unfolding badger_ops_simps by (rule badger_delete_held_law)
next
  case 7
  then show ?case unfolding badger_ops_simps by (rule badger_change_law)
next
  case 8
  then show ?case unfolding badger_ops_simps by (rule badger_purge_law)
next
  case 9
  then show ?case by (auto simp: badger_Close_def)
next
  case 10
  then show ?case by simp
next
  case 11
  then show ?case using badger_open_stays by blast
qed

subsection \<open>Queues that share a database\<close>

definition outside :: "string \<Rightarrow> kv \<Rightarrow> kv \<Rightarrow> bool" where
  "outside p db db' \<longleftrightarrow> (\<forall>k. \<not> HasPrefix k p \<longrightarrow> map_of db' k = map_of db k)"

lemma outside_refl [simp]: "outside p db db"
  by (simp add: outside_def)

lemma outside_set: "sorted_db db \<Longrightarrow> HasPrefix k p \<Longrightarrow> outside p db (db_set k v db)"
  by (auto simp: outside_def map_of_db_set)

lemma outside_deletes: "(\<And>k. k \<in> set ks \<Longrightarrow> HasPrefix k p) \<Longrightarrow> outside p db (fold db_delete ks db)"
  by (auto simp: outside_def map_of_db_deletes)

lemma outside_trans: "outside p a b \<Longrightarrow> outside p b c \<Longrightarrow> outside p a c"
  by (simp add: outside_def)

lemma prefixed_items: "k \<in> fst ` set (items p db) \<Longrightarrow> HasPrefix k p"
  by (auto simp: items_def)

lemma HasPrefix_msgKey [simp]: "HasPrefix (msgKey s i) (bd_keyPrefix s)"
  by (simp add: msgKey_def)

lemma outside_redrive: "outside (bd_keyPrefix s) (bd_db s) (bd_db (snd (badger_redriveIfNeeded C fails now s)))"
  by (auto simp: badger_redriveIfNeeded_def Let_def image_iff items_def
      intro!: outside_deletes split: option.splits if_splits)

lemma redrive_prefix [simp]:
  "bd_keyPrefix (snd (badger_redriveIfNeeded C fails now s)) = bd_keyPrefix s"
  "sorted_db (bd_db s) \<Longrightarrow> sorted_db (bd_db (snd (badger_redriveIfNeeded C fails now s)))"
  by (auto simp: badger_redriveIfNeeded_def Let_def sorted_db_deletes)

lemma outside_expire: "outside (bd_keyPrefix s) (bd_db s) (bd_db (badger_deleteExpiredMessages C fails now s))"
  by (auto simp: badger_deleteExpiredMessages_def Let_def items_def intro!: outside_deletes)

lemma expire_prefix [simp]:
  "bd_keyPrefix (badger_deleteExpiredMessages C fails now s) = bd_keyPrefix s"
  "sorted_db (bd_db s) \<Longrightarrow> sorted_db (bd_db (badger_deleteExpiredMessages C fails now s))"
  by (auto simp: badger_deleteExpiredMessages_def Let_def sorted_db_deletes)

lemma outside_claim:
  "sorted_db db \<Longrightarrow> (\<And>c. c \<in> set cs \<Longrightarrow> HasPrefix (cb_key c) p) \<Longrightarrow>
   outside p db (snd (badger_claim E C fails n now nv rnd q sec k cs result db))"
proof (induction cs arbitrary: k result db)
  case (Cons c cs)
  have out: "outside p db (db_set (cb_key c) v db)" for v using Cons.prems outside_set by simp
  have keep: "outside p db (snd (badger_claim E C fails n now nv rnd q sec k' cs r db))" for k' r
    using Cons by simp
  have step: "outside p db (snd (badger_claim E C fails n now nv rnd q sec k' cs r (db_set (cb_key c) v db)))"
    for k' r v by (rule outside_trans [OF out [of v] Cons.IH]) (use Cons.prems in \<open>simp_all add: sorted_db_set\<close>)
  show ?case using out by (simp add: Let_def keep step split: sum.split)
qed simp

lemma takeWhile_stop: "c \<notin> set q \<Longrightarrow> takeWhile (\<lambda>x. x \<noteq> c) (q @ c # s) = q"
  by (induction q) auto

lemma outside_poll:
  assumes "codec_ok C" "sorted_db (bd_db s)"
  shows "outside (bd_keyPrefix s) (bd_db s) (bd_db (snd (snd (badger_poll E C fails n vt now rnd s))))"
proof (cases "bd_closed s")
  case False
  let ?s1 = "snd (badger_redriveIfNeeded C fails (now 0) s)"
  let ?s2 = "badger_deleteExpiredMessages C fails (now 1) ?s1"
  have s2: "outside (bd_keyPrefix s) (bd_db s) (bd_db ?s2)"
    using outside_trans [OF outside_redrive] outside_expire [of ?s1 C fails "now 1"] by simp
  let ?cs = "sort_by_sent C (badger_scan C (bd_isFifo ?s2) n (unix_milli (now 2)) [] []
      (items (bd_keyPrefix s) (bd_db ?s2)))"
  have "HasPrefix (cb_key c) (bd_keyPrefix s)" if "c \<in> set ?cs" for c
  proof -
    obtain new where new: "badger_scan C (bd_isFifo ?s2) n (unix_milli (now 2)) [] []
        (items (bd_keyPrefix s) (bd_db ?s2)) = new"
      "scan_ok C (bd_isFifo ?s2) (unix_milli (now 2)) [] (items (bd_keyPrefix s) (bd_db ?s2)) new"
      using badger_scan_ok by (metis append_Nil)
    then obtain v where "(cb_key c, v) \<in> set (items (bd_keyPrefix s) (bd_db ?s2))"
      using \<open>c \<in> set ?cs\<close> codec_sorts(2) [OF assms(1)] unfolding scan_ok_def by blast
    then show ?thesis by (simp add: items_def)
  qed
  then have "outside (bd_keyPrefix s) (bd_db ?s2) (snd (badger_claim E C fails n (now 2) (now 2 + seconds vt) rnd
      (bd_queueName ?s2) (bd_serverSecret ?s2) 0 ?cs [] (bd_db ?s2)))"
    using assms(2) by (intro outside_claim) simp_all
  then show ?thesis using False s2
    by (auto simp: badger_poll_def case_prod_unfold Let_def simp del: One_nat_def
        intro: outside_trans split: option.splits)
qed (simp add: badger_poll_def)


subsection \<open>FIFO messages that time out\<close>

text \<open>
  A FIFO message whose visibility timeout ran out is not delivered again: it still holds
  the handle of its last delivery, and the scan takes a handle for a message in flight,
  whatever the clock says.  Only a redrive, a delete, a visibility change or expiry ends
  this.
\<close>

theorem badger_fifo_never_redelivered:
  assumes "badger_inv E C s" "bd_isFifo s" "stored C s i = Some sm" "sm_GroupID sm \<noteq> ''''"
    "sm_ReceiptHandle sm \<noteq> ''''"
    "badger_poll E C no_txn_fail n vt now rnd s = (Inr ms, redriven, s')"
  shows "i \<notin> MessageID ` set ms \<and> (stored C s' i = Some sm \<or> \<not> live_stored C now s sm)"
proof -
  obtain ps where ps:
    "ms = map (\<lambda>(j, sm). deliver_stored E s (now 2) (rnd j) sm) (List.enumerate 0 ps)"
    "\<And>j. j < length ps \<Longrightarrow> stored C s (sm_ID (ps ! j)) = Some (ps ! j) \<and>
       (bd_isFifo s \<and> sm_GroupID (ps ! j) \<noteq> '''' \<longrightarrow> sm_ReceiptHandle (ps ! j) = '''')"
    "\<And>i. i \<notin> sm_ID ` set ps \<Longrightarrow> stored C s' i = stored C (prepared C now s) i"
    using badger_poll_effect [OF assms(1,6)] by (auto simp: Let_def)
  have "map MessageID ms = map sm_ID ps" unfolding ps(1)
    by (induction ps rule: rev_induct) (simp_all add: deliver_stored_def enumerate_append_eq)
  then have ids: "MessageID ` set ms = sm_ID ` set ps" by (metis list.set_map)
  have "i \<notin> sm_ID ` set ps"
  proof
    assume "i \<in> sm_ID ` set ps"
    then obtain j where "j < length ps" "i = sm_ID (ps ! j)" by (auto simp: in_set_conv_nth)
    then show False using ps(2) [of j] assms(2,3,4,5) by auto
  qed
  moreover have "sorted_db (bd_db s)" using assms(1) by (simp add: badger_inv_def)
  ultimately show ?thesis
    using ps(3) [of i] prepared_stored(2) [of s C now i] assms(3) by (simp add: ids)
qed

end
