(* ===== verification/MemoryContract.thy ===== *)
theory MemoryContract
  imports MemoryExamples StoreContract
begin

section \<open>The in-memory store keeps the contract\<close>

text \<open>
  The laws of \<open>StoreContract\<close> for the store of \<open>MemoryStore\<close>.  Between two calls any
  armed timer may run its body, which is the \<open>tick\<close> of this store.
\<close>

abbreviation id_of :: "memory_store \<Rightarrow> nat \<Rightarrow> string" where
  "id_of s a \<equiv> MessageID (mm_msg (ms_heap s a))"

definition memory_inv :: "env \<Rightarrow> memory_store \<Rightarrow> bool" where
  "memory_inv E s \<longleftrightarrow> env_ok E \<and> mem_inv s \<and> inj_on (id_of s) (set (ms_messages s)) \<and>
     (\<forall>a \<in> set (ms_messages s). handle_of s a \<noteq> '''' \<longrightarrow>
        issued E (ms_queueName s) (ms_serverSecret s) (id_of s a) (handle_of s a))"

definition memory_holds :: "memory_store \<Rightarrow> string \<Rightarrow> string \<Rightarrow> bool" where
  "memory_holds s i h \<longleftrightarrow> (\<exists>a \<in> set (ms_messages s). id_of s a = i \<and> handle_of s a = h)"

definition memory_visible :: "memory_store \<Rightarrow> string \<Rightarrow> int" where
  "memory_visible s i =
     (case find (\<lambda>a. id_of s a = i) (ms_messages s) of
        Some a \<Rightarrow> unix_milli (mm_visibleAt (ms_heap s a)) | None \<Rightarrow> 0)"

definition memory_tick :: "memory_store \<Rightarrow> memory_store \<Rightarrow> bool" where
  "memory_tick s s' \<longleftrightarrow> (\<exists>i tm. ms_timers s i = Some tm \<and> s' = snd (run_timer i s))"

lemma memory_visible_cell:
  assumes "inj_on (id_of s) (set (ms_messages s))" "a \<in> set (ms_messages s)"
  shows "memory_visible s (id_of s a) = unix_milli (mm_visibleAt (ms_heap s a))"
proof (cases "find (\<lambda>b. id_of s b = id_of s a) (ms_messages s)")
  case None
  then show ?thesis using assms(2) by (auto simp: find_None_iff)
next
  case (Some b)
  then have "b \<in> set (ms_messages s)" "id_of s b = id_of s a" by (auto simp: find_Some_iff)
  then have "b = a" using assms by (auto dest: inj_onD)
  then show ?thesis using Some by (simp add: memory_visible_def)
qed

text \<open>
  Most calls only take messages away and forget handles: \<open>keeps s t V\<close> says so, with \<open>V\<close>
  the cells whose visibility may have changed.
\<close>

definition keeps :: "memory_store \<Rightarrow> memory_store \<Rightarrow> nat set \<Rightarrow> bool" where
  "keeps s t V \<longleftrightarrow>
     set (ms_messages t) \<subseteq> set (ms_messages s) \<and> ms_queueName t = ms_queueName s \<and>
     ms_serverSecret t = ms_serverSecret s \<and>
     (\<forall>a \<in> set (ms_messages t). id_of t a = id_of s a \<and>
        (handle_of t a = handle_of s a \<or> handle_of t a = '''') \<and>
        (a \<notin> V \<longrightarrow> mm_visibleAt (ms_heap t a) = mm_visibleAt (ms_heap s a)))"

lemma keeps_inv:
  assumes "memory_inv E s" "mem_inv t" "keeps s t V"
  shows "memory_inv E t"
proof -
  have "inj_on (id_of t) (set (ms_messages t))"
    using assms(1,3) by (auto simp: memory_inv_def keeps_def inj_on_def subset_iff)
  moreover have "issued E (ms_queueName t) (ms_serverSecret t) (id_of t a) (handle_of t a)"
    if "a \<in> set (ms_messages t)" "handle_of t a \<noteq> ''''" for a
  proof -
    have "a \<in> set (ms_messages s)" "id_of t a = id_of s a" "handle_of t a = handle_of s a"
      "ms_queueName t = ms_queueName s" "ms_serverSecret t = ms_serverSecret s"
      using assms(3) that by (auto simp: keeps_def)
    then show ?thesis using assms(1) that(2) by (simp add: memory_inv_def)
  qed
  ultimately show ?thesis using assms(1,2) by (simp add: memory_inv_def)
qed

lemma keeps_holds:
  assumes "memory_inv E s" "memory_inv E t" "keeps s t V" "memory_holds t i h"
  shows "(memory_holds s i h \<or> h = '''' \<and> (\<exists>k. memory_holds s i k)) \<and>
    (V = {} \<longrightarrow> memory_visible t i = memory_visible s i)"
proof -
  obtain a where a: "a \<in> set (ms_messages t)" "id_of t a = i" "handle_of t a = h"
    using assms(4) by (auto simp: memory_holds_def)
  then have s: "a \<in> set (ms_messages s)" "id_of s a = i"
    "handle_of t a = handle_of s a \<or> handle_of t a = ''''"
    "a \<notin> V \<longrightarrow> mm_visibleAt (ms_heap t a) = mm_visibleAt (ms_heap s a)"
    using assms(3) unfolding keeps_def by auto
  have "memory_visible t i = memory_visible s i" if "V = {}"
    using memory_visible_cell [of t a] memory_visible_cell [of s a] assms(1,2) a s that
    by (simp add: memory_inv_def)
  moreover have "memory_holds s i (handle_of s a)" using s by (auto simp: memory_holds_def)
  ultimately show ?thesis using s(3) a(3) by auto
qed

lemma memory_inv_New:
  "env_ok E \<Longrightarrow> memory_inv E (NewMemoryStore q vt secret cfg)"
  by (simp add: memory_inv_def mem_inv_New) (simp add: NewMemoryStore_def)

text \<open>A send adds one cell at the end.\<close>

lemma send_shape:
  assumes "SendMessage E now m d s = (err, m', s')" "\<forall>a \<in> set (ms_messages s). a < ms_next_cell s"
  shows "ms_queueName s' = ms_queueName s \<and> ms_serverSecret s' = ms_serverSecret s \<and>
    ((ms_messages s' = ms_messages s \<and> ms_heap s' = ms_heap s) \<or>
     (ms_messages s' = ms_messages s @ [ms_next_cell s] \<and> id_of s' (ms_next_cell s) = MessageID m \<and>
      handle_of s' (ms_next_cell s) = '''' \<and> (\<forall>a < ms_next_cell s. ms_heap s' a = ms_heap s a)))"
proof -
  obtain dup cache counter m1 where adm: "(if ms_isFifo s
      then fifo_admit E (ms_contentBasedDeduplication s) now (ms_dedupCache s) (ms_sequenceCounter s) m
      else (False, ms_dedupCache s, ms_sequenceCounter s, m)) = (dup, cache, counter, m1)"
    by (metis prod_cases4)
  then have "MessageID m1 = MessageID m" using fifo_admit_message by (metis prod.inject)
  then show ?thesis using assms(1) unfolding SendMessage_def adm
    by (auto simp: Let_def set_cell_def notifyWaiters_def zero_cell_def split: if_splits)
qed

lemma memory_send_law:
  assumes inv: "memory_inv E s" and fresh: "\<forall>h. \<not> memory_holds s (MessageID m) h"
    and send: "SendMessage E now m d s = (err, m', s')"
  shows "memory_inv E s' \<and> (i \<noteq> MessageID m \<longrightarrow> (memory_holds s' i h \<longleftrightarrow> memory_holds s i h)) \<and>
    (i \<noteq> MessageID m \<longrightarrow> memory_visible s' i = memory_visible s i)"
proof -
  have cells: "\<forall>a \<in> set (ms_messages s). a < ms_next_cell s"
    using inv mem_inv_cell by (auto simp: memory_inv_def cell_ok_def)
  have mem: "mem_inv s'" using mem_inv_send [of s E now m d] inv send by (simp add: memory_inv_def)
  note shape = send_shape [OF send cells]
  show ?thesis
  proof (cases "ms_messages s' = ms_messages s \<and> ms_heap s' = ms_heap s")
    case True
    then show ?thesis using inv mem shape
      by (simp add: memory_inv_def memory_holds_def memory_visible_def cong: option.case_cong)
  next
    case False
    let ?c = "ms_next_cell s"
    have new: "ms_messages s' = ms_messages s @ [?c]" "id_of s' ?c = MessageID m" "handle_of s' ?c = ''''"
      and same: "\<And>a. a \<in> set (ms_messages s) \<Longrightarrow> ms_heap s' a = ms_heap s a"
      using shape False cells by auto
    have other: "id_of s a \<noteq> MessageID m" if "a \<in> set (ms_messages s)" for a
      using fresh that unfolding memory_holds_def by blast
    have "id_of s' ?c \<notin> id_of s' ` set (ms_messages s)"
    proof
      assume "id_of s' ?c \<in> id_of s' ` set (ms_messages s)"
      then obtain b where "b \<in> set (ms_messages s)" "id_of s' ?c = id_of s' b" by blast
      then show False using new(2) same [of b] other [of b] by simp
    qed
    moreover have "inj_on (id_of s') (set (ms_messages s))"
      using inv same by (simp add: memory_inv_def inj_on_def)
    ultimately have "inj_on (id_of s') (set (ms_messages s'))"
      unfolding new(1) by (auto simp: inj_on_insert)
    then have "memory_inv E s'"
      using inv mem shape new same by (auto simp: memory_inv_def)
    moreover have found: "find (\<lambda>a. id_of s' a = i) (ms_messages s') = find (\<lambda>a. id_of s a = i) (ms_messages s)"
      if "i \<noteq> MessageID m"
    proof -
      have "find (\<lambda>a. id_of s' a = i) xs = find (\<lambda>a. id_of s a = i) xs" if "set xs \<subseteq> set (ms_messages s)" for xs
        using that same by (induction xs) auto
      moreover have "find P (xs @ [y]) = find P xs" if "\<not> P y" for P :: "nat \<Rightarrow> bool" and xs y
        using that by (induction xs) auto
      ultimately show ?thesis using new that by simp
    qed
    have "memory_visible s' i = memory_visible s i" if "i \<noteq> MessageID m"
    proof (cases "find (\<lambda>a. id_of s a = i) (ms_messages s)")
      case None
      then show ?thesis using found [OF that] by (simp add: memory_visible_def)
    next
      case (Some a)
      then have "a \<in> set (ms_messages s)" by (auto simp: find_Some_iff)
      then show ?thesis using found [OF that] Some same by (simp add: memory_visible_def)
    qed
    ultimately show ?thesis using new same by (auto simp: memory_holds_def)
  qed
qed
lemma delivered_id [simp]: "MessageID (delivered E vt now nonce s a) = id_of s a"
  by (simp add: delivered_def Let_def)

lemma poll_names [simp]:
  "ms_queueName (snd (receive_poll E n vt now rnd s)) = ms_queueName s"
  "ms_serverSecret (snd (receive_poll E n vt now rnd s)) = ms_serverSecret s"
proof -
  have "ms_queueName (snd (receive_scan E n vt now rnd as result s)) = ms_queueName s \<and>
    ms_serverSecret (snd (receive_scan E n vt now rnd as result s)) = ms_serverSecret s" for as result s
  proof (induction as arbitrary: result s)
    case (Cons a as)
    obtain m t where r: "receiveMessage E vt now (rnd (length result)) a s = (m, t)" by fastforce
    show ?case using Cons r receiveMessage_frame(6,7) [OF r] by (simp add: Let_def)
  qed simp
  then show "ms_queueName (snd (receive_poll E n vt now rnd s)) = ms_queueName s"
    "ms_serverSecret (snd (receive_poll E n vt now rnd s)) = ms_serverSecret s"
    by (simp_all add: receive_poll_def Let_def case_prod_unfold)
qed

lemma scan_heap_outside:
  "b \<notin> set as \<Longrightarrow> ms_heap (snd (receive_scan E n vt now rnd as result s)) b = ms_heap s b"
proof (induction as arbitrary: result s)
  case (Cons a as)
  obtain m t where r: "receiveMessage E vt now (rnd (length result)) a s = (m, t)" by fastforce
  show ?case using Cons r receiveMessage_frame(3) [OF r, of b] by (simp add: Let_def)
qed simp

lemma scan_stores:
  "distinct as \<Longrightarrow> m \<in> set (fst (receive_scan E n vt now rnd as result s)) \<Longrightarrow> m \<notin> set result \<Longrightarrow>
   \<exists>a \<in> set as. mm_msg (ms_heap (snd (receive_scan E n vt now rnd as result s)) a) = m \<and>
     handle_of (snd (receive_scan E n vt now rnd as result s)) a = ReceiptHandle m"
proof (induction as arbitrary: result s)
  case (Cons a as)
  obtain m' t where r: "receiveMessage E vt now (rnd (length result)) a s = (m', t)" by fastforce
  note fr = receiveMessage_frame(11,12) [OF r]
  show ?case
  proof (cases "receivable now s a")
    case True
    then show ?thesis
      using Cons r fr scan_heap_outside [of a as E n vt now rnd "result @ [m']" t]
      by (cases "m = m'") (auto simp: Let_def)
  next
    case False
    then show ?thesis using Cons by simp
  qed
qed simp

lemma poll_stores:
  assumes "distinct (ms_messages s)" "receive_poll E n vt now rnd s = (Inr ms, s')" "m \<in> set ms"
  shows "\<exists>a \<in> set (ms_messages s'). mm_msg (ms_heap s' a) = m \<and> handle_of s' a = ReceiptHandle m"
proof -
  let ?s1 = "deleteExpiredMessagesLocked now s"
  have "\<not> ms_closed s" using assms(2) by (auto simp: receive_poll_def)
  then have scan: "receive_scan E n vt now rnd (ms_messages ?s1) [] ?s1 = (ms, s')"
    using assms(2) by (simp add: receive_poll_def Let_def case_prod_unfold prod_eq_iff)
  have "ms_messages s' = ms_messages ?s1"
    using poll_open(2) [OF assms(1) \<open>\<not> ms_closed s\<close>, where E = E and n = n and vt = vt and now = now and rnd = rnd]
      assms(2) by simp
  then show ?thesis
    using scan_stores [of "ms_messages ?s1" m E n vt now rnd "[]" ?s1] scan assms(1,3) by simp
qed

lemma memory_receive_law:
  assumes inv: "memory_inv E s" and poll: "receive_poll E n vt0 t rnd s = (Inr ms, s')"
  shows "memory_inv E s' \<and> length ms \<le> nat (max 1 n) \<and>
    (\<forall>m \<in> set ms. (\<exists>h. memory_holds s (MessageID m) h) \<and>
       memory_holds s' (MessageID m) (ReceiptHandle m) \<and> ReceiptHandle m \<noteq> '''' \<and>
       memory_visible s (MessageID m) \<le> unix_milli (ReceivedTimestamp m) \<and>
       memory_visible s' (MessageID m) = unix_milli (ReceivedTimestamp m + seconds vt0)) \<and>
    (\<forall>i h. i \<notin> MessageID ` set ms \<longrightarrow> memory_holds s' i h \<longrightarrow>
       memory_holds s i h \<and> memory_visible s' i = memory_visible s i)"
proof -
  let ?ps = "picks n t s"
  from inv have mem: "mem_inv s" and E: "receipts_ok E" and inj: "inj_on (id_of s) (set (ms_messages s))"
    by (auto simp: memory_inv_def env_ok_def)
  note d = mem_inv_distinct [OF mem]
  have "\<not> ms_closed s" using poll by (auto simp: receive_poll_def)
  note open_poll = poll_open [OF d this, where E = E and n = n and vt = vt0 and now = t and rnd = rnd]
  have ms: "ms = map (\<lambda>k. delivered E vt0 t (rnd k) s (?ps ! k)) [0..<length ?ps]"
    and msgs: "ms_messages s' = filter (\<lambda>a. \<not> expired t s a) (ms_messages s)"
    and other: "\<And>b. b \<notin> set ?ps \<Longrightarrow> ms_heap s' b = ms_heap s b"
    using open_poll(1,2,3) poll by simp_all
  have picked: "mm_visibleAt (ms_heap s' b) = t + seconds vt0 \<and>
      (\<exists>nonce. mm_msg (ms_heap s' b) = delivered E vt0 t nonce s b) \<and>
      handle_of s' b = ReceiptHandle (mm_msg (ms_heap s' b))" if "b \<in> set ?ps" for b
    using open_poll(4) [OF that] poll by auto
  have id: "id_of s' b = id_of s b" for b
    using other [of b] picked [of b] by (cases "b \<in> set ?ps") (auto simp: delivered_def Let_def)
  have names: "ms_queueName s' = ms_queueName s" "ms_serverSecret s' = ms_serverSecret s"
    using poll_names [where E = E and n = n and vt = vt0 and now = t and rnd = rnd and s = s] poll by simp_all
  have sub: "set (ms_messages s') \<subseteq> set (ms_messages s)" using msgs by auto
  have inj': "inj_on (id_of s') (set (ms_messages s'))"
    using inj sub id unfolding inj_on_def by (metis subsetD)
  have "issued E (ms_queueName s') (ms_serverSecret s') (id_of s' a) (handle_of s' a)"
    if a: "a \<in> set (ms_messages s')" "handle_of s' a \<noteq> ''''" for a
  proof (cases "a \<in> set ?ps")
    case True
    then show ?thesis using picked [OF True] id names by (auto simp: delivered_def Let_def)
  next
    case False
    then show ?thesis using a other [OF False] sub inv names by (auto simp: memory_inv_def)
  qed
  moreover have "mem_inv s'" using mem_inv_poll [OF mem E, of n vt0 t rnd] poll by simp
  ultimately have inv': "memory_inv E s'" using inv inj' by (simp add: memory_inv_def)
  have "length ms \<le> nat (max 1 n)" by (simp add: ms picks_def)
  moreover have "(\<exists>h. memory_holds s (MessageID m) h) \<and> memory_holds s' (MessageID m) (ReceiptHandle m) \<and>
       ReceiptHandle m \<noteq> '''' \<and> memory_visible s (MessageID m) \<le> unix_milli (ReceivedTimestamp m) \<and>
       memory_visible s' (MessageID m) = unix_milli (ReceivedTimestamp m + seconds vt0)" if m: "m \<in> set ms" for m
  proof -
    obtain a where a: "a \<in> set (ms_messages s')" "mm_msg (ms_heap s' a) = m" "handle_of s' a = ReceiptHandle m"
      using poll_stores [OF d poll m] by blast
    obtain k where k: "k < length ?ps" "m = delivered E vt0 t (rnd k) s (?ps ! k)" using m by (auto simp: ms)
    let ?b = "?ps ! k"
    have b: "?b \<in> set ?ps" using k(1) by simp
    note pb = picks_subset [OF b]
    have mb: "MessageID m = id_of s ?b" "ReceivedTimestamp m = t" "ReceiptHandle m \<noteq> ''''"
      using handle_nonempty [OF E] by (simp_all add: k(2) delivered_def Let_def)
    have "id_of s a = id_of s ?b" using a(2) mb(1) id [of a] by simp
    then have ab: "a = ?b" using inj a(1) sub pb by (auto dest: inj_onD)
    have "memory_visible s (id_of s ?b) = unix_milli (mm_visibleAt (ms_heap s ?b))"
      "memory_visible s' (id_of s' a) = unix_milli (mm_visibleAt (ms_heap s' a))"
      using memory_visible_cell [OF inj] memory_visible_cell [OF inj' a(1)] pb by blast+
    moreover have "mm_visibleAt (ms_heap s ?b) \<le> t" using pb by (simp add: receivable_def)
    ultimately show ?thesis
      using a mb pb picked [OF b] ab unix_milli_mono by (auto simp: memory_holds_def)
  qed
  moreover have "memory_holds s i h \<and> memory_visible s' i = memory_visible s i"
    if i: "i \<notin> MessageID ` set ms" "memory_holds s' i h" for i h
  proof -
    obtain a where a: "a \<in> set (ms_messages s')" "id_of s' a = i" "handle_of s' a = h"
      using i(2) by (auto simp: memory_holds_def)
    have "a \<notin> set ?ps"
    proof
      assume "a \<in> set ?ps"
      then obtain k where "k < length ?ps" "?ps ! k = a" by (auto simp: in_set_conv_nth)
      then have "delivered E vt0 t (rnd k) s a \<in> set ms" by (auto simp: ms)
      then have "id_of s a \<in> MessageID ` set ms" by (metis delivered_id image_eqI)
      then show False using i(1) a(2) id by simp
    qed
    then show ?thesis
      using a sub id other memory_visible_cell [OF inj] memory_visible_cell [OF inj']
      unfolding memory_holds_def by (metis subsetD)
  qed
  ultimately show ?thesis using inv' by blast
qed
lemma memory_receive_error_law:
  "memory_inv E s \<Longrightarrow> receive_poll E n vt t rnd s = (Inl er, s') \<Longrightarrow> s' = s"
  by (auto simp: receive_poll_def Let_def case_prod_unfold split: if_splits)

lemma removeMessage_names [simp]:
  "ms_queueName (removeMessage a s) = ms_queueName s"
  "ms_serverSecret (removeMessage a s) = ms_serverSecret s"
  using removeMessage_eq [of a s] by auto

lemma memory_delete_law:
  assumes "memory_inv E s" "DeleteMessage h s = (err, s')"
  shows "memory_inv E s' \<and>
    (memory_holds s' i k \<longrightarrow> memory_holds s i k \<and> memory_visible s' i = memory_visible s i)"
proof -
  have "mem_inv s'" using mem_inv_delete [of s h] assms by (simp add: memory_inv_def)
  moreover have heap: "ms_heap s' = ms_heap s" using delete_frame(2) [of h s] assms(2) by simp
  have sub: "set (ms_messages s') \<subseteq> set (ms_messages s)" using delete_frame(3) [of h s] assms(2) by simp
  have "ms_queueName s' = ms_queueName s \<and> ms_serverSecret s' = ms_serverSecret s"
    using assms(2) by (auto simp: DeleteMessage_def notifyWaiters_def split: option.splits)
  then have keep: "keeps s s' {}" using heap sub by (simp add: keeps_def)
  ultimately have inv: "memory_inv E s'" using keeps_inv [OF assms(1)] by blast
  have "memory_holds s i k" if "memory_holds s' i k"
    using that heap sub by (auto simp: memory_holds_def)
  then show ?thesis using inv keeps_holds [OF assms(1) inv keep] by blast
qed

lemma memory_delete_held_law:
  assumes "memory_inv E s" "memory_holds s i h" "h \<noteq> ''''" "DeleteMessage h s = (err, s')"
  shows "err = None \<and> \<not> memory_holds s' i k \<and>
    (j \<noteq> i \<longrightarrow> (memory_holds s' j k \<longleftrightarrow> memory_holds s j k))"
proof -
  from assms(1) have E: "receipts_ok E" "receipts_differ E" and inj: "inj_on (id_of s) (set (ms_messages s))"
    and mem: "mem_inv s" by (auto simp: memory_inv_def env_ok_def)
  obtain a where a: "a \<in> set (ms_messages s)" "id_of s a = i" "handle_of s a = h"
    using assms(2) by (auto simp: memory_holds_def)
  obtain b where b: "find_handle h s = Some b"
    using a assms(3) by (cases "find_handle h s") (auto simp: find_handle_def find_None_iff)
  have bh: "b \<in> set (ms_messages s)" "handle_of s b = h" using find_handle_Some [OF b] by auto
  have "id_of s b = id_of s a"
    using issued_same [OF E] assms(1,3) a(1,3) bh unfolding memory_inv_def by metis
  then have "b = a" using inj a(1) bh(1) by (auto dest: inj_onD)
  then have s': "err = None" "ms_heap s' = ms_heap s" "ms_messages s' = remove1 a (ms_messages s)"
    using assms(4) b by (auto simp: DeleteMessage_def notifyWaiters_def removeMessage_simps)
  then have "set (ms_messages s') = set (ms_messages s) - {a}"
    using mem_inv_distinct [OF mem] by simp
  then show ?thesis using s' a inj unfolding memory_holds_def
    by (auto dest: inj_onD)
qed

lemma memory_change_law:
  assumes "memory_inv E s" "ChangeMessageVisibility now h vt s = (err, s')"
  shows "memory_inv E s' \<and> ((\<exists>k. memory_holds s' i k) \<longleftrightarrow> (\<exists>k. memory_holds s i k)) \<and>
    (\<not> memory_holds s i h \<longrightarrow> memory_holds s' i k \<longrightarrow>
       memory_holds s i k \<and> memory_visible s' i = memory_visible s i)"
proof (cases "find_handle h s")
  case None
  then show ?thesis using assms by (simp add: ChangeMessageVisibility_def)
next
  case (Some a)
  then have a: "a \<in> set (ms_messages s)" "handle_of s a = h" using find_handle_Some by auto
  have mem: "mem_inv s'" using mem_inv_change [of s now h vt] assms by (simp add: memory_inv_def)
  have msgs: "ms_messages s' = ms_messages s" and other: "\<And>b. b \<noteq> a \<Longrightarrow> ms_heap s' b = ms_heap s b"
    using change_frame(2,3) [where now = now and h = h and vt = vt and s = s] Some assms(2) by auto
  have cell: "id_of s' a = id_of s a" "handle_of s' a = handle_of s a \<or> handle_of s' a = ''''"
    "ms_queueName s' = ms_queueName s" "ms_serverSecret s' = ms_serverSecret s"
    using assms(2) ChangeMessageVisibility_eq [OF Some, of now vt]
    by (auto simp: notifyWaiters_def split: if_splits)
  have id: "id_of s' b = id_of s b" for b using other cell(1) by (cases "b = a") auto
  have keep: "keeps s s' {a}"
    using msgs other cell id unfolding keeps_def by (metis equalityE singletonI)
  have inv: "memory_inv E s'" using keeps_inv [OF assms(1) mem keep] .
  have "(\<exists>k. memory_holds s' i k) \<longleftrightarrow> (\<exists>k. memory_holds s i k)"
    using msgs id by (auto simp: memory_holds_def)
  moreover have "memory_holds s i k \<and> memory_visible s' i = memory_visible s i"
    if nh: "\<not> memory_holds s i h" and k: "memory_holds s' i k"
  proof -
    obtain b where b: "b \<in> set (ms_messages s)" "id_of s b = i" "handle_of s' b = k"
      using k msgs id by (auto simp: memory_holds_def)
    then have "b \<noteq> a" using nh a by (auto simp: memory_holds_def)
    then have "ms_heap s' b = ms_heap s b" by (rule other)
    then show ?thesis
      using b msgs memory_visible_cell [of s b] memory_visible_cell [of s' b] assms(1) inv
      by (auto simp: memory_holds_def memory_inv_def)
  qed
  ultimately show ?thesis using inv by blast
qed

lemma memory_tick_law:
  assumes "memory_inv E s" "memory_tick s s'"
  shows "memory_inv E s' \<and>
    (memory_holds s' i h \<longrightarrow> (memory_holds s i h \<or> h = '''' \<and> (\<exists>k. memory_holds s i k)) \<and>
       memory_visible s' i = memory_visible s i)"
proof -
  obtain j tm where tm: "ms_timers s j = Some tm" and s': "s' = snd (run_timer j s)"
    using assms(2) by (auto simp: memory_tick_def)
  let ?a = "tm_cell tm"
  have mem: "mem_inv s" using assms(1) by (simp add: memory_inv_def)
  note frame = timer_frame [OF mem tm, folded s']
  have fields: "ms_queueName s' = ms_queueName s" "ms_serverSecret s' = ms_serverSecret s"
    and cell: "?a \<in> set (ms_messages s') \<Longrightarrow> id_of s' ?a = id_of s ?a \<and>
      (handle_of s' ?a = handle_of s ?a \<or> handle_of s' ?a = '''') \<and>
      mm_visibleAt (ms_heap s' ?a) = mm_visibleAt (ms_heap s ?a)"
    using mem_inv_distinct [OF mem]
    by (auto simp: s' run_timer_cases [OF mem tm] Let_def case_prod_unfold notifyWaiters_def
        show_cell_def forget_cell_def clear_group_eq redrive_cell_eq removeMessage_simps set_cell_def Stop_eq)
  have keep: "keeps s s' {}"
    unfolding keeps_def
  proof (intro conjI ballI impI)
    fix b assume "b \<in> set (ms_messages s')"
    then show "id_of s' b = id_of s b" "handle_of s' b = handle_of s b \<or> handle_of s' b = ''''"
      "mm_visibleAt (ms_heap s' b) = mm_visibleAt (ms_heap s b)"
      using cell frame(2) [of b] by (cases "b = ?a"; simp)+
  qed (use fields frame(3) in simp_all)
  have inv: "memory_inv E s'" using keeps_inv [OF assms(1) _ keep] mem_inv_timer_step [OF mem tm] s' by simp
  then show ?thesis using keeps_holds [OF assms(1) inv keep] by blast
qed

lemma purge_close_names [simp]:
  "ms_queueName (Purge s) = ms_queueName s" "ms_serverSecret (Purge s) = ms_serverSecret s"
  "ms_queueName (Close s) = ms_queueName s" "ms_serverSecret (Close s) = ms_serverSecret s"
  "ms_closed (Close s)" "ms_closed (Purge s) = ms_closed s"
  by (simp_all add: Purge_def Close_def stop_all_eq notifyWaiters_def)

lemma memory_ops_simps [simp]:
  "op_SendMessage (memory_ops E) = SendMessage E"
  "op_DeleteMessage (memory_ops E) = DeleteMessage"
  "op_ChangeMessageVisibility (memory_ops E) = ChangeMessageVisibility"
  "op_Purge (memory_ops E) s = (None, Purge s)"
  "op_Close (memory_ops E) s = (None, Close s)"
  by (simp_all add: memory_ops_def)

lemma memory_ops_receive:
  "op_ReceiveMessages (memory_ops E) now rnd n vt s = (r, red, s') \<longleftrightarrow>
   red = [] \<and> receive_poll E n (effective_timeout vt s) (now 0) rnd s = (r, s')"
  by (auto simp: memory_ops_def ReceiveNow_def case_prod_unfold prod_eq_iff Let_def)

lemma run_timer_closed: "ms_closed (snd (run_timer i s)) = ms_closed s"
  by (auto simp: run_timer_def Let_def redrive_cell_def removeMessage_simps forget_cell_def show_cell_def
      clear_group_def set_cell_def notifyWaiters_def split: option.splits timer_body.splits)

lemma receiveMessage_closed [simp]: "ms_closed (snd (receive_poll E n vt now rnd s)) = ms_closed s"
proof -
  have "ms_closed (snd (receive_scan E n vt now rnd as result s)) = ms_closed s" for as result s
  proof (induction as arbitrary: result s)
    case (Cons a as)
    obtain m t where r: "receiveMessage E vt now (rnd (length result)) a s = (m, t)" by fastforce
    show ?case using Cons r receiveMessage_frame(8) [OF r] by (simp add: Let_def)
  qed simp
  then show ?thesis by (simp add: receive_poll_def Let_def case_prod_unfold)
qed

lemma memory_open_stays:
  "store_step (memory_ops E) memory_tick memory_holds s e s' \<Longrightarrow> \<not> ms_closed s' \<Longrightarrow> \<not> ms_closed s"
proof (induction rule: store_step.induct)
  case (SReceive now rnd n vt s ms redriven s')
  then show ?case using receiveMessage_closed by (metis memory_ops_receive snd_conv)
next
  case (SReceiveError now rnd n vt s e redriven s')
  then show ?case using receiveMessage_closed by (metis memory_ops_receive snd_conv)
next
  case (SChange now h vt s err s')
  then show ?case
    using ChangeMessageVisibility_eq [of h s _ now vt]
    by (cases "find_handle h s") (auto simp: ChangeMessageVisibility_def notifyWaiters_def split: if_splits)
next
  case (STick s s')
  then show ?case using run_timer_closed by (auto simp: memory_tick_def)
qed (auto simp: SendMessage_def DeleteMessage_def notifyWaiters_def removeMessage_simps set_cell_def Let_def
      split: if_splits option.splits prod.splits)

interpretation memory: message_store "memory_ops E" "memory_inv E" memory_tick "\<lambda>s. \<not> ms_closed s"
  memory_holds memory_visible
  for E
proof (unfold_locales, goal_cases)
  case (1 s i h h')
  then show ?case by (auto simp: memory_inv_def memory_holds_def inj_on_def)
next
  case 2
  then show ?case unfolding memory_ops_simps by (rule memory_send_law)
next
  case (3 s now rnd n vt ms red s')
  note law = memory_receive_law [OF 3(1) 3(2) [unfolded memory_ops_receive, THEN conjunct2]]
  have "0 < vt \<Longrightarrow> effective_timeout vt s = vt" by (simp add: effective_timeout_def)
  with law show ?case by simp
next
  case (4 s now rnd n vt er red s' i h)
  then show ?case using memory_receive_error_law [OF 4(1)] by (simp add: memory_ops_receive) blast
next
  case 5
  then show ?case unfolding memory_ops_simps by (rule memory_delete_law)
next
  case (6 s i h err s' k j)
  then show ?case unfolding memory_ops_simps using memory_delete_held_law [OF 6(1,3,4)] by blast
next
  case 7
  then show ?case unfolding memory_ops_simps by (rule memory_change_law)
next
  case (8 s err s' i h)
  then show ?case using mem_inv_purge [of s] by (auto simp: memory_inv_def memory_holds_def)
next
  case (9 s err s' i h)
  then show ?case using mem_inv_close [of s]
    by (auto simp: memory_inv_def memory_holds_def memory_visible_def cong: option.case_cong)
next
  case 10
  then show ?case by (rule memory_tick_law)
next
  case 11
  then show ?case using memory_open_stays by blast
qed

end
