(* ===== verification/StoreExamples.thy ===== *)
theory StoreExamples
  imports SqliteProperties BadgerProperties MemoryContract
begin

section \<open>Concrete runs of the stores\<close>

text \<open>
  An engine and a codec that meet their documented behaviour, and small queues on which the
  theorems about the persistent stores apply.
\<close>

definition sample_engine :: engine where
  "sample_engine = \<lparr> order_by_sent = sort_key r_sent_timestamp,
     cast_integer = (\<lambda>s. fst (ParseInt s)), unique_error = ''UNIQUE constraint failed'',
     marshal_attrs = (\<lambda>a. Inr ''{}''), unmarshal_attrs = (\<lambda>s. Some []) \<rparr>"

lemma sample_engine_ok [simp]: "orders_rows sample_engine"
  by (simp add: orders_rows_def sample_engine_def)

definition sample_row :: "string \<Rightarrow> int \<Rightarrow> string \<Rightarrow> row" where
  "sample_row i t grp = \<lparr> r_id = i, r_queue_name = ''q'', r_body = ''body'', r_md5_of_body = '''',
     r_md5_of_message_attributes = '''', r_message_attributes = ''{}'', r_system_attributes = ''{}'',
     r_sent_timestamp = t, r_visible_at = t, r_receipt_handle = '''', r_receive_count = 0,
     r_first_received_at = 0, r_sequence_number = ''1'', r_message_dedup_id = '''',
     r_message_group_id = grp \<rparr>"

definition sample_sq :: "bool \<Rightarrow> row list \<Rightarrow> sqlite_store" where
  "sample_sq fifo rows = \<lparr> sq_table = rows, sq_queueName = ''q'', sq_visibilityTimeout = 30,
     sq_serverSecret = ''secret'', sq_closed = False, sq_isFifo = fifo,
     sq_contentBasedDeduplication = False, sq_dedupCache = (\<lambda>_. None), sq_sequenceCounter = 1,
     sq_maxReceiveCount = 0, sq_redriveFunc = None, sq_messageRetentionPeriod = 60 \<rparr>"

abbreviation "sample_rows \<equiv> [sample_row ''m2'' 2000 ''g'', sample_row ''m1'' 1000 ''g'']"

lemma sample_sq_simps [simp]:
  "sq_table (sample_sq f rows) = rows" "\<not> sq_closed (sample_sq f rows)" "sq_isFifo (sample_sq f rows) = f"
  "sq_maxReceiveCount (sample_sq f rows) = 0" "sq_messageRetentionPeriod (sample_sq f rows) = 60"
  by (simp_all add: sample_sq_def)

lemma sample_row_simps [simp]:
  "r_id (sample_row i t g) = i" "r_sent_timestamp (sample_row i t g) = t"
  "r_visible_at (sample_row i t g) = t" "r_receipt_handle (sample_row i t g) = ''''"
  "r_message_group_id (sample_row i t g) = g" "r_sequence_number (sample_row i t g) = ''1''"
  "r_receive_count (sample_row i t g) = 0"
  by (simp_all add: sample_row_def)

lemma sample_sq_inv [simp]:
  "distinct (map r_id rows) \<Longrightarrow> (\<And>r. r \<in> set rows \<Longrightarrow> r_receipt_handle r = '''') \<Longrightarrow>
   sqlite_inv plain_env sample_engine (sample_sq f rows)"
  by (simp add: sqlite_inv_def)

lemma milli_secs [simp]: "unix_milli (secs n) = n * 1000"
  by (simp add: unix_milli_def secs_def)

text \<open>A receive five seconds after the epoch finds both messages live.\<close>

lemma sample_live: "live_rows (\<lambda>_. secs 5) (sample_sq f sample_rows) = sample_rows"
  by (simp add: live_rows_def secs_def retention_cutoff_def seconds_def wrap64_def unix_milli_def)

lemma sample_picks:
  "sqlite_picks sample_engine 1 (\<lambda>_. secs 5) (sample_sq f sample_rows) = [sample_row ''m1'' 1000 ''g'']"
  by (simp add: sqlite_picks_def sample_live select_visible_def limit_rows_def in_flight_groups_def
      sample_engine_def)

text \<open>The first of the two messages, once delivered.\<close>

definition sample_m1 :: row where
  "sample_m1 = hide_row plain_env (sample_sq False sample_rows) (secs 5) (secs 5 + seconds 30) ''n''
     (sample_row ''m1'' 1000 ''g'')"

lemma sample_m1_simps [simp]:
  "r_id sample_m1 = ''m1''" "r_sent_timestamp sample_m1 = 1000" "r_visible_at sample_m1 = 35000"
  by (simp_all add: sample_m1_def hide_row_def seconds_def wrap64_def unix_milli_def secs_def)

lemma sample_received:
  "sqlite_poll plain_env sample_engine no_fail 1 30 (\<lambda>_. secs 5) (\<lambda>_. ''n'') (sample_sq False sample_rows) =
     (Inr [deliver_row plain_env sample_engine (sample_sq False sample_rows) (secs 5) ''n'' (sample_row ''m1'' 1000 ''g'')],
      [], sample_sq False [sample_row ''m2'' 2000 ''g'', sample_m1])"
proof -
  have "sqlite_poll plain_env sample_engine no_fail 1 30 (\<lambda>_. secs 5) (\<lambda>_. ''n'') (sample_sq False sample_rows) =
     (Inr [deliver_row plain_env sample_engine (sample_sq False sample_rows) (secs 5) ''n'' (sample_row ''m1'' 1000 ''g'')],
      [], (sample_sq False sample_rows)\<lparr> sq_table := [sample_row ''m2'' 2000 ''g'', sample_m1] \<rparr>)"
    by (subst sqlite_poll_open)
      (simp_all add: sample_picks sample_live claim_row_def sample_m1_def redriven_rows_def)
  then show ?thesis by (simp add: sample_sq_def)
qed

lemma sample_received_again:
  "sqlite_poll plain_env sample_engine no_fail 1 30 (\<lambda>_. secs 40) (\<lambda>_. ''n2'')
      (sample_sq False [sample_row ''m2'' 2000 ''g'', sample_m1]) =
     (Inr [deliver_row plain_env sample_engine (sample_sq False [sample_row ''m2'' 2000 ''g'', sample_m1])
        (secs 40) ''n2'' sample_m1], [], sample_sq False [sample_row ''m2'' 2000 ''g'',
          hide_row plain_env (sample_sq False [sample_row ''m2'' 2000 ''g'', sample_m1]) (secs 40)
            (secs 40 + seconds 30) ''n2'' sample_m1])"
proof -
  let ?s = "sample_sq False [sample_row ''m2'' 2000 ''g'', sample_m1]"
  have live: "live_rows (\<lambda>_. secs 40) ?s = [sample_row ''m2'' 2000 ''g'', sample_m1]"
    by (simp add: live_rows_def secs_def retention_cutoff_def seconds_def wrap64_def unix_milli_def)
  have picks: "sqlite_picks sample_engine 1 (\<lambda>_. secs 40) ?s = [sample_m1]"
    by (simp add: sqlite_picks_def live select_visible_def limit_rows_def sample_engine_def)
  have "sqlite_poll plain_env sample_engine no_fail 1 30 (\<lambda>_. secs 40) (\<lambda>_. ''n2'') ?s =
     (Inr [deliver_row plain_env sample_engine ?s (secs 40) ''n2'' sample_m1], [],
      ?s\<lparr> sq_table := [sample_row ''m2'' 2000 ''g'',
          hide_row plain_env ?s (secs 40) (secs 40 + seconds 30) ''n2'' sample_m1] \<rparr>)"
    by (subst sqlite_poll_open) (simp_all add: picks live claim_row_def redriven_rows_def)
  then show ?thesis by (simp add: sample_sq_def)
qed

abbreviation "sample_sq_step \<equiv>
  store_step (sqlite_ops plain_env sample_engine no_fail) (\<lambda>s s'. s' = s) sqlite_holds"

lemma sample_step1:
  "sample_sq_step (sample_sq False sample_rows) (EReceive 1 30
     [deliver_row plain_env sample_engine (sample_sq False sample_rows) (secs 5) ''n'' (sample_row ''m1'' 1000 ''g'')])
     (sample_sq False [sample_row ''m2'' 2000 ''g'', sample_m1])"
  by (rule SReceive [of _ "\<lambda>_. secs 5" "\<lambda>_. ''n''"]) (simp add: sqlite_timeout_def sample_received)

lemma sample_sq_inv1 [simp]: "sqlite_inv plain_env sample_engine (sample_sq False sample_rows)"
  by (rule sample_sq_inv) auto

lemma sqlite_exclusive_witness:
  "\<exists>ms s1 ms' s3. sample_sq_step (sample_sq False sample_rows) (EReceive 1 30 ms) s1 \<and>
     sample_sq_step s1 (EReceive 1 30 ms') s3 \<and> MessageID (hd ms') = MessageID (hd ms) \<and>
     unix_milli (ReceivedTimestamp (hd ms) + seconds 30) \<le> unix_milli (ReceivedTimestamp (hd ms'))"
proof -
  let ?s1 = "sample_sq False [sample_row ''m2'' 2000 ''g'', sample_m1]"
  let ?m = "deliver_row plain_env sample_engine (sample_sq False sample_rows) (secs 5) ''n'' (sample_row ''m1'' 1000 ''g'')"
  let ?m' = "deliver_row plain_env sample_engine ?s1 (secs 40) ''n2'' sample_m1"
  let ?s3 = "snd (snd (sqlite_poll plain_env sample_engine no_fail 1 30 (\<lambda>_. secs 40) (\<lambda>_. ''n2'') ?s1))"
  have step2: "sample_sq_step ?s1 (EReceive 1 30 [?m']) ?s3"
    by (rule SReceive [of _ "\<lambda>_. secs 40" "\<lambda>_. ''n2''"]) (simp add: sqlite_timeout_def sample_received_again)
  have id: "MessageID ?m' = MessageID ?m" by (simp add: deliver_row_def)
  have "unix_milli (ReceivedTimestamp ?m + seconds 30) \<le> unix_milli (ReceivedTimestamp ?m')"
    by (rule sqlite_exclusive [OF sample_sq_inv1 sample_step1 _ _ RunNil _ _ _ step2]) (simp_all add: id)
  then show ?thesis using sample_step1 step2 id
    by (intro exI [of _ "[?m]"] exI [of _ ?s1] exI [of _ "[?m']"] exI [of _ ?s3]) simp
qed

lemma sqlite_fifo_one_in_flight_witness:
  "\<exists>ms red s'. sqlite_poll plain_env sample_engine no_fail 1 30 (\<lambda>_. secs 5) (\<lambda>_. ''n'')
      (sample_sq True sample_rows) = (Inr ms, red, s') \<and>
    r_id (hide_row plain_env (sample_sq True sample_rows) (secs 5) (secs 5 + seconds 30) ''n''
      (sample_row ''m1'' 1000 ''g'')) = MessageID (hd ms)"
proof -
  let ?s = "sample_sq True sample_rows"
  let ?m = "deliver_row plain_env sample_engine ?s (secs 5) ''n'' (sample_row ''m1'' 1000 ''g'')"
  let ?r = "hide_row plain_env ?s (secs 5) (secs 5 + seconds 30) ''n'' (sample_row ''m1'' 1000 ''g'')"
  have inv: "sqlite_inv plain_env sample_engine ?s" by (rule sample_sq_inv) auto
  have poll: "sqlite_poll plain_env sample_engine no_fail 1 30 (\<lambda>_. secs 5) (\<lambda>_. ''n'') ?s =
     (Inr [?m], [], ?s\<lparr> sq_table := [sample_row ''m2'' 2000 ''g'', ?r] \<rparr>)"
    by (subst sqlite_poll_open)
      (simp_all add: sample_picks sample_live claim_row_def redriven_rows_def)
  have vis: "r_visible_at ?r = 35000" "r_message_group_id ?r = ''g''" "r_receipt_handle ?r \<noteq> ''''"
    using handle_nonempty [of plain_env] plain_env_ok
    by (simp_all add: hide_row_def row_handle_def seconds_def wrap64_def unix_milli_def secs_def env_ok_def)
  have "r_id ?r = MessageID ?m"
    by (rule sqlite_fifo_one_in_flight [OF inv _ poll])
      (simp_all add: vis deliver_row_def row_message_def)
  then show ?thesis using poll by auto
qed

lemma sqlite_delete_by_handle_witness:
  "fst (sqlite_DeleteMessage no_fail '''' (sample_sq False sample_rows)) = None \<and>
   sq_table (snd (sqlite_DeleteMessage no_fail '''' (sample_sq False sample_rows))) = []"
  using sqlite_delete_by_handle [of "sample_sq False sample_rows" "''''"] by (simp add: holders_def)

lemma sqlite_restart_sequence_witness:
  "\<exists>s. NewSQLiteStore sample_engine no_fail sample_rows ''q'' 30 ''secret'' (sample_cfg True 0) = Inr s \<and>
     (\<exists>i. r_sequence_number (sample_row ''m1'' 1000 ''g'') = itoa i \<and> i \<le> sq_sequenceCounter s)"
proof -
  have "char_of (49 :: nat) = CHR ''1''" using char_of_char [of "CHR ''1''"] by simp
  then have one: "itoa 1 = ''1''" by (simp add: itoa_def utoa.simps digit_char_def)
  then have "Atoi ''1'' = (1, NumOK)" using Atoi_itoa [of 1] by simp
  then have cast: "cast_integer sample_engine ''1'' = 1" by (simp add: sample_engine_def)
  obtain s where s: "NewSQLiteStore sample_engine no_fail sample_rows ''q'' 30 ''secret'' (sample_cfg True 0) = Inr s"
    by (simp add: cast Atoi_itoa NewSQLiteStore_def validTableName_def word_byte_def sample_cfg_def
        sqlite_loadSequenceCounter_def Let_def split: prod.splits num_err.splits)
  have "\<exists>i. r_sequence_number (sample_row ''m1'' 1000 ''g'') = itoa i \<and> i \<le> sq_sequenceCounter s"
  proof (rule sqlite_restart_sequence [OF s])
    show "cfg_IsFifo (sample_cfg True 0)" by (simp add: sample_cfg_def)
    show "cast_integer sample_engine (itoa i) = i" if "int64_range i" for i
      using Atoi_itoa [OF that] by (simp add: sample_engine_def)
    show "\<exists>i. int64_range i \<and> 0 < i \<and> r_sequence_number r = itoa i" if "r \<in> set sample_rows" for r
      using that one by (intro exI [of _ 1]) auto
  qed simp
  then show ?thesis using s by blast
qed
definition sample_sent :: message where
  "sample_sent = zero_message\<lparr> MessageID := ''m1'', Body := ''body'', SequenceNumber := ''1'',
     MessageGroupID := ''g'' \<rparr>"

lemma sample_send_step:
  "sample_sq_step (sample_sq False []) (ESend sample_sent 0) (sample_sq False [sample_row ''m1'' 1000 ''g''])"
proof (rule SSend)
  show "op_SendMessage (sqlite_ops plain_env sample_engine no_fail) (\<lambda>_. secs 1) sample_sent 0 (sample_sq False []) =
      (None, sample_sent\<lparr> SentTimestamp := secs 1, IsVisible := True \<rparr>,
       sample_sq False [sample_row ''m1'' 1000 ''g''])"
    by (simp add: sqlite_SendMessage_def sample_sq_def sample_engine_def sample_sent_def sample_row_def
        zero_message_def)
qed (simp add: sqlite_holds_def)

lemma sqlite_first_receipt_lost_witness:
  "\<exists>ms s2. store_run (sqlite_ops plain_env sample_engine no_fail) (\<lambda>s s'. s' = s) sqlite_holds
     (sample_sq False []) [ESend sample_sent 0, EReceive 1 30 ms] s2 \<and> length ms = 1 \<and>
     ApproximateFirstReceiveTimestamp (hd ms) = 0"
proof -
  let ?s1 = "sample_sq False [sample_row ''m1'' 1000 ''g'']"
  let ?m = "deliver_row plain_env sample_engine ?s1 (secs 5) ''n'' (sample_row ''m1'' 1000 ''g'')"
  have live: "live_rows (\<lambda>_. secs 5) ?s1 = [sample_row ''m1'' 1000 ''g'']"
    by (simp add: live_rows_def secs_def retention_cutoff_def seconds_def wrap64_def unix_milli_def)
  have picks: "sqlite_picks sample_engine 1 (\<lambda>_. secs 5) ?s1 = [sample_row ''m1'' 1000 ''g'']"
    by (simp add: sqlite_picks_def live select_visible_def limit_rows_def sample_engine_def)
  let ?p = "sqlite_poll plain_env sample_engine no_fail 1 30 (\<lambda>_. secs 5) (\<lambda>_. ''n'') ?s1"
  have poll: "fst ?p = Inr [?m]" by (subst sqlite_poll_open) (simp_all add: picks)
  have step: "sample_sq_step ?s1 (EReceive 1 30 [?m]) (snd (snd ?p))"
    by (rule SReceive [of _ "\<lambda>_. secs 5" "\<lambda>_. ''n''" 1 30 _ _ "fst (snd ?p)"])
      (use poll in \<open>simp add: sqlite_timeout_def prod_eq_iff\<close>)
  have run: "store_run (sqlite_ops plain_env sample_engine no_fail) (\<lambda>s s'. s' = s) sqlite_holds
     (sample_sq False []) [ESend sample_sent 0, EReceive 1 30 [?m]] (snd (snd ?p))"
    by (intro RunStep [OF sample_send_step] RunStep [OF step] RunNil)
  have inv: "sqlite_inv plain_env sample_engine (sample_sq False [])" by (rule sample_sq_inv) auto
  have "ApproximateFirstReceiveTimestamp ?m = 0"
    by (rule sqlite_first_receipt_lost [OF inv _ run]) simp_all
  then show ?thesis using run by (intro exI [of _ "[?m]"] exI [of _ "snd (snd ?p)"]) simp
qed

subsection \<open>A codec that inverts itself\<close>

text \<open>
  A text of a stored message, as a row of words: an escape before every byte of a word and a
  full stop after it.
\<close>

fun words :: "string \<Rightarrow> string \<Rightarrow> string list" where
  "words acc [] = []"
| "words acc [c] = [acc]"
| "words acc (c # d # s) = (if c = CHR ''.'' then acc # words [] (d # s) else words (acc @ [d]) s)"

lemma words_escaped: "words acc (escaped s @ x) = (acc @ s) # words [] x"
proof (induction s arbitrary: acc)
  case Nil
  then show ?case by (cases x) auto
qed simp

lemma words_concat: "words [] (concat (map escaped ws)) = ws"
  by (induction ws) (simp_all add: words_escaped)

definition int_of_word :: "string \<Rightarrow> int" where
  "int_of_word s =
     (let val = (\<lambda>t. int (foldl (\<lambda>n c. 10 * n + the (digit_val c)) 0 t))
      in if s \<noteq> [] \<and> hd s = CHR ''-'' then - val (tl s) else val s)"

lemma int_of_word_itoa [simp]: "int_of_word (itoa i) = i"
  by (simp add: int_of_word_def itoa_def utoa_value Let_def)

definition attr_words :: "message_attribute gomap \<Rightarrow> string list" where
  "attr_words attrs = concat (map (\<lambda>(k, a). [k, DataType a, StringValue a, BinaryValue a]) attrs)"

fun words_attr :: "string list \<Rightarrow> message_attribute gomap" where
  "words_attr (k # t # sv # bv # ws) =
     (k, \<lparr> DataType = t, StringValue = sv, BinaryValue = bv \<rparr>) # words_attr ws"
| "words_attr ws = []"

lemma words_attr_words [simp]: "words_attr (attr_words attrs) = attrs"
  by (induction attrs) (auto simp: attr_words_def)

definition stored_words :: "storedMessage \<Rightarrow> string list" where
  "stored_words sm =
     [sm_ID sm, sm_Body sm, sm_MD5OfBody sm, sm_MD5OfMsgAttrs sm, itoa (sm_SentTimestamp sm),
      itoa (sm_VisibleAt sm), sm_ReceiptHandle sm, itoa (sm_ReceiveCount sm),
      itoa (sm_FirstReceivedAt sm), sm_SequenceNumber sm, sm_DedupID sm, sm_GroupID sm,
      itoa (int (length (attr_words (sm_MessageAttrs sm))))] @
     attr_words (sm_MessageAttrs sm) @ attr_words (sm_SystemAttrs sm)"

fun words_stored :: "string list \<Rightarrow> storedMessage option" where
  "words_stored (i # b # m # ma # st # va # h # rc # fr # sn # d # g # n # ws) =
     Some \<lparr> sm_ID = i, sm_Body = b, sm_MD5OfBody = m, sm_MD5OfMsgAttrs = ma,
       sm_MessageAttrs = words_attr (take (nat (int_of_word n)) ws),
       sm_SystemAttrs = words_attr (drop (nat (int_of_word n)) ws),
       sm_SentTimestamp = int_of_word st, sm_VisibleAt = int_of_word va, sm_ReceiptHandle = h,
       sm_ReceiveCount = int_of_word rc, sm_FirstReceivedAt = int_of_word fr,
       sm_SequenceNumber = sn, sm_DedupID = d, sm_GroupID = g \<rparr>"
| "words_stored ws = None"

definition sample_codec :: codec where
  "sample_codec = \<lparr> marshal_stored = (\<lambda>sm. Inr (concat (map escaped (stored_words sm)))),
     unmarshal_stored = (\<lambda>data. words_stored (words [] data)),
     sort_by_sent = sort_key (sm_SentTimestamp \<circ> cb_sm) \<rparr>"

lemma sample_codec_inverse [simp]:
  "unmarshal_stored sample_codec (concat (map escaped (stored_words sm))) = Some sm"
  by (simp add: sample_codec_def words_concat) (simp add: stored_words_def)

lemma sample_codec_simps [simp]:
  "marshal_stored sample_codec sm = Inr (concat (map escaped (stored_words sm)))"
  "enc sample_codec sm = concat (map escaped (stored_words sm))"
  "sort_by_sent sample_codec = sort_key (sm_SentTimestamp \<circ> cb_sm)"
  by (simp_all add: sample_codec_def enc_def)

lemma sample_codec_ok [simp]: "codec_ok sample_codec"
  by (simp add: codec_ok_def)

subsection \<open>A BadgerDB queue with one message\<close>

definition sample_sm :: "string \<Rightarrow> storedMessage" where
  "sample_sm h = \<lparr> sm_ID = ''m1'', sm_Body = ''body'', sm_MD5OfBody = '''', sm_MD5OfMsgAttrs = '''',
     sm_MessageAttrs = [], sm_SystemAttrs = [], sm_SentTimestamp = 1000, sm_VisibleAt = 1000,
     sm_ReceiptHandle = h, sm_ReceiveCount = 0, sm_FirstReceivedAt = 0, sm_SequenceNumber = ''1'',
     sm_DedupID = '''', sm_GroupID = ''g'' \<rparr>"

definition sample_bd :: "bool \<Rightarrow> kv \<Rightarrow> badger_store" where
  "sample_bd fifo db = \<lparr> bd_db = db, bd_queueName = ''q'', bd_keyPrefix = ''q:q:'',
     bd_visibilityTimeout = 30, bd_serverSecret = ''secret'', bd_closed = False, bd_isFifo = fifo,
     bd_contentBasedDeduplication = False, bd_dedupCache = (\<lambda>_. None), bd_sequenceCounter = 1,
     bd_maxReceiveCount = 0, bd_redriveFunc = None, bd_messageRetentionPeriod = 60 \<rparr>"

definition sample_db :: "storedMessage \<Rightarrow> kv" where
  "sample_db sm = [(''q:q:m1'', enc sample_codec sm)]"

lemma sample_bd_simps [simp]:
  "bd_db (sample_bd f db) = db" "bd_keyPrefix (sample_bd f db) = ''q:q:''"
  "bd_queueName (sample_bd f db) = ''q''" "bd_serverSecret (sample_bd f db) = ''secret''"
  "\<not> bd_closed (sample_bd f db)" "bd_isFifo (sample_bd f db) = f"
  "bd_maxReceiveCount (sample_bd f db) = 0" "bd_messageRetentionPeriod (sample_bd f db) = 60"
  by (simp_all add: sample_bd_def)

lemma sample_sm_simps [simp]:
  "sm_ID (sample_sm h) = ''m1''" "sm_ReceiptHandle (sample_sm h) = h" "sm_GroupID (sample_sm h) = ''g''"
  "sm_VisibleAt (sample_sm h) = 1000" "sm_SentTimestamp (sample_sm h) = 1000"
  by (simp_all add: sample_sm_def)

lemma sample_stored:
  "stored sample_codec (sample_bd f (sample_db sm)) i = (if i = ''m1'' then Some sm else None)"
  by (auto simp: stored_def sample_db_def msgKey_def)

lemma sample_items [simp]: "items ''q:q:'' (sample_db sm) = sample_db sm"
  by (simp add: items_def sample_db_def HasPrefix_def)

lemma sample_badger_inv:
  assumes "sm_ID sm = ''m1''" "sm_ReceiptHandle sm = '''' \<or> issued plain_env ''q'' ''secret'' ''m1'' (sm_ReceiptHandle sm)"
  shows "badger_inv plain_env sample_codec (sample_bd f (sample_db sm))"
proof -
  have "sorted_db (sample_db sm)" by (simp add: sorted_db_def sample_db_def)
  then show ?thesis using assms by (auto simp: badger_inv_def sample_stored split: if_splits)
qed

lemma sample_poll:
  assumes "sm_VisibleAt sm \<le> 5000" "0 \<le> sm_SentTimestamp sm" "HasPrefix k ''q:q:''"
  shows "badger_poll plain_env sample_codec no_txn_fail 1 30 (\<lambda>_. secs 5) rnd
      (sample_bd False [(k, enc sample_codec sm)]) =
    (Inr [deliver_stored plain_env (sample_bd False []) (secs 5) (rnd 0) sm], [],
     sample_bd False [(k, enc sample_codec
       (hide_stored plain_env (sample_bd False []) (secs 5) (secs 5 + seconds 30) (rnd 0) sm))])"
proof -
  have cut: "unix_milli (retention_cutoff 60 (secs 5)) = - 55000"
    by (simp add: retention_cutoff_def seconds_def wrap64_def unix_milli_def secs_def)
  show ?thesis using assms
    by (simp add: badger_poll_def badger_redriveIfNeeded_def badger_deleteExpiredMessages_def cut items_def
        deliver_stored_def hide_stored_def stored_handle_def stored_first_def)
      (simp add: sample_bd_def Let_def)
qed

abbreviation "sample_bd_step \<equiv>
  store_step (badger_ops plain_env sample_codec no_txn_fail) (\<lambda>s s'. s' = s) (badger_holds sample_codec)"

abbreviation "sample_bd_run \<equiv>
  store_run (badger_ops plain_env sample_codec no_txn_fail) (\<lambda>s s'. s' = s) (badger_holds sample_codec)"

lemma sample_bd_receive:
  assumes "sm_VisibleAt sm \<le> 5000" "0 \<le> sm_SentTimestamp sm" "HasPrefix k ''q:q:''"
  shows "sample_bd_step (sample_bd False [(k, enc sample_codec sm)])
    (EReceive 1 30 [deliver_stored plain_env (sample_bd False []) (secs 5) ''n'' sm])
    (sample_bd False [(k, enc sample_codec
       (hide_stored plain_env (sample_bd False []) (secs 5) (secs 5 + seconds 30) ''n'' sm))])"
  using sample_poll [OF assms, of "\<lambda>_. ''n''"]
  by (intro SReceive [of _ "\<lambda>_. secs 5" "\<lambda>_. ''n''"]) (simp add: badger_timeout_def)

text \<open>A message is received and deleted; another one is sent and received.\<close>

definition sample_sent2 :: message where
  "sample_sent2 = zero_message\<lparr> MessageID := ''m2'', Body := ''other'' \<rparr>"

definition sample_sm2 :: storedMessage where
  "sample_sm2 = \<lparr> sm_ID = ''m2'', sm_Body = ''other'', sm_MD5OfBody = '''', sm_MD5OfMsgAttrs = '''',
     sm_MessageAttrs = [], sm_SystemAttrs = [], sm_SentTimestamp = 2000, sm_VisibleAt = 2000,
     sm_ReceiptHandle = '''', sm_ReceiveCount = 0, sm_FirstReceivedAt = 0, sm_SequenceNumber = '''',
     sm_DedupID = '''', sm_GroupID = '''' \<rparr>"

lemma sample_bd_send:
  "sample_bd_step (sample_bd False []) (ESend sample_sent2 0) (sample_bd False [(''q:q:m2'', enc sample_codec sample_sm2)])"
proof (rule SSend)
  show "op_SendMessage (badger_ops plain_env sample_codec no_txn_fail) (\<lambda>_. secs 2) sample_sent2 0 (sample_bd False []) =
      (None, sample_sent2\<lparr> SentTimestamp := secs 2, IsVisible := True \<rparr>,
       sample_bd False [(''q:q:m2'', enc sample_codec sample_sm2)])"
    by (simp add: badger_SendMessage_def sample_sm2_def sample_sent2_def zero_message_def msgKey_def)
      (simp add: sample_bd_def)
qed (simp add: badger_holds_def stored_def sample_bd_def)



lemma badger_poll_returns:
  "\<not> bd_closed s \<Longrightarrow> \<exists>ms red s'. badger_poll E C no_txn_fail n vt now rnd s = (Inr ms, red, s')"
  by (simp add: badger_poll_def case_prod_unfold Let_def)

lemma badger_fifo_never_redelivered_witness:
  "\<exists>h ms red s'. badger_poll plain_env sample_codec no_txn_fail 1 30 (\<lambda>_. secs 5) (\<lambda>_. ''n'')
      (sample_bd True (sample_db (sample_sm h))) = (Inr ms, red, s') \<and> ''m1'' \<notin> MessageID ` set ms \<and> h \<noteq> ''''"
proof -
  let ?h = "generateReceiptHandle plain_env ''q'' ''secret'' ''m1'' 0 ''n''"
  let ?s = "sample_bd True (sample_db (sample_sm ?h))"
  have h: "?h \<noteq> ''''" using handle_nonempty [of plain_env] plain_env_ok by (simp add: env_ok_def)
  obtain ms red s' where poll:
    "badger_poll plain_env sample_codec no_txn_fail 1 30 (\<lambda>_. secs 5) (\<lambda>_. ''n'') ?s = (Inr ms, red, s')"
    using badger_poll_returns sample_bd_simps(5) by blast
  have inv: "badger_inv plain_env sample_codec ?s" by (rule sample_badger_inv) simp_all
  have "''m1'' \<notin> MessageID ` set ms"
    using badger_fifo_never_redelivered [OF inv _ _ _ _ poll, of "''m1''" "sample_sm ?h"] h
    by (simp add: sample_stored)
  then show ?thesis using poll h by blast
qed

subsection \<open>No message out of nothing\<close>

text \<open>
  C25.  A client of a new in-memory queue receives only messages somebody sent to it: whatever
  sends, receives, deletes, visibility changes, purges and timers there were, the identifier
  of a received message is one of those sent.
\<close>

theorem memory_received_were_sent:
  assumes "env_ok E"
    "store_run (memory_ops E) memory_tick memory_holds (NewMemoryStore q vt secret cfg) es s"
    "m \<in> (\<Union>e \<in> set es. received e)"
  shows "MessageID m \<in> (\<Union>e \<in> set es. sent_ids e)"
proof -
  have "\<not> memory_holds (NewMemoryStore q vt secret cfg) i h" for i h
    by (simp add: memory_holds_def NewMemoryStore_def)
  then show ?thesis using memory.run_received [OF assms(2) memory_inv_New [OF assms(1)] assms(3)] by blast
qed

lemma memory_received_were_sent_witness:
  "\<exists>ms s. store_run (memory_ops plain_env) memory_tick memory_holds
     (NewMemoryStore ''q'' 30 ''secret'' (sample_cfg False 0)) [ESend sample_sent 0, EReceive 1 30 ms] s \<and>
     map MessageID ms = [''m1'']"
proof -
  let ?new = "NewMemoryStore ''q'' 30 ''secret'' (sample_cfg False 0)"
  let ?s1 = "snd (snd (SendMessage plain_env (\<lambda>_. secs 1) sample_sent 0 ?new))"
  let ?p = "receive_poll plain_env 1 30 (secs 5) (\<lambda>_. ''n'') ?s1"
  have open1: "distinct (ms_messages ?s1)" "\<not> ms_closed ?s1" and picks: "length (picks 1 (secs 5) ?s1) = 1"
    by code_simp+
  then obtain ms s2 where poll: "?p = (Inr ms, s2)" "length ms = 1"
    using poll_open(1) [OF open1, of plain_env 1 30 "secs 5" "\<lambda>_. ''n''"] by (cases ?p) auto
  then have p: "op_ReceiveMessages (memory_ops plain_env) (\<lambda>_. secs 5) (\<lambda>_. ''n'') 1 30 ?s1 = (Inr ms, [], s2)"
    by (simp add: memory_ops_receive effective_timeout_def)
  have step1: "store_step (memory_ops plain_env) memory_tick memory_holds ?new (ESend sample_sent 0) ?s1"
    by (rule SSend [of _ "\<lambda>_. secs 1" _ _ _ "fst (SendMessage plain_env (\<lambda>_. secs 1) sample_sent 0 ?new)"
          "fst (snd (SendMessage plain_env (\<lambda>_. secs 1) sample_sent 0 ?new))"])
      (simp_all add: memory_holds_def NewMemoryStore_def)
  have step2: "store_step (memory_ops plain_env) memory_tick memory_holds ?s1 (EReceive 1 30 ms) s2"
    by (rule SReceive [OF p])
  have run: "store_run (memory_ops plain_env) memory_tick memory_holds ?new
      [ESend sample_sent 0, EReceive 1 30 ms] s2"
    by (intro RunStep [OF step1] RunStep [OF step2] RunNil)
  obtain m where m: "ms = [m]" using poll(2) by (cases ms) auto
  have "MessageID m \<in> (\<Union>e \<in> set [ESend sample_sent 0, EReceive 1 30 ms]. sent_ids e)"
    by (rule memory_received_were_sent [OF plain_env_ok run]) (simp add: m)
  then have "MessageID m = ''m1''" by (simp add: sample_sent_def)
  then show ?thesis using run m by (intro exI [of _ ms] exI [of _ s2]) simp
qed

end
