(* ===== verification/MoveLoss.thy ===== *)
theory MoveLoss
  imports MoveTask StoreExamples
begin

section \<open>A move task over SQLite queues loses messages\<close>

text \<open>
  \<open>runTask\<close> of \<open>MoveTask\<close> run on the stores of \<open>SqliteStore\<close>.  The receipt handle the
  goroutine deletes with is the empty text, and in a SQLite table the rows that hold the empty
  handle are the messages nobody has received yet.
\<close>

abbreviation row_ids :: "sqlite_store \<Rightarrow> string set" where
  "row_ids s \<equiv> r_id ` set (sq_table s)"

lemma sqlite_send_effect:
  assumes "sqlite_SendMessage E D no_fail now m d s = (err, m', s')"
  shows "ReceiptHandle m' = ReceiptHandle m" "row_ids s' \<subseteq> insert (MessageID m) (row_ids s)"
proof -
  obtain dup cache counter m1 where adm: "(if sq_isFifo s
      then fifo_admit E (sq_contentBasedDeduplication s) now (sq_dedupCache s) (sq_sequenceCounter s) m
      else (False, sq_dedupCache s, sq_sequenceCounter s, m)) = (dup, cache, counter, m1)"
    by (metis prod_cases4)
  then have "MessageID m1 = MessageID m" "ReceiptHandle m1 = ReceiptHandle m"
    by (auto simp: fifo_admit_def Let_def split: if_splits)
  then show "ReceiptHandle m' = ReceiptHandle m" "row_ids s' \<subseteq> insert (MessageID m) (row_ids s)"
    using assms unfolding sqlite_SendMessage_def adm
    by (auto simp: Let_def split: if_splits sum.splits)
qed

lemma sqlite_delete_empty:
  assumes "\<not> sq_closed s" "sqlite_DeleteMessage no_fail '''' s = (err, s')"
  shows "sq_table s' = filter (\<lambda>r. r_receipt_handle r \<noteq> '''') (sq_table s)" "\<not> sq_closed s'"
  using assms by (auto simp: sqlite_DeleteMessage_def)

text \<open>What \<open>move_messages\<close> can only shrink, and what it can add.\<close>

lemma move_messages_rows:
  assumes "move_messages (sqlite_ops E D no_fail) cancelled now k msgs (task, src, dst) = (b, task', src', dst')"
    "\<not> sq_closed src"
  shows "set (sq_table src') \<subseteq> set (sq_table src) \<and> row_ids dst' \<subseteq> MessageID ` set msgs \<union> row_ids dst"
  using assms
proof (induction msgs arbitrary: k task src dst)
  case (Cons m msgs)
  obtain err m2 dst1 where
    send: "sqlite_SendMessage E D no_fail (now k) (PrepareForRedrive m) 0 dst = (err, m2, dst1)"
    by (metis prod_cases3)
  note eff = sqlite_send_effect [OF send]
  have h: "ReceiptHandle m2 = ''''" using eff(1) by (simp add: PrepareForRedrive_def)
  have "row_ids dst1 \<subseteq> insert (MessageID m) (row_ids dst)"
    using eff(2) by (simp add: PrepareForRedrive_def)
  then have ids: "MessageID ` set msgs \<union> row_ids dst1 \<subseteq> MessageID ` set (m # msgs) \<union> row_ids dst"
    unfolding list.set image_insert by blast
  obtain derr src1 where del: "sqlite_DeleteMessage no_fail '''' src = (derr, src1)" by fastforce
  note gone = sqlite_delete_empty [OF Cons.prems(2) del]
  show ?case
  proof (cases "cancelled k")
    case True
    then show ?thesis using Cons.prems(1) by auto
  next
    case False
    show ?thesis
    proof (cases err)
      case None
      have "set (sq_table src') \<subseteq> set (sq_table src1) \<and> row_ids dst' \<subseteq> MessageID ` set msgs \<union> row_ids dst1"
        using Cons.prems(1) False None
        by (intro Cons.IH [of "Suc k" "task\<lparr> mt_movedMessages := mt_movedMessages task + 1 \<rparr>" src1 dst1])
          (simp_all add: send h del gone(2))
      moreover have "set (sq_table src1) \<subseteq> set (sq_table src)" by (simp add: gone(1))
      ultimately show ?thesis using ids by (meson subset_trans)
    next
      case (Some e)
      have "set (sq_table src') \<subseteq> set (sq_table src) \<and> row_ids dst' \<subseteq> MessageID ` set msgs \<union> row_ids dst1"
        using Cons.prems False Some
        by (intro Cons.IH [of "Suc k" task src dst1]) (simp_all add: send)
      then show ?thesis using ids by (meson subset_trans)
    qed
  qed
qed auto

text \<open>
  C40.  Over SQLite stores one turn of a move task destroys messages: once the first message of the
  batch has reached the destination, every message of the source that nobody has received,
  and that is not in the batch, is in neither queue.
\<close>

theorem sqlite_move_loses:
  assumes "op_ReceiveMessages (sqlite_ops E D no_fail) (rd_now r) (rd_nonces r) 10 30 src =
      (Inr (m # ms), redriven, src1)"
    "rd_others r src dst = (src, dst)" "\<not> rd_stop r" "\<not> rd_cancelled r 0"
    "fst (sqlite_SendMessage E D no_fail (rd_send_now r 0) (PrepareForRedrive m) 0 dst) = None"
    "sqlite_inv E D src" "x \<in> set (sq_table src1)" "r_receipt_handle x = ''''"
    "r_id x \<notin> MessageID ` set (m # ms)" "r_id x \<notin> row_ids dst"
    "runTask (sqlite_ops E D no_fail) [r] (task, src, dst) = (b, task', src', dst')"
  shows "r_id x \<notin> row_ids src' \<and> r_id x \<notin> row_ids dst'"
proof -
  have poll: "sqlite_poll E D no_fail 10 (sqlite_timeout 30 src) (rd_now r) (rd_nonces r) src =
      (Inr (m # ms), redriven, src1)"
    using assms(1) by simp
  then have "\<not> sq_closed src" by (auto simp: sqlite_poll_def)
  then have opened: "\<not> sq_closed src1"
    using sqlite_poll_open [of D src E 10 "sqlite_timeout 30 src" "rd_now r" "rd_nonces r"] poll assms(6)
    by (auto simp: sqlite_inv_def)
  have unique: "distinct (map r_id (sq_table src1))"
    using sqlite_receive_law [OF assms(6) poll] by (simp add: sqlite_inv_def)
  obtain stopped t1 s1 d1 where moved:
    "move_messages (sqlite_ops E D no_fail) (rd_cancelled r) (rd_send_now r) 0 (m # ms) (task, src1, dst) =
      (stopped, t1, s1, d1)"
    by (metis prod_cases4)
  then have end_state: "src' = s1" "dst' = d1"
    using assms(1-3,11) by (simp_all split: if_splits)
  obtain m2 dst1 where
    send: "sqlite_SendMessage E D no_fail (rd_send_now r 0) (PrepareForRedrive m) 0 dst = (None, m2, dst1)"
    using assms(5) by (metis fst_conv prod_cases3)
  note eff = sqlite_send_effect [OF send]
  obtain derr src2 where del: "sqlite_DeleteMessage no_fail '''' src1 = (derr, src2)" by fastforce
  note gone = sqlite_delete_empty [OF opened del]
  have h: "ReceiptHandle m2 = ''''" using eff(1) by (simp add: PrepareForRedrive_def)
  have "set (sq_table s1) \<subseteq> set (sq_table src2) \<and> row_ids d1 \<subseteq> MessageID ` set ms \<union> row_ids dst1"
    using moved assms(4)
    by (intro move_messages_rows [of E D "rd_cancelled r" "rd_send_now r" 1 ms _ src2 dst1 stopped t1])
      (simp_all add: send h del gone(2))
  moreover have "r_id x \<notin> row_ids src2"
    using gone(1) unique assms(7,8) by (auto simp: distinct_map inj_on_def)
  moreover have "r_id x \<notin> row_ids dst1" using eff(2) assms(9,10) by (auto simp: PrepareForRedrive_def)
  ultimately show ?thesis using assms(9) unfolding end_state by auto
qed

text \<open>Two messages of one group: the first is moved, the second is lost.\<close>

definition sample_round :: "sqlite_store round" where
  "sample_round = \<lparr> rd_stop = False, rd_now = (\<lambda>_. secs 5), rd_nonces = (\<lambda>_. ''n''),
     rd_cancelled = (\<lambda>_. False), rd_send_now = (\<lambda>_ _. secs 6), rd_end = secs 7,
     rd_others = (\<lambda>s d. (s, d)) \<rparr>"

lemma sqlite_move_loses_witness:
  "\<exists>b task' src' dst'. runTask (sqlite_ops plain_env sample_engine no_fail) [sample_round]
      (sample_task, sample_sq True sample_rows, sample_sq False []) = (b, task', src', dst') \<and>
    ''m2'' \<notin> row_ids src' \<and> ''m2'' \<notin> row_ids dst'"
proof -
  let ?s = "sample_sq True sample_rows"
  let ?m = "deliver_row plain_env sample_engine ?s (secs 5) ''n'' (sample_row ''m1'' 1000 ''g'')"
  let ?r = "hide_row plain_env ?s (secs 5) (secs 5 + seconds 30) ''n'' (sample_row ''m1'' 1000 ''g'')"
  let ?s1 = "?s\<lparr> sq_table := [sample_row ''m2'' 2000 ''g'', ?r] \<rparr>"
  have picks: "sqlite_picks sample_engine 10 (\<lambda>_. secs 5) ?s = [sample_row ''m1'' 1000 ''g'']"
    by (simp add: sqlite_picks_def sample_live select_visible_def limit_rows_def in_flight_groups_def
        sample_engine_def)
  have poll: "op_ReceiveMessages (sqlite_ops plain_env sample_engine no_fail) (rd_now sample_round)
      (rd_nonces sample_round) 10 30 ?s = (Inr (?m # []), [], ?s1)"
    unfolding sqlite_ops_simps sample_round_def round.select_convs
    by (subst sqlite_poll_open)
      (simp_all add: picks sample_live claim_row_def redriven_rows_def sqlite_timeout_def)
  have inv: "sqlite_inv plain_env sample_engine ?s" by (rule sample_sq_inv) auto
  have id: "MessageID ?m = ''m1''" by (simp add: deliver_row_def)
  obtain b task' src' dst' where run: "runTask (sqlite_ops plain_env sample_engine no_fail) [sample_round]
      (sample_task, ?s, sample_sq False []) = (b, task', src', dst')"
    by (metis prod_cases4)
  have send: "fst (sqlite_SendMessage plain_env sample_engine no_fail (rd_send_now sample_round 0)
      (PrepareForRedrive ?m) 0 (sample_sq False [])) = None"
    by (simp add: sqlite_SendMessage_def Let_def) (simp add: sample_engine_def)
  have "r_id (sample_row ''m2'' 2000 ''g'') \<notin> row_ids src' \<and> r_id (sample_row ''m2'' 2000 ''g'') \<notin> row_ids dst'"
    by (rule sqlite_move_loses [OF poll _ _ _ send inv _ _ _ _ run])
      (simp_all add: id sample_round_def)
  then show ?thesis using run by auto
qed

end
