(* ===== verification/Credentials.thy ===== *)
theory Credentials
  imports SQSTypes GoText "HOL-Library.AList"
begin

section \<open>Credentials and what a credential store promises\<close>

text \<open>
  \<^verbatim>\<open>pkgs/v1/queue/store/credentials/credentials.go\<close>: the credential, the interface
  \<open>CredentialStore\<close> and the generated identifiers; and the contract of the interface, the
  locale \<open>credential_store\<close>, with the abstract store its implementations refine: a list of
  credentials in the order they were added.  A call that draws random bytes takes them as an
  argument; \<open>rand.Read\<close> fills its buffer or the process ends, so there is no error branch.
\<close>

record credential =
  cr_ID :: string
  cr_Label :: string
  cr_AccessKeyID :: string
  cr_SecretAccessKey :: string
  cr_Region :: string
  cr_AccountID :: string
  cr_CreatedAt :: time

definition key_charset :: string where
  "key_charset = ''ABCDEFGHIJKLMNOPQRSTUVWXYZ0123456789''"

definition GenerateAccessKeyID :: "string \<Rightarrow> string" where
  "GenerateAccessKeyID random = ''AKIA'' @ map (\<lambda>b. key_charset ! (of_char b mod 36)) random"

definition GenerateSecretAccessKey :: "string \<Rightarrow> string" where
  "GenerateSecretAccessKey random = EncodeToString_hex random"

definition GenerateID :: "string \<Rightarrow> string" where
  "GenerateID random = EncodeToString_hex random"

text \<open>The random bytes of one call: 8 for the ID, 16 for the key ID, 20 for the secret.\<close>

record entropy =
  en_id :: string
  en_key :: string
  en_secret :: string

definition created_credential :: "entropy \<Rightarrow> time \<Rightarrow> string \<Rightarrow> string \<Rightarrow> string \<Rightarrow> credential" where
  "created_credential e now label region accountID =
     \<lparr> cr_ID = GenerateID (en_id e), cr_Label = label,
       cr_AccessKeyID = GenerateAccessKeyID (en_key e),
       cr_SecretAccessKey = GenerateSecretAccessKey (en_secret e),
       cr_Region = region, cr_AccountID = accountID, cr_CreatedAt = now \<rparr>"

definition imported_credential ::
  "entropy \<Rightarrow> time \<Rightarrow> string \<Rightarrow> string \<Rightarrow> string \<Rightarrow> string \<Rightarrow> string \<Rightarrow> credential" where
  "imported_credential e now label accessKeyID secretAccessKey region accountID =
     \<lparr> cr_ID = GenerateID (en_id e), cr_Label = label, cr_AccessKeyID = accessKeyID,
       cr_SecretAccessKey = secretAccessKey, cr_Region = region, cr_AccountID = accountID,
       cr_CreatedAt = now \<rparr>"

definition hide_secret :: "credential \<Rightarrow> credential" where
  "hide_secret c = c\<lparr> cr_SecretAccessKey := '''' \<rparr>"

definition key_exists :: "string \<Rightarrow> go_error" where
  "key_exists k = Errorf (''credential with access key ID '' @ quote k @ '' already exists'')"

definition no_such_id :: "string \<Rightarrow> go_error" where
  "no_such_id i = Errorf (''credential not found: '' @ i)"

definition no_such_key :: "string \<Rightarrow> go_error" where
  "no_such_key k = Errorf (''credential not found for access key ID: '' @ k)"

subsection \<open>The interface\<close>

record 's credential_ops =
  co_Create :: "entropy \<Rightarrow> time \<Rightarrow> string \<Rightarrow> string \<Rightarrow> string \<Rightarrow> 's \<Rightarrow> (go_error + credential) \<times> 's"
  co_Import ::
    "entropy \<Rightarrow> time \<Rightarrow> string \<Rightarrow> string \<Rightarrow> string \<Rightarrow> string \<Rightarrow> string \<Rightarrow> 's \<Rightarrow> (go_error + credential) \<times> 's"
  co_List :: "'s \<Rightarrow> go_error + credential list"
  co_Get :: "string \<Rightarrow> 's \<Rightarrow> go_error + credential"
  co_GetByAccessKeyID :: "string \<Rightarrow> 's \<Rightarrow> go_error + credential"
  co_Delete :: "string \<Rightarrow> 's \<Rightarrow> go_error option \<times> 's"
  co_Close :: "'s \<Rightarrow> go_error option"

text \<open>
  Calls and their replies.  A reply keeps whether the call failed, not the text of the error,
  which the implementations word differently; a list of credentials is a set, as the
  in-memory store lists in no order.
\<close>

datatype cred_call =
    CrCreate entropy time string string string
  | CrImport entropy time string string string string string
  | CrList
  | CrGet string
  | CrByKey string
  | CrDelete string

datatype cred_reply =
    RCred "credential option"
  | RDone bool
  | RList "credential set option"

definition ok_reply :: "go_error + credential \<Rightarrow> cred_reply" where
  "ok_reply r = RCred (case r of Inl e \<Rightarrow> None | Inr c \<Rightarrow> Some c)"

fun cred_apply :: "'s credential_ops \<Rightarrow> cred_call \<Rightarrow> 's \<Rightarrow> cred_reply \<times> 's" where
  "cred_apply ops (CrCreate e now l r a) s = (let (x, s') = co_Create ops e now l r a s in (ok_reply x, s'))"
| "cred_apply ops (CrImport e now l k sec r a) s =
     (let (x, s') = co_Import ops e now l k sec r a s in (ok_reply x, s'))"
| "cred_apply ops CrList s =
     (RList (case co_List ops s of Inl e \<Rightarrow> None | Inr cs \<Rightarrow> Some (set cs)), s)"
| "cred_apply ops (CrGet i) s = (ok_reply (co_Get ops i s), s)"
| "cred_apply ops (CrByKey k) s = (ok_reply (co_GetByAccessKeyID ops k s), s)"
| "cred_apply ops (CrDelete i) s = (let (x, s') = co_Delete ops i s in (RDone (x = None), s'))"

fun cred_run :: "'s credential_ops \<Rightarrow> cred_call list \<Rightarrow> 's \<Rightarrow> cred_reply list \<times> 's" where
  "cred_run ops [] s = ([], s)"
| "cred_run ops (c # cs) s =
     (let (r, s1) = cred_apply ops c s; (rs, s2) = cred_run ops cs s1 in (r # rs, s2))"

subsection \<open>The abstract store\<close>

fun spec_apply :: "cred_call \<Rightarrow> credential list \<Rightarrow> cred_reply \<times> credential list" where
  "spec_apply (CrCreate e now l r a) S =
     (let c = created_credential e now l r a in (RCred (Some c), S @ [c]))"
| "spec_apply (CrImport e now l k sec r a) S =
     (if k \<in> cr_AccessKeyID ` set S then (RCred None, S)
      else let c = imported_credential e now l k sec r a in (RCred (Some c), S @ [c]))"
| "spec_apply CrList S = (RList (Some (hide_secret ` set S)), S)"
| "spec_apply (CrGet i) S = (RCred (find (\<lambda>c. cr_ID c = i) S), S)"
| "spec_apply (CrByKey k) S = (RCred (find (\<lambda>c. cr_AccessKeyID c = k) S), S)"
| "spec_apply (CrDelete i) S = (RDone (i \<in> cr_ID ` set S), filter (\<lambda>c. cr_ID c \<noteq> i) S)"

fun spec_run :: "cred_call list \<Rightarrow> credential list \<Rightarrow> cred_reply list \<times> credential list" where
  "spec_run [] S = ([], S)"
| "spec_run (c # cs) S =
     (let (r, S1) = spec_apply c S; (rs, S2) = spec_run cs S1 in (r # rs, S2))"

text \<open>
  The calls the promise is about: the drawn identifier is not in use, a generated key ID
  neither, and what is stored survives a text encoding: the texts are UTF-8 and the clock shows
  a whole second between the years 1 and 9999.
\<close>

definition stamp_ok :: "time \<Rightarrow> bool" where
  "stamp_ok t \<longleftrightarrow> t mod 1000000000 = 0 \<and> zero_time \<le> t \<and> t < 253402300800000000000"

definition storable :: "credential \<Rightarrow> bool" where
  "storable c \<longleftrightarrow> stamp_ok (cr_CreatedAt c) \<and> list_all valid_utf8
     [cr_ID c, cr_Label c, cr_AccessKeyID c, cr_SecretAccessKey c, cr_Region c, cr_AccountID c]"

fun call_ok :: "cred_call \<Rightarrow> credential list \<Rightarrow> bool" where
  "call_ok (CrCreate e now l r a) S \<longleftrightarrow>
     storable (created_credential e now l r a) \<and> GenerateID (en_id e) \<notin> cr_ID ` set S \<and>
     GenerateAccessKeyID (en_key e) \<notin> cr_AccessKeyID ` set S"
| "call_ok (CrImport e now l k sec r a) S \<longleftrightarrow>
     storable (imported_credential e now l k sec r a) \<and> GenerateID (en_id e) \<notin> cr_ID ` set S"
| "call_ok c S \<longleftrightarrow> True"

fun calls_ok :: "cred_call list \<Rightarrow> credential list \<Rightarrow> bool" where
  "calls_ok [] S \<longleftrightarrow> True"
| "calls_ok (c # cs) S \<longleftrightarrow> call_ok c S \<and> calls_ok cs (snd (spec_apply c S))"

definition spec_inv :: "credential list \<Rightarrow> bool" where
  "spec_inv S \<longleftrightarrow> distinct (map cr_ID S) \<and> distinct (map cr_AccessKeyID S)"

lemma created_simps [simp]:
  "cr_ID (created_credential e now l r a) = GenerateID (en_id e)"
  "cr_AccessKeyID (created_credential e now l r a) = GenerateAccessKeyID (en_key e)"
  "cr_CreatedAt (created_credential e now l r a) = now"
  "cr_ID (imported_credential e now l k sec r a) = GenerateID (en_id e)"
  "cr_AccessKeyID (imported_credential e now l k sec r a) = k"
  "cr_CreatedAt (imported_credential e now l k sec r a) = now"
  by (simp_all add: created_credential_def imported_credential_def)

lemma spec_inv_apply: "spec_inv S \<Longrightarrow> call_ok c S \<Longrightarrow> spec_inv (snd (spec_apply c S))"
  by (cases c) (auto simp: spec_inv_def Let_def distinct_map_filter)

lemma find_inj:
  assumes "inj_on f (set S)" "c \<in> set S"
  shows "find (\<lambda>d. f d = f c) S = Some c"
proof (cases "find (\<lambda>d. f d = f c) S")
  case None
  then show ?thesis using assms(2) by (auto simp: find_None_iff)
next
  case (Some d)
  then have "d \<in> set S" "f d = f c" by (auto simp: find_Some_iff)
  then show ?thesis using assms Some by (auto dest: inj_onD)
qed

lemma find_unique:
  assumes "distinct (map f S)" "c \<in> set S" "f c = k"
  shows "find (\<lambda>c. f c = k) S = Some c"
  using assms find_inj [of f S c] by (simp add: distinct_map)

lemma find_none: "k \<notin> f ` set S \<Longrightarrow> find (\<lambda>c. f c = k) S = None"
  by (auto simp: find_None_iff)

subsection \<open>The contract\<close>

text \<open>
  \<open>creds s\<close> is the set of credentials a store has.  The laws speak of calls with fresh
  identifiers and of stores whose credentials differ in identifier and in key ID.
\<close>

locale credential_store =
  fixes ops :: "'s credential_ops"
    and inv :: "'s \<Rightarrow> bool"
    and creds :: "'s \<Rightarrow> credential set"
  assumes create: "inv s \<Longrightarrow> storable (created_credential e now l r a) \<Longrightarrow> GenerateID (en_id e) \<notin> cr_ID ` creds s \<Longrightarrow>
      co_Create ops e now l r a s = (x, s') \<Longrightarrow>
      x = Inr (created_credential e now l r a) \<and> inv s' \<and>
      creds s' = insert (created_credential e now l r a) (creds s)"
    and import_used: "inv s \<Longrightarrow> k \<in> cr_AccessKeyID ` creds s \<Longrightarrow>
      co_Import ops e now l k sec r a s = (x, s') \<Longrightarrow> (\<exists>er. x = Inl er) \<and> s' = s"
    and import_new: "inv s \<Longrightarrow> storable (imported_credential e now l k sec r a) \<Longrightarrow> k \<notin> cr_AccessKeyID ` creds s \<Longrightarrow>
      GenerateID (en_id e) \<notin> cr_ID ` creds s \<Longrightarrow>
      co_Import ops e now l k sec r a s = (x, s') \<Longrightarrow>
      x = Inr (imported_credential e now l k sec r a) \<and> inv s' \<and>
      creds s' = insert (imported_credential e now l k sec r a) (creds s)"
    and listed: "inv s \<Longrightarrow> \<exists>cs. co_List ops s = Inr cs \<and> set cs = hide_secret ` creds s"
    and get: "inv s \<Longrightarrow> inj_on cr_ID (creds s) \<Longrightarrow> c \<in> creds s \<Longrightarrow> co_Get ops (cr_ID c) s = Inr c"
    and get_missing: "inv s \<Longrightarrow> i \<notin> cr_ID ` creds s \<Longrightarrow> \<exists>er. co_Get ops i s = Inl er"
    and by_key: "inv s \<Longrightarrow> inj_on cr_AccessKeyID (creds s) \<Longrightarrow> c \<in> creds s \<Longrightarrow>
      co_GetByAccessKeyID ops (cr_AccessKeyID c) s = Inr c"
    and by_key_missing: "inv s \<Longrightarrow> k \<notin> cr_AccessKeyID ` creds s \<Longrightarrow>
      \<exists>er. co_GetByAccessKeyID ops k s = Inl er"
    and delete: "inv s \<Longrightarrow> co_Delete ops i s = (d, s') \<Longrightarrow>
      inv s' \<and> creds s' = {c \<in> creds s. cr_ID c \<noteq> i} \<and> (d = None \<longleftrightarrow> i \<in> cr_ID ` creds s)"
begin

lemma find_reply:
  assumes "spec_inv S" "creds s = set S" "inv s"
  shows "ok_reply (co_Get ops i s) = RCred (find (\<lambda>c. cr_ID c = i) S)"
    and "ok_reply (co_GetByAccessKeyID ops i s) = RCred (find (\<lambda>c. cr_AccessKeyID c = i) S)"
proof -
  have inj: "inj_on cr_ID (creds s)" "inj_on cr_AccessKeyID (creds s)"
    and dist: "distinct (map cr_ID S)" "distinct (map cr_AccessKeyID S)"
    using assms(1,2) by (auto simp: spec_inv_def distinct_map)
  show "ok_reply (co_Get ops i s) = RCred (find (\<lambda>c. cr_ID c = i) S)"
  proof (cases "i \<in> cr_ID ` set S")
    case True
    then obtain c where "c \<in> set S" "cr_ID c = i" by auto
    then show ?thesis using get [OF assms(3) inj(1), of c] find_unique [OF dist(1)]
      by (auto simp: assms(2) ok_reply_def)
  next
    case False
    then obtain er where "co_Get ops i s = Inl er" using get_missing [OF assms(3)] by (auto simp: assms(2))
    then show ?thesis using find_none [OF False] by (simp add: ok_reply_def)
  qed
  show "ok_reply (co_GetByAccessKeyID ops i s) = RCred (find (\<lambda>c. cr_AccessKeyID c = i) S)"
  proof (cases "i \<in> cr_AccessKeyID ` set S")
    case True
    then obtain c where "c \<in> set S" "cr_AccessKeyID c = i" by auto
    then show ?thesis using by_key [OF assms(3) inj(2), of c] find_unique [OF dist(2)]
      by (auto simp: assms(2) ok_reply_def)
  next
    case False
    then obtain er where "co_GetByAccessKeyID ops i s = Inl er"
      using by_key_missing [OF assms(3)] by (auto simp: assms(2))
    then show ?thesis using find_none [OF False] by (simp add: ok_reply_def)
  qed
qed

text \<open>One call refines one call of the abstract store.\<close>

lemma apply_refines:
  assumes "inv s" "creds s = set S" "spec_inv S" "call_ok c S" "cred_apply ops c s = (r, s')"
  shows "r = fst (spec_apply c S) \<and> inv s' \<and> creds s' = set (snd (spec_apply c S))"
proof (cases c)
  case (CrCreate e now l rg a)
  obtain x s1 where x: "co_Create ops e now l rg a s = (x, s1)" by fastforce
  then show ?thesis using create [OF assms(1) _ _ x] assms(2,4,5) CrCreate by (auto simp: ok_reply_def Let_def)
next
  case (CrImport e now l k sec rg a)
  obtain x s1 where x: "co_Import ops e now l k sec rg a s = (x, s1)" by fastforce
  show ?thesis
  proof (cases "k \<in> cr_AccessKeyID ` set S")
    case True
    then show ?thesis using import_used [OF assms(1) _ x] assms(1,2,5) CrImport x by (auto simp: ok_reply_def)
  next
    case False
    then show ?thesis using import_new [OF assms(1) _ _ _ x] assms(2,4,5) CrImport x
      by (auto simp: ok_reply_def Let_def)
  qed
next
  case CrList
  obtain cs where "co_List ops s = Inr cs" "set cs = hide_secret ` creds s" using listed [OF assms(1)] by blast
  then show ?thesis using assms(1,2,5) CrList by auto
next
  case (CrGet i)
  then show ?thesis using find_reply(1) [OF assms(3,2,1)] assms(1,2,5) by auto
next
  case (CrByKey k)
  then show ?thesis using find_reply(2) [OF assms(3,2,1)] assms(1,2,5) by auto
next
  case (CrDelete i)
  obtain x s1 where x: "co_Delete ops i s = (x, s1)" by fastforce
  then show ?thesis using delete [OF assms(1) x] assms(2,5) CrDelete by auto
qed

lemma run_refines:
  assumes "inv s" "creds s = set S" "spec_inv S" "calls_ok cs S" "cred_run ops cs s = (rs, s')"
  shows "rs = fst (spec_run cs S) \<and> inv s' \<and> creds s' = set (snd (spec_run cs S))"
  using assms
proof (induction cs arbitrary: s S rs)
  case (Cons c cs)
  obtain r s1 where a: "cred_apply ops c s = (r, s1)" by fastforce
  obtain rs1 where b: "cred_run ops cs s1 = (rs1, s')" and rs: "rs = r # rs1"
    using Cons.prems(5) a by (auto simp: case_prod_unfold Let_def prod_eq_iff)
  have ok: "call_ok c S" and oks: "calls_ok cs (snd (spec_apply c S))" using Cons.prems(4) by simp_all
  note one = apply_refines [OF Cons.prems(1-3) ok a]
  have "rs1 = fst (spec_run cs (snd (spec_apply c S))) \<and> inv s' \<and>
      creds s' = set (snd (spec_run cs (snd (spec_apply c S))))"
    using one by (intro Cons.IH [OF _ _ spec_inv_apply [OF Cons.prems(3) ok] oks b]) simp_all
  then show ?case using one by (simp add: rs case_prod_unfold Let_def)
qed simp

end

end
