(* ===== verification/CredentialStores.thy ===== *)
theory CredentialStores
  imports Credentials BadgerProperties
begin

section \<open>The three credential stores\<close>

text \<open>
  \<^verbatim>\<open>credentials/memory.go\<close>, \<^verbatim>\<open>credentials/sqlite.go\<close> and \<^verbatim>\<open>credentials/badger.go\<close>, and the
  proof that each keeps the contract of \<open>Credentials\<close>.
\<close>

subsection \<open>In memory\<close>

text \<open>A Go map from identifiers; where the code ranges over it, the order of the list.\<close>

record memory_credentials =
  mc_credentials :: "credential gomap"

definition NewMemoryCredentialStore :: memory_credentials where
  "NewMemoryCredentialStore = \<lparr> mc_credentials = [] \<rparr>"

definition mc_put :: "credential \<Rightarrow> memory_credentials \<Rightarrow> memory_credentials" where
  "mc_put c s = s\<lparr> mc_credentials := AList.update (cr_ID c) c (mc_credentials s) \<rparr>"

definition memory_Create ::
  "entropy \<Rightarrow> time \<Rightarrow> string \<Rightarrow> string \<Rightarrow> string \<Rightarrow> memory_credentials
   \<Rightarrow> (go_error + credential) \<times> memory_credentials" where
  "memory_Create e now label region accountID s =
     (let cred = created_credential e now label region accountID in (Inr cred, mc_put cred s))"

definition memory_Import ::
  "entropy \<Rightarrow> time \<Rightarrow> string \<Rightarrow> string \<Rightarrow> string \<Rightarrow> string \<Rightarrow> string \<Rightarrow> memory_credentials
   \<Rightarrow> (go_error + credential) \<times> memory_credentials" where
  "memory_Import e now label accessKeyID secretAccessKey region accountID s =
     (if \<exists>c \<in> set (map snd (mc_credentials s)). cr_AccessKeyID c = accessKeyID
      then (Inl (key_exists accessKeyID), s)
      else
        let cred = imported_credential e now label accessKeyID secretAccessKey region accountID
        in (Inr cred, mc_put cred s))"

definition memory_List :: "memory_credentials \<Rightarrow> go_error + credential list" where
  "memory_List s = Inr (map (\<lambda>(i, c). hide_secret c) (mc_credentials s))"

definition memory_Get :: "string \<Rightarrow> memory_credentials \<Rightarrow> go_error + credential" where
  "memory_Get i s =
     (case map_of (mc_credentials s) i of None \<Rightarrow> Inl (no_such_id i) | Some c \<Rightarrow> Inr c)"

definition memory_GetByAccessKeyID :: "string \<Rightarrow> memory_credentials \<Rightarrow> go_error + credential" where
  "memory_GetByAccessKeyID k s =
     (case find (\<lambda>c. cr_AccessKeyID c = k) (map snd (mc_credentials s)) of
        None \<Rightarrow> Inl (no_such_key k) | Some c \<Rightarrow> Inr c)"

definition memory_Delete :: "string \<Rightarrow> memory_credentials \<Rightarrow> go_error option \<times> memory_credentials" where
  "memory_Delete i s =
     (if map_of (mc_credentials s) i = None then (Some (no_such_id i), s)
      else (None, s\<lparr> mc_credentials := AList.delete i (mc_credentials s) \<rparr>))"

definition memory_credential_ops :: "memory_credentials credential_ops" where
  "memory_credential_ops = \<lparr> co_Create = memory_Create, co_Import = memory_Import,
     co_List = memory_List, co_Get = memory_Get, co_GetByAccessKeyID = memory_GetByAccessKeyID,
     co_Delete = memory_Delete, co_Close = (\<lambda>s. None) \<rparr>"

subsection \<open>SQLite\<close>

text \<open>
  The table \<open>credentials\<close>.  Its column \<open>created_at\<close> holds the time as RFC 3339 text; a row
  here holds the instant that text parses back to: whole seconds, and the zero time for a year
  the format cannot express, as the code ignores the parse error.  \<open>ORDER BY\<close> and the text
  of a violated primary key are parameters; every statement may fail.
\<close>

definition rfc3339 :: "time \<Rightarrow> time" where
  "rfc3339 t =
     (if - 62167219200000000000 \<le> t \<and> t < 253402300800000000000
      then t div 1000000000 * 1000000000 else zero_time)"

record credential_engine =
  order_by_created :: "credential list \<Rightarrow> credential list"
  primary_key_error :: string

datatype cred_stmt =
  CreateTable | InsertCred | CheckDuplicate | ListCreds | ScanCred nat | RowsErr
  | SelectCred | DeleteCred | CredRowsAffected

record sqlite_credentials =
  sc_rows :: "credential list"

definition NewSQLiteCredentialStore ::
  "(cred_stmt \<Rightarrow> string option) \<Rightarrow> credential list \<Rightarrow> go_error + sqlite_credentials" where
  "NewSQLiteCredentialStore fails table =
     (case fails CreateTable of
        Some e \<Rightarrow> Inl (Errorf (''failed to create credentials table: '' @ e))
      | None \<Rightarrow> Inr \<lparr> sc_rows = table \<rparr>)"

definition sc_insert ::
  "credential_engine \<Rightarrow> (cred_stmt \<Rightarrow> string option) \<Rightarrow> credential \<Rightarrow> sqlite_credentials
   \<Rightarrow> (go_error + credential) \<times> sqlite_credentials" where
  "sc_insert D fails cred s =
     (case fails InsertCred of
        Some e \<Rightarrow> (Inl (Errorf (''failed to insert credential: '' @ e)), s)
      | None \<Rightarrow>
          if cr_ID cred \<in> cr_ID ` set (sc_rows s)
          then (Inl (Errorf (''failed to insert credential: '' @ primary_key_error D)), s)
          else (Inr cred, s\<lparr> sc_rows := sc_rows s @
                 [cred\<lparr> cr_CreatedAt := rfc3339 (cr_CreatedAt cred) \<rparr>] \<rparr>))"

definition sqlite_Create ::
  "credential_engine \<Rightarrow> (cred_stmt \<Rightarrow> string option) \<Rightarrow> entropy \<Rightarrow> time \<Rightarrow> string \<Rightarrow> string \<Rightarrow> string
   \<Rightarrow> sqlite_credentials \<Rightarrow> (go_error + credential) \<times> sqlite_credentials" where
  "sqlite_Create D fails e now label region accountID s =
     sc_insert D fails (created_credential e now label region accountID) s"

text \<open>
  \<open>Import\<close> in its two statements: nothing holds a lock between them.
\<close>

definition sqlite_import_check ::
  "(cred_stmt \<Rightarrow> string option) \<Rightarrow> string \<Rightarrow> sqlite_credentials \<Rightarrow> go_error option" where
  "sqlite_import_check fails accessKeyID s =
     (case fails CheckDuplicate of
        Some e \<Rightarrow> Some (Errorf (''failed to check for duplicate credential: '' @ e))
      | None \<Rightarrow> if accessKeyID \<in> cr_AccessKeyID ` set (sc_rows s) then Some (key_exists accessKeyID) else None)"

definition sqlite_import_insert ::
  "credential_engine \<Rightarrow> (cred_stmt \<Rightarrow> string option) \<Rightarrow> entropy \<Rightarrow> time \<Rightarrow> string \<Rightarrow> string \<Rightarrow> string
   \<Rightarrow> string \<Rightarrow> string \<Rightarrow> sqlite_credentials \<Rightarrow> (go_error + credential) \<times> sqlite_credentials" where
  "sqlite_import_insert D fails e now label accessKeyID secretAccessKey region accountID s =
     sc_insert D fails (imported_credential e now label accessKeyID secretAccessKey region accountID) s"

definition sqlite_Import ::
  "credential_engine \<Rightarrow> (cred_stmt \<Rightarrow> string option) \<Rightarrow> entropy \<Rightarrow> time \<Rightarrow> string \<Rightarrow> string \<Rightarrow> string
   \<Rightarrow> string \<Rightarrow> string \<Rightarrow> sqlite_credentials \<Rightarrow> (go_error + credential) \<times> sqlite_credentials" where
  "sqlite_Import D fails e now label accessKeyID secretAccessKey region accountID s =
     (case sqlite_import_check fails accessKeyID s of
        Some err \<Rightarrow> (Inl err, s)
      | None \<Rightarrow> sqlite_import_insert D fails e now label accessKeyID secretAccessKey region accountID s)"

definition sqlite_List ::
  "credential_engine \<Rightarrow> (cred_stmt \<Rightarrow> string option) \<Rightarrow> sqlite_credentials \<Rightarrow> go_error + credential list" where
  "sqlite_List D fails s =
     (case fails ListCreds of
        Some e \<Rightarrow> Inl (Errorf (''failed to query credentials: '' @ e))
      | None \<Rightarrow>
          let rows = order_by_created D (sc_rows s) in
          case List.find (\<lambda>i. fails (ScanCred i) \<noteq> None) [0 ..< length rows] of
            Some i \<Rightarrow> Inl (Errorf (''failed to scan credential: '' @ the (fails (ScanCred i))))
          | None \<Rightarrow>
              (case fails RowsErr of
                 Some e \<Rightarrow> Inl (Errorf e)
               | None \<Rightarrow> Inr (map hide_secret rows)))"

definition sqlite_select ::
  "(cred_stmt \<Rightarrow> string option) \<Rightarrow> (credential \<Rightarrow> bool) \<Rightarrow> go_error \<Rightarrow> sqlite_credentials \<Rightarrow> go_error + credential"
where
  "sqlite_select fails P missing s =
     (case fails SelectCred of
        Some e \<Rightarrow> Inl (Errorf (''failed to query credential: '' @ e))
      | None \<Rightarrow> (case find P (sc_rows s) of None \<Rightarrow> Inl missing | Some c \<Rightarrow> Inr c))"

definition sqlite_Get ::
  "(cred_stmt \<Rightarrow> string option) \<Rightarrow> string \<Rightarrow> sqlite_credentials \<Rightarrow> go_error + credential" where
  "sqlite_Get fails i s = sqlite_select fails (\<lambda>c. cr_ID c = i) (no_such_id i) s"

definition sqlite_GetByAccessKeyID ::
  "(cred_stmt \<Rightarrow> string option) \<Rightarrow> string \<Rightarrow> sqlite_credentials \<Rightarrow> go_error + credential" where
  "sqlite_GetByAccessKeyID fails k s =
     sqlite_select fails (\<lambda>c. cr_AccessKeyID c = k) (no_such_key k) s"

definition sqlite_Delete ::
  "(cred_stmt \<Rightarrow> string option) \<Rightarrow> string \<Rightarrow> sqlite_credentials \<Rightarrow> go_error option \<times> sqlite_credentials" where
  "sqlite_Delete fails i s =
     (case fails DeleteCred of
        Some e \<Rightarrow> (Some (Errorf (''failed to delete credential: '' @ e)), s)
      | None \<Rightarrow>
          let matched = length (filter (\<lambda>c. cr_ID c = i) (sc_rows s));
              rows = (if fails CredRowsAffected \<noteq> None then 0 else matched);
              s' = s\<lparr> sc_rows := filter (\<lambda>c. cr_ID c \<noteq> i) (sc_rows s) \<rparr>
          in (if rows = 0 then Some (no_such_id i) else None, s'))"

definition sqlite_credential_ops ::
  "credential_engine \<Rightarrow> (cred_stmt \<Rightarrow> string option) \<Rightarrow> sqlite_credentials credential_ops" where
  "sqlite_credential_ops D fails = \<lparr> co_Create = sqlite_Create D fails, co_Import = sqlite_Import D fails,
     co_List = sqlite_List D fails, co_Get = sqlite_Get fails,
     co_GetByAccessKeyID = sqlite_GetByAccessKeyID fails, co_Delete = sqlite_Delete fails,
     co_Close = (\<lambda>s. None) \<rparr>"

subsection \<open>BadgerDB\<close>

text \<open>
  The keys under \<open>credentials:\<close> of the database the queues share.  \<open>json\<close> and the
  unstable \<open>sort.Slice\<close> are parameters; a transaction may fail.
\<close>

record credential_codec =
  marshal_credential :: "credential \<Rightarrow> string + string"
  unmarshal_credential :: "string \<Rightarrow> string + credential"
  sort_newest :: "credential list \<Rightarrow> credential list"

definition credential_codec_ok :: "credential_codec \<Rightarrow> bool" where
  "credential_codec_ok J \<longleftrightarrow>
     (\<forall>c. storable c \<longrightarrow> (\<exists>data. marshal_credential J c = Inr data \<and> unmarshal_credential J data = Inr c)) \<and>
     (\<forall>cs. mset (sort_newest J cs) = mset cs \<and>
        sorted_wrt (\<lambda>a b. cr_CreatedAt a \<ge> cr_CreatedAt b) (sort_newest J cs))"

datatype cred_txn = CredView | CredUpdate

record badger_credentials =
  bc_db :: kv

definition badgerKeyPrefix :: string where
  "badgerKeyPrefix = ''credentials:''"

definition bc_store ::
  "credential_codec \<Rightarrow> (cred_txn \<Rightarrow> string option) \<Rightarrow> credential \<Rightarrow> badger_credentials
   \<Rightarrow> (go_error + credential) \<times> badger_credentials" where
  "bc_store J fails cred s =
     (case marshal_credential J cred of
        Inl e \<Rightarrow> (Inl (Errorf (''failed to marshal credential: '' @ e)), s)
      | Inr data \<Rightarrow>
          (case fails CredUpdate of
             Some e \<Rightarrow> (Inl (Errorf (''failed to store credential: '' @ e)), s)
           | None \<Rightarrow> (Inr cred, s\<lparr> bc_db := db_set (badgerKeyPrefix @ cr_ID cred) data (bc_db s) \<rparr>)))"

definition badger_Create ::
  "credential_codec \<Rightarrow> (cred_txn \<Rightarrow> string option) \<Rightarrow> entropy \<Rightarrow> time \<Rightarrow> string \<Rightarrow> string \<Rightarrow> string
   \<Rightarrow> badger_credentials \<Rightarrow> (go_error + credential) \<times> badger_credentials" where
  "badger_Create J fails e now label region accountID s =
     bc_store J fails (created_credential e now label region accountID) s"

fun bc_check :: "credential_codec \<Rightarrow> string \<Rightarrow> kv \<Rightarrow> go_error option" where
  "bc_check J accessKeyID [] = None"
| "bc_check J accessKeyID ((k, v) # rest) =
     (case unmarshal_credential J v of
        Inl e \<Rightarrow> Some (Errorf e)
      | Inr c \<Rightarrow> if cr_AccessKeyID c = accessKeyID then Some (key_exists accessKeyID)
                else bc_check J accessKeyID rest)"

definition badger_Import ::
  "credential_codec \<Rightarrow> (cred_txn \<Rightarrow> string option) \<Rightarrow> entropy \<Rightarrow> time \<Rightarrow> string \<Rightarrow> string \<Rightarrow> string
   \<Rightarrow> string \<Rightarrow> string \<Rightarrow> badger_credentials \<Rightarrow> (go_error + credential) \<times> badger_credentials" where
  "badger_Import J fails e now label accessKeyID secretAccessKey region accountID s =
     (case fails CredView of
        Some err \<Rightarrow> (Inl (Errorf err), s)
      | None \<Rightarrow>
          (case bc_check J accessKeyID (items badgerKeyPrefix (bc_db s)) of
             Some err \<Rightarrow> (Inl err, s)
           | None \<Rightarrow>
               bc_store J fails (imported_credential e now label accessKeyID secretAccessKey region accountID) s))"

fun bc_read :: "credential_codec \<Rightarrow> kv \<Rightarrow> string + credential list" where
  "bc_read J [] = Inr []"
| "bc_read J ((k, v) # rest) =
     (case unmarshal_credential J v of
        Inl e \<Rightarrow> Inl e
      | Inr c \<Rightarrow> (case bc_read J rest of Inl e \<Rightarrow> Inl e | Inr cs \<Rightarrow> Inr (hide_secret c # cs)))"

definition badger_List ::
  "credential_codec \<Rightarrow> (cred_txn \<Rightarrow> string option) \<Rightarrow> badger_credentials \<Rightarrow> go_error + credential list" where
  "badger_List J fails s =
     (case (case fails CredView of Some e \<Rightarrow> Inl e | None \<Rightarrow> bc_read J (items badgerKeyPrefix (bc_db s))) of
        Inl e \<Rightarrow> Inl (Errorf (''failed to list credentials: '' @ e))
      | Inr cs \<Rightarrow> Inr (sort_newest J cs))"

definition badger_Get ::
  "credential_codec \<Rightarrow> (cred_txn \<Rightarrow> string option) \<Rightarrow> string \<Rightarrow> badger_credentials \<Rightarrow> go_error + credential" where
  "badger_Get J fails i s =
     (case fails CredView of
        Some e \<Rightarrow> Inl (Errorf e)
      | None \<Rightarrow>
          (case map_of (bc_db s) (badgerKeyPrefix @ i) of
             None \<Rightarrow> Inl (no_such_id i)
           | Some v \<Rightarrow> (case unmarshal_credential J v of Inl e \<Rightarrow> Inl (Errorf e) | Inr c \<Rightarrow> Inr c)))"

fun bc_find :: "credential_codec \<Rightarrow> string \<Rightarrow> kv \<Rightarrow> string + credential option" where
  "bc_find J accessKeyID [] = Inr None"
| "bc_find J accessKeyID ((k, v) # rest) =
     (case unmarshal_credential J v of
        Inl e \<Rightarrow> Inl e
      | Inr c \<Rightarrow> if cr_AccessKeyID c = accessKeyID then Inr (Some c) else bc_find J accessKeyID rest)"

definition badger_GetByAccessKeyID ::
  "credential_codec \<Rightarrow> (cred_txn \<Rightarrow> string option) \<Rightarrow> string \<Rightarrow> badger_credentials \<Rightarrow> go_error + credential" where
  "badger_GetByAccessKeyID J fails k s =
     (case (case fails CredView of Some e \<Rightarrow> Inl e | None \<Rightarrow> bc_find J k (items badgerKeyPrefix (bc_db s))) of
        Inl e \<Rightarrow> Inl (Errorf (''failed to query credential: '' @ e))
      | Inr None \<Rightarrow> Inl (no_such_key k)
      | Inr (Some c) \<Rightarrow> Inr c)"

definition badger_Delete ::
  "(cred_txn \<Rightarrow> string option) \<Rightarrow> string \<Rightarrow> badger_credentials \<Rightarrow> go_error option \<times> badger_credentials" where
  "badger_Delete fails i s =
     (let key = badgerKeyPrefix @ i in
      if map_of (bc_db s) key = None
      then (Some (Errorf (''failed to delete credential: '' @ error_text (no_such_id i))), s)
      else case fails CredUpdate of
             Some e \<Rightarrow> (Some (Errorf (''failed to delete credential: '' @ e)), s)
           | None \<Rightarrow> (None, s\<lparr> bc_db := db_delete key (bc_db s) \<rparr>))"

definition badger_credential_ops ::
  "credential_codec \<Rightarrow> (cred_txn \<Rightarrow> string option) \<Rightarrow> badger_credentials credential_ops" where
  "badger_credential_ops J fails = \<lparr> co_Create = badger_Create J fails, co_Import = badger_Import J fails,
     co_List = badger_List J fails, co_Get = badger_Get J fails,
     co_GetByAccessKeyID = badger_GetByAccessKeyID J fails, co_Delete = badger_Delete fails,
     co_Close = (\<lambda>s. None) \<rparr>"

subsection \<open>The stores keep the contract\<close>

text \<open>In memory: the map is keyed by the identifiers.\<close>

definition mc_inv :: "memory_credentials \<Rightarrow> bool" where
  "mc_inv s \<longleftrightarrow> distinct (map fst (mc_credentials s)) \<and>
     (\<forall>i c. map_of (mc_credentials s) i = Some c \<longrightarrow> cr_ID c = i)"

definition mc_creds :: "memory_credentials \<Rightarrow> credential set" where
  "mc_creds s = ran (map_of (mc_credentials s))"

lemma mc_creds_set: "mc_inv s \<Longrightarrow> mc_creds s = snd ` set (mc_credentials s)"
  by (simp add: mc_inv_def mc_creds_def ran_distinct)

lemma mc_map_of: "mc_inv s \<Longrightarrow> map_of (mc_credentials s) i = Some c \<longleftrightarrow> c \<in> mc_creds s \<and> cr_ID c = i"
  by (auto simp: mc_inv_def mc_creds_def ran_def)

lemma mc_map_of_None: "mc_inv s \<Longrightarrow> map_of (mc_credentials s) i = None \<longleftrightarrow> i \<notin> cr_ID ` mc_creds s"
  using mc_map_of [of s i] by (metis image_iff not_None_eq)

lemma mc_put:
  assumes "mc_inv s" "cr_ID c \<notin> cr_ID ` mc_creds s"
  shows "mc_inv (mc_put c s) \<and> mc_creds (mc_put c s) = insert c (mc_creds s)"
  using assms mc_map_of_None [OF assms(1), of "cr_ID c"]
  by (auto simp: mc_inv_def mc_creds_def mc_put_def distinct_update update_conv' ran_map_upd)

lemma mc_delete:
  assumes "mc_inv s"
  shows "mc_inv (s\<lparr> mc_credentials := AList.delete i (mc_credentials s) \<rparr>)"
    and "mc_creds (s\<lparr> mc_credentials := AList.delete i (mc_credentials s) \<rparr>) = {c \<in> mc_creds s. cr_ID c \<noteq> i}"
  using assms by (auto simp: mc_inv_def mc_creds_def distinct_delete delete_conv' ran_def)

interpretation memory_credentials: credential_store memory_credential_ops mc_inv mc_creds
proof (unfold_locales, goal_cases)
  case (1 s e now l r a x s')
  then show ?case using mc_put [OF 1(1)] by (auto simp: memory_credential_ops_def memory_Create_def Let_def)
next
  case (2 s k e now l sec r a x s')
  have "\<exists>c \<in> set (map snd (mc_credentials s)). cr_AccessKeyID c = k"
    using 2(2) mc_creds_set [OF 2(1)] by force
  then show ?case using 2(3) by (auto simp: memory_credential_ops_def memory_Import_def)
next
  case (3 s e now l k sec r a x s')
  have "\<not> (\<exists>c \<in> set (map snd (mc_credentials s)). cr_AccessKeyID c = k)"
    using 3(3) mc_creds_set [OF 3(1)] by force
  then have "x = Inr (imported_credential e now l k sec r a)" "s' = mc_put (imported_credential e now l k sec r a) s"
    using 3(5) by (simp_all add: memory_credential_ops_def memory_Import_def Let_def)
  then show ?case using mc_put [OF 3(1), of "imported_credential e now l k sec r a"] 3(4) by simp
next
  case (4 s)
  then show ?case using mc_creds_set [OF 4]
    by (auto simp: memory_credential_ops_def memory_List_def image_iff split_beta)
next
  case (5 s c)
  have "map_of (mc_credentials s) (cr_ID c) = Some c" using mc_map_of [OF 5(1)] 5(3) by blast
  then show ?case by (simp add: memory_credential_ops_def memory_Get_def)
next
  case (6 s i)
  then have "map_of (mc_credentials s) i = None" using mc_map_of_None [OF 6(1)] by blast
  then show ?case by (simp add: memory_credential_ops_def memory_Get_def)
next
  case (7 s c)
  have "find (\<lambda>d. cr_AccessKeyID d = cr_AccessKeyID c) (map snd (mc_credentials s)) = Some c"
    by (rule find_inj) (use 7 mc_creds_set [OF 7(1)] in auto)
  then show ?case by (simp add: memory_credential_ops_def memory_GetByAccessKeyID_def)
next
  case (8 s k)
  then show ?case using mc_creds_set [OF 8(1)] find_none [of k cr_AccessKeyID "map snd (mc_credentials s)"]
    by (simp add: memory_credential_ops_def memory_GetByAccessKeyID_def image_image)
next
  case (9 s i d s')
  then show ?case using mc_delete [OF 9(1)] mc_map_of_None [OF 9(1), of i]
    by (auto simp: memory_credential_ops_def memory_Delete_def split: if_splits)
qed

text \<open>SQLite: no statement fails.\<close>

abbreviation no_cred_fail :: "'a \<Rightarrow> string option" where
  "no_cred_fail \<equiv> (\<lambda>_. None)"

definition orders_creds :: "credential_engine \<Rightarrow> bool" where
  "orders_creds D \<longleftrightarrow> (\<forall>rows. mset (order_by_created D rows) = mset rows)"

definition sc_inv :: "credential_engine \<Rightarrow> sqlite_credentials \<Rightarrow> bool" where
  "sc_inv D s \<longleftrightarrow> orders_creds D"

lemma rfc3339_stamp: "stamp_ok t \<Longrightarrow> rfc3339 t = t"
  by (auto simp: rfc3339_def stamp_ok_def zero_time_def)

lemma rfc3339_storable: "storable c \<Longrightarrow> c\<lparr> cr_CreatedAt := rfc3339 (cr_CreatedAt c) \<rparr> = c"
  by (simp add: storable_def rfc3339_stamp)

lemma sc_insert_new:
  assumes "storable c" "cr_ID c \<notin> cr_ID ` set (sc_rows s)"
  shows "sc_insert D no_cred_fail c s = (Inr c, s\<lparr> sc_rows := sc_rows s @ [c] \<rparr>)"
  using assms(2) by (simp add: sc_insert_def rfc3339_storable [OF assms(1)])

interpretation sqlite_credentials: credential_store "sqlite_credential_ops D no_cred_fail" "sc_inv D"
  "\<lambda>s. set (sc_rows s)"
  for D
proof (unfold_locales, goal_cases)
  case (1 s e now l r a x s')
  then show ?case using sc_insert_new [of "created_credential e now l r a" s D]
    by (auto simp: sqlite_credential_ops_def sqlite_Create_def sc_inv_def)
next
  case (2 s k e now l sec r a x s')
  then show ?case
    by (auto simp: sqlite_credential_ops_def sqlite_Import_def sqlite_import_check_def)
next
  case (3 s e now l k sec r a x s')
  then show ?case using sc_insert_new [of "imported_credential e now l k sec r a" s D]
    by (auto simp: sqlite_credential_ops_def sqlite_Import_def sqlite_import_check_def
        sqlite_import_insert_def sc_inv_def)
next
  case (4 s)
  then have "set (order_by_created D (sc_rows s)) = set (sc_rows s)"
    by (metis mset_eq_setD orders_creds_def sc_inv_def)
  moreover have "find (\<lambda>i. False) xs = None" for xs :: "nat list" by (simp add: find_None_iff)
  ultimately show ?case by (simp add: sqlite_credential_ops_def sqlite_List_def Let_def)
next
  case (5 s c)
  then show ?case using find_inj [of cr_ID "sc_rows s" c]
    by (simp add: sqlite_credential_ops_def sqlite_Get_def sqlite_select_def)
next
  case (6 s i)
  then show ?case using find_none [of i cr_ID "sc_rows s"]
    by (simp add: sqlite_credential_ops_def sqlite_Get_def sqlite_select_def)
next
  case (7 s c)
  then show ?case using find_inj [of cr_AccessKeyID "sc_rows s" c]
    by (simp add: sqlite_credential_ops_def sqlite_GetByAccessKeyID_def sqlite_select_def)
next
  case (8 s k)
  then show ?case using find_none [of k cr_AccessKeyID "sc_rows s"]
    by (simp add: sqlite_credential_ops_def sqlite_GetByAccessKeyID_def sqlite_select_def)
next
  case (9 s i d s')
  then show ?case
    by (auto simp: sqlite_credential_ops_def sqlite_Delete_def sc_inv_def Let_def filter_empty_conv
        split: if_splits)
qed

text \<open>BadgerDB: every value under the prefix is the text of a credential, under its identifier.\<close>

definition bc_inv :: "credential_codec \<Rightarrow> badger_credentials \<Rightarrow> bool" where
  "bc_inv J s \<longleftrightarrow> credential_codec_ok J \<and> sorted_db (bc_db s) \<and>
     (\<forall>i v. map_of (bc_db s) (badgerKeyPrefix @ i) = Some v \<longrightarrow>
        (\<exists>c. unmarshal_credential J v = Inr c \<and> cr_ID c = i))"

definition bc_creds :: "credential_codec \<Rightarrow> badger_credentials \<Rightarrow> credential set" where
  "bc_creds J s = {c. \<exists>v. map_of (bc_db s) (badgerKeyPrefix @ cr_ID c) = Some v \<and> unmarshal_credential J v = Inr c}"

definition decoded :: "credential_codec \<Rightarrow> kv \<Rightarrow> credential list" where
  "decoded J kvs = map (\<lambda>(k, v). projr (unmarshal_credential J v)) kvs"

lemma decoded_loops:
  assumes "\<forall>(k, v) \<in> set kvs. \<exists>c. unmarshal_credential J v = Inr c"
  shows "bc_check J key kvs = (if key \<in> cr_AccessKeyID ` set (decoded J kvs) then Some (key_exists key) else None)"
    and "bc_read J kvs = Inr (map hide_secret (decoded J kvs))"
    and "bc_find J key kvs = Inr (find (\<lambda>c. cr_AccessKeyID c = key) (decoded J kvs))"
proof -
  have "bc_check J key kvs = (if key \<in> cr_AccessKeyID ` set (decoded J kvs) then Some (key_exists key) else None) \<and>
      bc_read J kvs = Inr (map hide_secret (decoded J kvs)) \<and>
      bc_find J key kvs = Inr (find (\<lambda>c. cr_AccessKeyID c = key) (decoded J kvs))"
    using assms
  proof (induction kvs)
    case (Cons kv kvs)
    obtain k v where kv: "kv = (k, v)" by (cases kv)
    then obtain c where c: "unmarshal_credential J v = Inr c" using Cons.prems by auto
    have "decoded J (kv # kvs) = c # decoded J kvs" by (simp add: decoded_def kv c)
    then show ?case using Cons by (simp add: kv c)
  qed (simp add: decoded_def)
  then show "bc_check J key kvs = (if key \<in> cr_AccessKeyID ` set (decoded J kvs) then Some (key_exists key) else None)"
    and "bc_read J kvs = Inr (map hide_secret (decoded J kvs))"
    and "bc_find J key kvs = Inr (find (\<lambda>c. cr_AccessKeyID c = key) (decoded J kvs))"
    by simp_all
qed

lemma bc_items:
  assumes "bc_inv J s"
  shows "\<forall>(k, v) \<in> set (items badgerKeyPrefix (bc_db s)). \<exists>c. unmarshal_credential J v = Inr c"
    and "set (decoded J (items badgerKeyPrefix (bc_db s))) = bc_creds J s"
proof -
  have sorted: "sorted_db (bc_db s)" using assms by (simp add: bc_inv_def)
  show "\<forall>(k, v) \<in> set (items badgerKeyPrefix (bc_db s)). \<exists>c. unmarshal_credential J v = Inr c"
  proof (clarify)
    fix k v assume "(k, v) \<in> set (items badgerKeyPrefix (bc_db s))"
    then obtain i where "map_of (bc_db s) (badgerKeyPrefix @ i) = Some v"
      using items_iff [OF sorted] by auto
    then show "\<exists>c. unmarshal_credential J v = Inr c" using assms unfolding bc_inv_def by blast
  qed
  show "set (decoded J (items badgerKeyPrefix (bc_db s))) = bc_creds J s"
  proof (intro set_eqI iffI)
    fix c assume "c \<in> set (decoded J (items badgerKeyPrefix (bc_db s)))"
    then obtain i v where iv: "map_of (bc_db s) (badgerKeyPrefix @ i) = Some v"
      "c = projr (unmarshal_credential J v)"
      using items_iff [OF sorted] by (auto simp: decoded_def)
    then obtain c' where "unmarshal_credential J v = Inr c'" "cr_ID c' = i"
      using assms unfolding bc_inv_def by blast
    then show "c \<in> bc_creds J s" using iv by (auto simp: bc_creds_def)
  next
    fix c assume "c \<in> bc_creds J s"
    then obtain v where v: "map_of (bc_db s) (badgerKeyPrefix @ cr_ID c) = Some v" "unmarshal_credential J v = Inr c"
      by (auto simp: bc_creds_def)
    then have "(badgerKeyPrefix @ cr_ID c, v) \<in> set (items badgerKeyPrefix (bc_db s))"
      using items_iff [OF sorted] by auto
    then show "c \<in> set (decoded J (items badgerKeyPrefix (bc_db s)))"
      using v(2) by (force simp: decoded_def)
  qed
qed

lemma bc_missing:
  "bc_inv J s \<Longrightarrow> map_of (bc_db s) (badgerKeyPrefix @ i) = None \<longleftrightarrow> i \<notin> cr_ID ` bc_creds J s"
proof (cases "map_of (bc_db s) (badgerKeyPrefix @ i)")
  case None
  then show ?thesis by (auto simp: bc_creds_def)
next
  case (Some v)
  moreover assume "bc_inv J s"
  ultimately obtain c where "unmarshal_credential J v = Inr c" "cr_ID c = i" unfolding bc_inv_def by blast
  then show ?thesis using Some by (auto simp: bc_creds_def intro!: rev_image_eqI [of c])
qed

lemma bc_store_new:
  assumes "bc_inv J s" "storable c" "cr_ID c \<notin> cr_ID ` bc_creds J s" "bc_store J no_cred_fail c s = (x, s')"
  shows "x = Inr c \<and> bc_inv J s' \<and> bc_creds J s' = insert c (bc_creds J s)"
proof -
  obtain data where data: "marshal_credential J c = Inr data" "unmarshal_credential J data = Inr c"
    using assms(1,2) unfolding bc_inv_def credential_codec_ok_def by blast
  have sorted: "sorted_db (bc_db s)" using assms(1) by (simp add: bc_inv_def)
  have x: "x = Inr c" and s': "s' = s\<lparr> bc_db := db_set (badgerKeyPrefix @ cr_ID c) data (bc_db s) \<rparr>"
    using assms(4) data(1) by (simp_all add: bc_store_def)
  have "bc_inv J s'"
    using assms(1) data(2) sorted_db_set [OF sorted] by (auto simp: bc_inv_def s' map_of_db_set [OF sorted])
  moreover have "bc_creds J s' = insert c (bc_creds J s)"
  proof (intro set_eqI)
    fix d
    show "d \<in> bc_creds J s' \<longleftrightarrow> d \<in> insert c (bc_creds J s)"
    proof (cases "cr_ID d = cr_ID c")
      case True
      then have "d \<notin> bc_creds J s" using assms(3) by (metis image_eqI)
      moreover have "d \<in> bc_creds J s' \<longleftrightarrow> d = c"
        by (auto simp: bc_creds_def s' map_of_db_set [OF sorted] True data(2))
      ultimately show ?thesis by blast
    next
      case False
      then have "d \<noteq> c" by auto
      then show ?thesis using False by (simp add: bc_creds_def s' map_of_db_set [OF sorted])
    qed
  qed
  ultimately show ?thesis using x by blast
qed

interpretation badger_credentials: credential_store "badger_credential_ops J no_cred_fail" "bc_inv J" "bc_creds J"
  for J
proof (unfold_locales, goal_cases)
  case (1 s e now l r a x s')
  then have "bc_store J no_cred_fail (created_credential e now l r a) s = (x, s')"
    by (simp add: badger_credential_ops_def badger_Create_def)
  from bc_store_new [OF 1(1,2) _ this] 1(3) show ?case by simp
next
  case (2 s k e now l sec r a x s')
  then have "bc_check J k (items badgerKeyPrefix (bc_db s)) = Some (key_exists k)"
    by (simp add: decoded_loops(1) [OF bc_items(1) [OF 2(1)]] bc_items(2) [OF 2(1)])
  then show ?case using 2(3) by (auto simp: badger_credential_ops_def badger_Import_def)
next
  case (3 s e now l k sec r a x s')
  then have "bc_check J k (items badgerKeyPrefix (bc_db s)) = None"
    by (simp add: decoded_loops(1) [OF bc_items(1) [OF 3(1)]] bc_items(2) [OF 3(1)])
  then have "bc_store J no_cred_fail (imported_credential e now l k sec r a) s = (x, s')"
    using 3(5) by (simp add: badger_credential_ops_def badger_Import_def)
  from bc_store_new [OF 3(1,2) _ this] 3(4) show ?case by simp
next
  case (4 s)
  let ?cs = "map hide_secret (decoded J (items badgerKeyPrefix (bc_db s)))"
  have "set (sort_newest J ?cs) = set ?cs"
    using 4 by (metis bc_inv_def credential_codec_ok_def mset_eq_setD)
  then show ?case
    by (simp add: badger_credential_ops_def badger_List_def decoded_loops(2) [OF bc_items(1) [OF 4]] bc_items(2) [OF 4])
next
  case (5 s c)
  then show ?case by (auto simp: badger_credential_ops_def badger_Get_def bc_creds_def)
next
  case (6 s i)
  then have "map_of (bc_db s) (badgerKeyPrefix @ i) = None" using bc_missing [OF 6(1)] by blast
  then show ?case by (simp add: badger_credential_ops_def badger_Get_def)
next
  case (7 s c)
  have "find (\<lambda>d. cr_AccessKeyID d = cr_AccessKeyID c) (decoded J (items badgerKeyPrefix (bc_db s))) = Some c"
    by (rule find_inj) (use 7 bc_items(2) [OF 7(1)] in auto)
  then show ?case
    by (simp add: badger_credential_ops_def badger_GetByAccessKeyID_def decoded_loops(3) [OF bc_items(1) [OF 7(1)]])
next
  case (8 s k)
  then have "find (\<lambda>c. cr_AccessKeyID c = k) (decoded J (items badgerKeyPrefix (bc_db s))) = None"
    by (intro find_none) (simp add: bc_items(2) [OF 8(1)])
  then show ?case
    by (simp add: badger_credential_ops_def badger_GetByAccessKeyID_def decoded_loops(3) [OF bc_items(1) [OF 8(1)]])
next
  case (9 s i d s')
  have "bc_inv J (s\<lparr> bc_db := db_delete (badgerKeyPrefix @ i) (bc_db s) \<rparr>)"
    using 9(1) by (auto simp: bc_inv_def map_of_db_delete intro: sorted_db_delete)
  moreover have "bc_creds J (s\<lparr> bc_db := db_delete (badgerKeyPrefix @ i) (bc_db s) \<rparr>) = {c \<in> bc_creds J s. cr_ID c \<noteq> i}"
    by (auto simp: bc_creds_def map_of_db_delete)
  moreover have "{c \<in> bc_creds J s. cr_ID c \<noteq> i} = bc_creds J s" if "i \<notin> cr_ID ` bc_creds J s"
    using that by auto
  ultimately show ?case using 9 bc_missing [OF 9(1), of i]
    by (auto simp: badger_credential_ops_def badger_Delete_def Let_def simp del: not_None_eq split: if_splits)
qed

end
