(* ===== verification/Http.thy ===== *)
theory Http
  imports SQSTypes GoText
begin

section \<open>Requests and responses\<close>

text \<open>
  What the server uses of \<open>net/http\<close> and \<open>net/url\<close>: a request with its headers under
  canonical names, a body that may break off with an error, the parse of a query string; a
  response; and the escapes of \<open>encoding/xml\<close>.
\<close>

record request =
  rq_Method :: string
  rq_Path :: string
  rq_RawQuery :: string
  rq_Header :: "string list gomap"
  rq_Host :: string
  rq_Body :: string
  rq_BodyError :: "string option"

record response =
  rs_Status :: int
  rs_Header :: "string gomap"
  rs_Body :: string

type_synonym 's handler = "request \<Rightarrow> 's \<Rightarrow> response \<times> 's"

type_synonym 's middleware = "'s handler \<Rightarrow> 's handler"

subsection \<open>Headers\<close>

definition token_byte :: "char \<Rightarrow> bool" where
  "token_byte c \<longleftrightarrow> between 48 57 c \<or> between 65 90 c \<or> between 97 122 c \<or>
     byte_of c \<in> {33, 35, 36, 37, 38, 39, 42, 43, 45, 46, 94, 95, 96, 124, 126}"

definition upper_char :: "char \<Rightarrow> char" where
  "upper_char c = (if between 97 122 c then char_of (byte_of c - 32) else c)"

fun canonical_bytes :: "bool \<Rightarrow> string \<Rightarrow> string" where
  "canonical_bytes upper [] = []"
| "canonical_bytes upper (c # s) =
     (if upper then upper_char c else lower_char c) # canonical_bytes (c = CHR ''-'') s"

definition CanonicalMIMEHeaderKey :: "string \<Rightarrow> string" where
  "CanonicalMIMEHeaderKey k = (if list_all token_byte k then canonical_bytes True k else k)"

definition header_values :: "request \<Rightarrow> string \<Rightarrow> string list" where
  "header_values r name =
     (case map_of (rq_Header r) (CanonicalMIMEHeaderKey name) of None \<Rightarrow> [] | Some vs \<Rightarrow> vs)"

definition header_get :: "request \<Rightarrow> string \<Rightarrow> string" where
  "header_get r name = (case header_values r name of [] \<Rightarrow> [] | v # vs \<Rightarrow> v)"

definition set_header :: "string \<Rightarrow> string list \<Rightarrow> request \<Rightarrow> request" where
  "set_header name vs r = r\<lparr> rq_Header := (CanonicalMIMEHeaderKey name, vs) # rq_Header r \<rparr>"

lemma header_values_set:
  "header_values (set_header k vs r) name =
     (if CanonicalMIMEHeaderKey name = CanonicalMIMEHeaderKey k then vs else header_values r name)"
  by (simp add: header_values_def set_header_def)

lemma set_header_simps [simp]:
  "rq_Method (set_header k vs r) = rq_Method r" "rq_Path (set_header k vs r) = rq_Path r"
  "rq_RawQuery (set_header k vs r) = rq_RawQuery r" "rq_Host (set_header k vs r) = rq_Host r"
  "rq_Body (set_header k vs r) = rq_Body r" "rq_BodyError (set_header k vs r) = rq_BodyError r"
  by (simp_all add: set_header_def)

subsection \<open>Bodies\<close>

text \<open>
  \<open>io.ReadAll(io.LimitReader(r.Body, n))\<close> stops after \<open>n\<close> bytes without a word;
  \<open>http.MaxBytesReader\<close> fails there when there is more.
\<close>

definition read_limited :: "nat \<Rightarrow> request \<Rightarrow> string + string" where
  "read_limited n r =
     (case rq_BodyError r of
        Some e \<Rightarrow> if length (rq_Body r) < n then Inl e else Inr (take n (rq_Body r))
      | None \<Rightarrow> Inr (take n (rq_Body r)))"

definition read_max_bytes :: "nat \<Rightarrow> request \<Rightarrow> string + string" where
  "read_max_bytes n r =
     (if n < length (rq_Body r) then Inl ''http: request body too large''
      else case rq_BodyError r of Some e \<Rightarrow> Inl e | None \<Rightarrow> Inr (rq_Body r))"

definition restore_body :: "string \<Rightarrow> request \<Rightarrow> request" where
  "restore_body body r = r\<lparr> rq_Body := body, rq_BodyError := None \<rparr>"

lemma restore_body_simps [simp]:
  "rq_Method (restore_body b r) = rq_Method r" "rq_Path (restore_body b r) = rq_Path r"
  "rq_RawQuery (restore_body b r) = rq_RawQuery r" "rq_Host (restore_body b r) = rq_Host r"
  "header_values (restore_body b r) n = header_values r n" "header_get (restore_body b r) n = header_get r n"
  "rq_Body (restore_body b r) = b" "rq_BodyError (restore_body b r) = None"
  by (simp_all add: restore_body_def header_values_def header_get_def)

subsection \<open>Query strings\<close>

definition unhex :: "char \<Rightarrow> nat option" where
  "unhex c =
     (if between 48 57 c then Some (byte_of c - 48)
      else if between 97 102 c then Some (byte_of c - 87)
      else if between 65 70 c then Some (byte_of c - 55) else None)"

definition escape_error :: "string \<Rightarrow> string" where
  "escape_error s = ''invalid URL escape '' @ quote (take 3 s)"

fun QueryUnescape :: "string \<Rightarrow> string + string" where
  "QueryUnescape [] = Inr []"
| "QueryUnescape (c # s) =
     (if c = CHR ''%'' then
        (case s of
           a # b # rest \<Rightarrow>
             (case (unhex a, unhex b) of
                (Some m, Some n) \<Rightarrow>
                  (case QueryUnescape rest of Inl e \<Rightarrow> Inl e | Inr t \<Rightarrow> Inr (char_of (16 * m + n) # t))
              | _ \<Rightarrow> Inl (escape_error (c # s)))
         | _ \<Rightarrow> Inl (escape_error (c # s)))
      else
        (case QueryUnescape s of
           Inl e \<Rightarrow> Inl e
         | Inr t \<Rightarrow> Inr ((if c = CHR ''+'' then CHR '' '' else c) # t)))"

text \<open>\<open>url.ParseQuery\<close>: the parameters it could read, in the order they came, and its error.\<close>

definition add_value :: "string \<Rightarrow> string \<Rightarrow> string list gomap \<Rightarrow> string list gomap" where
  "add_value k v m =
     (case map_of m k of None \<Rightarrow> m @ [(k, [v])]
      | Some vs \<Rightarrow> map (\<lambda>(k', vs'). (k', if k' = k then vs' @ [v] else vs')) m)"

definition after_first :: "char \<Rightarrow> string \<Rightarrow> string" where
  "after_first c s = tl (dropWhile (\<lambda>x. x \<noteq> c) s)"

definition first_error :: "string option \<Rightarrow> string \<Rightarrow> string option" where
  "first_error err e = (case err of None \<Rightarrow> Some e | Some e0 \<Rightarrow> Some e0)"

fun parse_parts :: "string list \<Rightarrow> string list gomap \<Rightarrow> string option \<Rightarrow> string list gomap \<times> string option" where
  "parse_parts [] m err = (m, err)"
| "parse_parts (p # ps) m err =
     (if CHR '';'' \<in> set p then parse_parts ps m (Some ''invalid semicolon separator in query'')
      else if p = [] then parse_parts ps m err
      else
        case QueryUnescape (before_first (CHR ''='') p) of
          Inl e \<Rightarrow> parse_parts ps m (first_error err e)
        | Inr k \<Rightarrow>
            (case QueryUnescape (after_first (CHR ''='') p) of
               Inl e \<Rightarrow> parse_parts ps m (first_error err e)
             | Inr v \<Rightarrow> parse_parts ps (add_value k v m) err))"

definition ParseQuery :: "string \<Rightarrow> string list gomap \<times> string option" where
  "ParseQuery q = parse_parts (Split (CHR ''&'') q) [] None"

definition url_query :: "request \<Rightarrow> string list gomap" where
  "url_query r = fst (ParseQuery (rq_RawQuery r))"

definition values_get :: "string list gomap \<Rightarrow> string \<Rightarrow> string" where
  "values_get m k = (case map_of m k of Some (v # vs) \<Rightarrow> v | _ \<Rightarrow> [])"

subsection \<open>Percent encoding\<close>

lemma upper_hex_facts:
  assumes "n < 16"
  shows "unhex (upper_hex n) = Some n" "between 48 57 (upper_hex n) \<or> between 65 70 (upper_hex n)"
  using assms by (auto simp: upper_hex_def unhex_def between_def)

lemma byte_div_mod: "byte_of c div 16 < 16" "byte_of c mod 16 < 16"
  "char_of (16 * (byte_of c div 16) + byte_of c mod 16) = c"
proof -
  have "of_char c < (256 :: nat)" using nat_of_char_less_256 [of c] by simp
  then show "byte_of c div 16 < 16" by (intro less_mult_imp_div_less) simp
  show "char_of (16 * (byte_of c div 16) + byte_of c mod 16) = c" by simp
qed simp

lemma QueryUnescape_percent:
  "QueryUnescape (concat (map percent t) @ s) =
     (case QueryUnescape s of Inl e \<Rightarrow> Inl e | Inr x \<Rightarrow> Inr (t @ x))"
proof (induction t)
  case Nil
  then show ?case by (simp split: sum.splits)
next
  case (Cons c t)
  then show ?case
    by (simp add: percent_def upper_hex_facts byte_div_mod split: sum.splits)
qed

subsection \<open>XML text\<close>

text \<open>\<open>xml.EscapeText\<close>: the runes XML forbids become U+FFFD.\<close>

definition escape_rune :: "string \<Rightarrow> string" where
  "escape_rune r =
     (if r = [CHR 0x22] then ''&#34;'' else if r = [CHR 0x27] then ''&#39;''
      else if r = ''&'' then ''&amp;'' else if r = ''<'' then ''&lt;'' else if r = ''>'' then ''&gt;''
      else if r = [CHR 0x09] then ''&#x9;'' else if r = [CHR 0x0A] then ''&#xA;''
      else if r = [CHR 0x0D] then ''&#xD;''
      else if (length r = 1 \<and> byte_of (hd r) < 32) \<or>
          map byte_of r = [239, 191, 190] \<or> map byte_of r = [239, 191, 191] then rune_error
      else r)"

definition EscapeText :: "string \<Rightarrow> string" where
  "EscapeText s = concat (map escape_rune (runes s))"

definition xml_header :: string where
  "xml_header = ''<?xml version='' @ [CHR 0x22] @ ''1.0'' @ [CHR 0x22] @ '' encoding='' @ [CHR 0x22] @
     ''UTF-8'' @ [CHR 0x22] @ ''?>'' @ [CHR 0x0A]"

definition xml_element :: "string \<Rightarrow> string \<Rightarrow> string" where
  "xml_element name content = ''<'' @ name @ ''>'' @ content @ ''</'' @ name @ ''>''"

end
