(* ===== verification/Auth.thy ===== *)
theory Auth
  imports Http Credentials StoreCommon "HOL-Library.List_Lexorder" "HOL-Library.Char_ord"
    "HOL-Library.Product_Lexorder"
begin

section \<open>Authentication\<close>

text \<open>
  \<^verbatim>\<open>apps/go/server/middleware/auth.go\<close>: the middleware that lets a request through when it
  carries the key pair of a stored credential, as parameters or in an AWS Signature Version 4.
  The credential store is its method \<open>GetByAccessKeyID\<close>; SHA-256 and HMAC are those of
  \<open>env\<close>; \<open>u\<close> is the Unicode lower case of \<open>GoText\<close>.
\<close>

definition sigV4Algorithm :: string where "sigV4Algorithm = ''AWS4-HMAC-SHA256''"
definition sqsServiceName :: string where "sqsServiceName = ''sqs''"
definition maxBodySize :: nat where "maxBodySize = 1048576"

definition newline :: string where "newline = [CHR 0x0A]"

type_synonym lookup = "string \<Rightarrow> go_error + credential"

subsection \<open>The refusal\<close>

definition writeAuthError :: "string \<Rightarrow> string \<Rightarrow> response" where
  "writeAuthError code msg =
     (let line = (\<lambda>name text. ''  '' @ xml_element name (EscapeText text) @ newline) in
      \<lparr> rs_Status = 403, rs_Header = [(''Content-Type'', ''text/xml'')],
        rs_Body = xml_header @ xml_element ''ErrorResponse''
          (newline @ line ''Type'' ''Sender'' @ line ''Code'' code @ line ''Message'' msg @
           line ''RequestId'' ''00000000-0000-0000-0000-000000000000'') \<rparr>)"

definition no_such_key_id :: response where
  "no_such_key_id = writeAuthError ''InvalidClientTokenId''
     ''The AWS Access Key Id you provided does not exist in our records.''"

subsection \<open>The key pair as parameters\<close>

definition extractLegacyCredentials :: "request \<Rightarrow> string \<times> string \<times> request" where
  "extractLegacyCredentials r =
     (let key = values_get (url_query r) ''AWSAccessKeyId'';
          secret = values_get (url_query r) ''AWSSecretAccessKey'' in
      if key \<noteq> [] \<and> secret \<noteq> [] then (key, secret, r)
      else if rq_Method r = ''POST'' \<and> (key = [] \<or> secret = []) then
        (case read_limited maxBodySize r of
           Inl e \<Rightarrow> (key, secret, r\<lparr> rq_Body := [] \<rparr>)
         | Inr body \<Rightarrow>
             let r' = restore_body body r; (values, parseErr) = ParseQuery body in
             if parseErr \<noteq> None then (key, secret, r')
             else (if key = [] then values_get values ''AWSAccessKeyId'' else key,
                   if secret = [] then values_get values ''AWSSecretAccessKey'' else secret, r'))
      else (key, secret, r))"

text \<open>A check returns the request for the next handler, or the response that refuses it.\<close>

definition verifyLegacyQuery :: "lookup \<Rightarrow> request \<Rightarrow> response + request" where
  "verifyLegacyQuery credStore r =
     (let (key, secret, r') = extractLegacyCredentials r in
      if key = [] \<or> secret = [] then
        Inl (writeAuthError ''MissingAuthenticationToken''
          ''Request must contain a valid AWS Access Key ID and Secret Access Key.'')
      else
        case credStore key of
          Inl e \<Rightarrow> Inl no_such_key_id
        | Inr cred \<Rightarrow>
            if cr_SecretAccessKey cred \<noteq> secret then
              Inl (writeAuthError ''SignatureDoesNotMatch''
                ''The request signature we calculated does not match the signature you provided.'')
            else Inr r')"

subsection \<open>The Authorization header\<close>

record sigV4Components =
  pt_AccessKeyID :: string
  pt_Date :: string
  pt_Region :: string
  pt_Service :: string
  pt_SignedHeaders :: string
  pt_Signature :: string
  pt_credentialStr :: string

fun header_parts :: "string list \<Rightarrow> string \<times> string \<times> string \<Rightarrow> string \<times> string \<times> string" where
  "header_parts [] acc = acc"
| "header_parts (p # ps) (cred, hs, sig) =
     (let part = TrimSpace p in
      header_parts ps
        (if HasPrefix part ''Credential='' then (TrimPrefix part ''Credential='', hs, sig)
         else if HasPrefix part ''SignedHeaders='' then (cred, TrimPrefix part ''SignedHeaders='', sig)
         else if HasPrefix part ''Signature='' then (cred, hs, TrimPrefix part ''Signature='')
         else (cred, hs, sig)))"

definition parseSigV4AuthHeader :: "string \<Rightarrow> string + sigV4Components" where
  "parseSigV4AuthHeader header =
     (let header = TrimSpace header in
      if \<not> HasPrefix header (sigV4Algorithm @ '' '')
      then Inl (''authorization header must start with '' @ sigV4Algorithm)
      else
        let (credential, signedHeaders, signature) =
          header_parts (Split (CHR '','') (TrimPrefix header (sigV4Algorithm @ '' ''))) ([], [], []) in
        if credential = [] \<or> signedHeaders = [] \<or> signature = []
        then Inl ''authorization header is missing required components (Credential, SignedHeaders, Signature)''
        else
          case Split (CHR ''/'') credential of
            [k, d, rg, sv, t] \<Rightarrow>
              if t \<noteq> ''aws4_request''
              then Inl (''invalid credential scope: must end with aws4_request, got '' @ quote t)
              else Inr \<lparr> pt_AccessKeyID = k, pt_Date = d, pt_Region = rg, pt_Service = sv,
                     pt_SignedHeaders = signedHeaders, pt_Signature = signature,
                     pt_credentialStr = Join ''/'' [d, rg, sv, t] \<rparr>
          | ps \<Rightarrow> Inl (''invalid credential scope: expected 5 parts, got '' @ itoa (int (length ps))))"

subsection \<open>The canonical request\<close>

definition unreserved :: "char \<Rightarrow> bool" where
  "unreserved c \<longleftrightarrow> between 65 90 c \<or> between 97 122 c \<or> between 48 57 c \<or> c \<in> {CHR ''-'', CHR ''_'', CHR ''.'', CHR ''~''}"

definition encode_rune :: "string \<Rightarrow> string" where
  "encode_rune r = (if length r = 1 \<and> unreserved (hd r) then r else concat (map percent r))"

definition encodeURI :: "string \<Rightarrow> string" where
  "encodeURI s = concat (map encode_rune (runes s))"

definition canonicalURIPath :: "string \<Rightarrow> string" where
  "canonicalURIPath path =
     (if path = [] then ''/'' else Join ''/'' (map encodeURI (Split (CHR ''/'') path)))"

definition query_pairs :: "string list gomap \<Rightarrow> (string \<times> string) list" where
  "query_pairs values = concat (map (\<lambda>(k, vs). map (\<lambda>v. (encodeURI k, encodeURI v)) vs) values)"

definition canonicalQueryString :: "string list gomap \<Rightarrow> string" where
  "canonicalQueryString values =
     Join ''&'' (map (\<lambda>(k, v). k @ ''='' @ v) (sort (query_pairs values)))"

definition header_line :: "request \<Rightarrow> string \<Rightarrow> string" where
  "header_line r name =
     name @ '':'' @
       (case header_values r name of
          [] \<Rightarrow> if name = ''host'' \<and> rq_Host r \<noteq> [] then TrimSpace (rq_Host r) else []
        | vs \<Rightarrow> Join '','' (map TrimSpace vs))"

definition signed_names :: "(string \<Rightarrow> string) \<Rightarrow> string \<Rightarrow> string list" where
  "signed_names u signedHeaders = map (ToLower u \<circ> TrimSpace) (sort (Split (CHR '';'') signedHeaders))"

definition canonicalHeaders :: "(string \<Rightarrow> string) \<Rightarrow> request \<Rightarrow> string \<Rightarrow> string \<times> string list" where
  "canonicalHeaders u r signedHeaders =
     (concat (map (\<lambda>n. header_line r n @ newline) (signed_names u signedHeaders)), signed_names u signedHeaders)"

definition buildCanonicalRequest :: "(string \<Rightarrow> string) \<Rightarrow> request \<Rightarrow> string \<Rightarrow> string \<Rightarrow> string" where
  "buildCanonicalRequest u r signedHeaders payloadHash =
     (let (headers, names) = canonicalHeaders u r signedHeaders in
      Join newline [rq_Method r, canonicalURIPath (rq_Path r), canonicalQueryString (url_query r),
        headers, Join '';'' names, payloadHash])"

subsection \<open>The signature\<close>

definition hashSHA256 :: "env \<Rightarrow> string \<Rightarrow> string" where
  "hashSHA256 E data = EncodeToString_hex (sha256 E data)"

definition deriveSigningKey :: "env \<Rightarrow> string \<Rightarrow> string \<Rightarrow> string \<Rightarrow> string \<Rightarrow> string" where
  "deriveSigningKey E secret date region service =
     (let kDate = hmac E (''AWS4'' @ secret) date;
          kRegion = hmac E kDate region;
          kService = hmac E kRegion service
      in hmac E kService ''aws4_request'')"

definition amz_date :: "request \<Rightarrow> string" where
  "amz_date r = (if header_get r ''X-Amz-Date'' = [] then header_get r ''Date'' else header_get r ''X-Amz-Date'')"

definition stringToSign :: "env \<Rightarrow> request \<Rightarrow> string \<Rightarrow> string \<Rightarrow> string" where
  "stringToSign E r credentialStr canonicalReq =
     Join newline [sigV4Algorithm, amz_date r, credentialStr, hashSHA256 E canonicalReq]"

definition verifySigV4 ::
  "env \<Rightarrow> (string \<Rightarrow> string) \<Rightarrow> lookup \<Rightarrow> string \<Rightarrow> request \<Rightarrow> response + request" where
  "verifySigV4 E u credStore expectedRegion r =
     (case parseSigV4AuthHeader (header_get r ''Authorization'') of
        Inl err \<Rightarrow> Inl (writeAuthError ''IncompleteSignature'' err)
      | Inr parts \<Rightarrow>
        if pt_Service parts \<noteq> sqsServiceName then
          Inl (writeAuthError ''InvalidSignatureException''
            (''Credential should be scoped to service '' @ quote sqsServiceName @ '', but got '' @ quote (pt_Service parts)))
        else if expectedRegion \<noteq> [] \<and> pt_Region parts \<noteq> expectedRegion then
          Inl (writeAuthError ''InvalidSignatureException''
            (''Credential should be scoped to region '' @ quote expectedRegion @ '', but got '' @ quote (pt_Region parts)))
        else
          case credStore (pt_AccessKeyID parts) of
            Inl err \<Rightarrow> Inl no_such_key_id
          | Inr cred \<Rightarrow>
            (case read_limited maxBodySize r of
               Inl err \<Rightarrow> Inl (writeAuthError ''InternalError''
                 ''Failed to read request body for signature verification.'')
             | Inr body \<Rightarrow>
               let r1 = restore_body body r;
                   sent = header_get r1 ''X-Amz-Content-Sha256'';
                   payloadHash = (if sent = [] then hashSHA256 E body else sent) in
               if sent \<noteq> [] \<and> payloadHash \<noteq> hashSHA256 E body then
                 Inl (writeAuthError ''XAmzContentSHA256Mismatch''
                   (''The provided '' @ [CHR 0x27] @ ''x-amz-content-sha256'' @ [CHR 0x27] @
                    '' header does not match the SHA256 hash of the request body.''))
               else
                 let canonicalReq = buildCanonicalRequest u r1 (pt_SignedHeaders parts) payloadHash;
                     signingKey = deriveSigningKey E (cr_SecretAccessKey cred) (pt_Date parts) (pt_Region parts)
                       (pt_Service parts);
                     computed = EncodeToString_hex (hmac E signingKey
                       (stringToSign E r1 (pt_credentialStr parts) canonicalReq)) in
                 if computed \<noteq> pt_Signature parts then
                   Inl (writeAuthError ''SignatureDoesNotMatch''
                     (''The request signature we calculated does not match the signature you provided. '' @
                      ''Check your AWS Secret Access Key and signing method.''))
                 else Inr r1))"

definition auth_check ::
  "env \<Rightarrow> (string \<Rightarrow> string) \<Rightarrow> lookup \<Rightarrow> string \<Rightarrow> request \<Rightarrow> response + request" where
  "auth_check E u credStore expectedRegion r =
     (if HasPrefix (header_get r ''Authorization'') sigV4Algorithm
      then verifySigV4 E u credStore expectedRegion r
      else verifyLegacyQuery credStore r)"

definition Auth :: "env \<Rightarrow> (string \<Rightarrow> string) \<Rightarrow> lookup option \<Rightarrow> string \<Rightarrow> 's middleware" where
  "Auth E u credStore expectedRegion next r s =
     (case credStore of
        None \<Rightarrow> next r s
      | Some get \<Rightarrow>
          (case auth_check E u get expectedRegion r of Inl refusal \<Rightarrow> (refusal, s) | Inr r' \<Rightarrow> next r' s))"

end
