(* ===== verification/AuthProperties.thy ===== *)
theory AuthProperties
  imports Auth ReceiptHandles
begin

section \<open>What authentication guarantees\<close>

text \<open>
  The encodings lose nothing (\<open>QueryUnescape_encodeURI\<close>, \<open>Split_Join\<close>), so a canonical request
  determines what was signed; a request signed by the algorithm is served; a request is served
  only for a credential of the store.
\<close>

subsection \<open>Encodings\<close>

lemma unreserved_facts:
  assumes "unreserved c"
  shows "c \<noteq> CHR ''%''" "c \<noteq> CHR ''+''" "c \<noteq> CHR ''/''" "c \<noteq> CHR 0x0A" "c \<noteq> CHR ''&''" "c \<noteq> CHR ''=''"
  using assms by (auto simp: unreserved_def between_def)

lemma percent_bytes: "c \<in> set (percent b) \<Longrightarrow> unreserved c \<or> c = CHR ''%''"
  using upper_hex_facts(2) [OF byte_div_mod(1) [of b]] upper_hex_facts(2) [OF byte_div_mod(2) [of b]]
  by (auto simp: percent_def unreserved_def between_def)

lemma encodeURI_bytes: "c \<in> set (encodeURI s) \<Longrightarrow> unreserved c \<or> c = CHR ''%''"
proof -
  have "unreserved c \<or> c = CHR ''%''" if "c \<in> set (encode_rune r)" for r
    using that percent_bytes by (cases r) (auto simp: encode_rune_def split: if_splits)
  then show "c \<in> set (encodeURI s) \<Longrightarrow> unreserved c \<or> c = CHR ''%''" by (auto simp: encodeURI_def)
qed

lemma encodeURI_clean [simp]:
  "CHR 0x0A \<notin> set (encodeURI s)" "CHR ''/'' \<notin> set (encodeURI s)"
  using encodeURI_bytes [of "CHR 0x0A" s] encodeURI_bytes [of "CHR ''/''" s] unreserved_facts by auto

lemma QueryUnescape_runes:
  "QueryUnescape (concat (map encode_rune rs) @ s) =
     (case QueryUnescape s of Inl e \<Rightarrow> Inl e | Inr x \<Rightarrow> Inr (concat rs @ x))"
proof (induction rs)
  case Nil
  then show ?case by (simp split: sum.splits)
next
  case (Cons r rs)
  show ?case
  proof (cases "length r = 1 \<and> unreserved (hd r)")
    case True
    then obtain c where "r = [c]" "unreserved c" by (cases r) auto
    then show ?thesis using Cons unreserved_facts(1,2) [of c]
      by (simp add: encode_rune_def split: sum.splits)
  next
    case False
    then have "encode_rune r = concat (map percent r)" by (auto simp: encode_rune_def)
    then show ?thesis using Cons by (simp add: QueryUnescape_percent split: sum.splits)
  qed
qed

lemma QueryUnescape_encodeURI: "QueryUnescape (encodeURI s) = Inr (concat (runes s))"
  using QueryUnescape_runes [of "runes s" "[]"] by (simp add: encodeURI_def)

lemma encodeURI_inj: "valid_utf8 s \<Longrightarrow> valid_utf8 t \<Longrightarrow> encodeURI s = encodeURI t \<Longrightarrow> s = t"
  using QueryUnescape_encodeURI [of s] QueryUnescape_encodeURI [of t] unfolding valid_utf8_def
  by (metis sum.inject(2))

lemma Join_inj:
  assumes "Join [c] ss = Join [c] ts" "ss \<noteq> []" "ts \<noteq> []" "\<forall>s \<in> set ss. c \<notin> set s" "\<forall>s \<in> set ts. c \<notin> set s"
  shows "ss = ts"
  using Split_Join [OF assms(2,4)] Split_Join [OF assms(3,5)] assms(1) by metis

lemma byte_hex_digit: "n < 16 \<Longrightarrow> byte_of (hex_digit n) = (if n < 10 then 48 + n else 87 + n)"
  by (simp add: hex_digit_def)

lemma hex_plain: "c \<in> set (EncodeToString_hex s) \<Longrightarrow> plain c \<and> c \<noteq> CHR '',''"
proof -
  have "plain (hex_digit n) \<and> hex_digit n \<noteq> CHR '',''" if "n < 16" for n
  proof -
    have "byte_of (hex_digit n) \<noteq> byte_of (CHR '','')" using byte_hex_digit [OF that] by simp
    then show ?thesis using byte_hex_digit [OF that] that by (auto simp: plain_def between_def)
  qed
  then have "plain (hex_digit (byte_of b div 16)) \<and> hex_digit (byte_of b div 16) \<noteq> CHR '',''"
    "plain (hex_digit (byte_of b mod 16)) \<and> hex_digit (byte_of b mod 16) \<noteq> CHR '',''" for b
    using byte_div_mod by blast+
  then show "c \<in> set (EncodeToString_hex s) \<Longrightarrow> plain c \<and> c \<noteq> CHR '',''"
    unfolding EncodeToString_hex_def hex_byte_def by auto
qed

lemma hex_eq: "EncodeToString_hex s = EncodeToString_hex t \<longleftrightarrow> s = t"
proof
  have digit: "m = n" if "m < 16" "n < 16" "hex_digit m = hex_digit n" for m n
  proof -
    have "(if m < 10 then 48 + m else 87 + m) = (if n < 10 then 48 + n else 87 + n)"
      using byte_hex_digit [OF that(1)] byte_hex_digit [OF that(2)] that(3) by argo
    then show ?thesis by (simp split: if_splits)
  qed
  have byte: "a = b" if "hex_byte a = hex_byte b" for a b
  proof -
    have eqs: "hex_digit (byte_of a div 16) = hex_digit (byte_of b div 16)"
      "hex_digit (byte_of a mod 16) = hex_digit (byte_of b mod 16)"
      using that unfolding hex_byte_def list.inject by blast+
    have "byte_of a div 16 = byte_of b div 16" "byte_of a mod 16 = byte_of b mod 16"
      by (rule digit [OF byte_div_mod(1) byte_div_mod(1) eqs(1)], rule digit [OF byte_div_mod(2) byte_div_mod(2) eqs(2)])
    then have "byte_of a = byte_of b" by (metis div_mult_mod_eq)
    then show ?thesis by simp
  qed
  show "EncodeToString_hex s = EncodeToString_hex t \<Longrightarrow> s = t"
  proof (induction s arbitrary: t)
    case Nil
    then show ?case by (cases t) (auto simp: EncodeToString_hex_def hex_byte_def)
  next
    case (Cons c s)
    then obtain d u where t: "t = d # u" by (cases t) (auto simp: EncodeToString_hex_def hex_byte_def)
    have "hex_byte c = hex_byte d" "EncodeToString_hex s = EncodeToString_hex u"
      using Cons.prems by (simp_all add: t EncodeToString_hex_def hex_byte_def)
    then show ?case using byte Cons.IH t by blast
  qed
qed simp

subsection \<open>The Authorization header\<close>

definition auth_header :: "string \<Rightarrow> string \<Rightarrow> string \<Rightarrow> string \<Rightarrow> string \<Rightarrow> string \<Rightarrow> string" where
  "auth_header key date region service names signature =
     sigV4Algorithm @ '' '' @ Join '',''
       [''Credential='' @ Join ''/'' [key, date, region, service, ''aws4_request''],
        '' SignedHeaders='' @ names, '' Signature='' @ signature]"

definition header_field :: "string \<Rightarrow> bool" where
  "header_field s \<longleftrightarrow> s \<noteq> [] \<and> (\<forall>c \<in> set s. plain c \<and> c \<noteq> CHR '','')"

definition scope_field :: "string \<Rightarrow> bool" where
  "scope_field s \<longleftrightarrow> header_field s \<and> CHR ''/'' \<notin> set s"

lemma header_parts_found:
  "TrimSpace p = ''Credential='' @ x \<Longrightarrow> header_parts (p # ps) (c, h, g) = header_parts ps (x, h, g)"
  "TrimSpace p = ''SignedHeaders='' @ x \<Longrightarrow> header_parts (p # ps) (c, h, g) = header_parts ps (c, x, g)"
  "TrimSpace p = ''Signature='' @ x \<Longrightarrow> header_parts (p # ps) (c, h, g) = header_parts ps (c, h, x)"
  by (simp_all add: HasPrefix_def TrimPrefix_def)

lemma parse_auth_header:
  assumes "scope_field key" "scope_field date" "scope_field region" "scope_field service"
    "header_field names" "header_field signature"
  shows "parseSigV4AuthHeader (auth_header key date region service names signature) =
    Inr \<lparr> pt_AccessKeyID = key, pt_Date = date, pt_Region = region, pt_Service = service,
      pt_SignedHeaders = names, pt_Signature = signature,
      pt_credentialStr = Join ''/'' [date, region, service, ''aws4_request''] \<rparr>"
proof -
  let ?cred = "Join ''/'' [key, date, region, service, ''aws4_request'']"
  let ?parts = "[''Credential='' @ ?cred, '' SignedHeaders='' @ names, '' Signature='' @ signature]"
  have nonempty: "names \<noteq> []" "signature \<noteq> []" and last: "plain (last names)" "plain (last signature)"
    using assms(5,6) by (auto simp: header_field_def)
  have plain: "plain (CHR ''A'')" "plain (CHR ''C'')" "plain (CHR ''S'')" "plain (CHR ''t'')"
    by (simp_all add: plain_def between_def)
  have trim: "TrimSpace (auth_header key date region service names signature) =
      auth_header key date region service names signature"
    using last nonempty plain by (intro TrimSpace_plain) (simp add: auth_header_def sigV4Algorithm_def)
  have comma_free: "CHR '','' \<notin> set x" if "header_field x" for x using that unfolding header_field_def by blast
  have comma: "Split (CHR '','') (Join '','' ?parts) = ?parts"
  proof (rule Split_Join)
    show "\<forall>s \<in> set ?parts. CHR '','' \<notin> set s" using comma_free assms by (simp add: scope_field_def)
  qed simp
  have slash: "Split (CHR ''/'') ?cred = [key, date, region, service, ''aws4_request'']"
  proof (rule Split_Join)
    show "\<forall>s \<in> set [key, date, region, service, ''aws4_request'']. CHR ''/'' \<notin> set s"
      using assms by (simp add: scope_field_def)
  qed simp
  have t1: "TrimSpace (''Credential='' @ ?cred) = ''Credential='' @ ?cred"
    using plain by (intro TrimSpace_plain) simp
  have t2: "TrimSpace ('' SignedHeaders='' @ names) = ''SignedHeaders='' @ names"
    using TrimSpace_blank [of "''SignedHeaders='' @ names"] TrimSpace_plain [of "''SignedHeaders='' @ names"]
      plain last nonempty by simp
  have t3: "TrimSpace ('' Signature='' @ signature) = ''Signature='' @ signature"
    using TrimSpace_blank [of "''Signature='' @ signature"] TrimSpace_plain [of "''Signature='' @ signature"]
      plain last nonempty by simp
  have loop: "header_parts ?parts ([], [], []) = (?cred, names, signature)"
    by (simp only: header_parts_found(1) [OF t1] header_parts_found(2) [OF t2] header_parts_found(3) [OF t3]
        header_parts.simps(1))
  have pre: "HasPrefix (auth_header key date region service names signature) (sigV4Algorithm @ '' '')"
    "TrimPrefix (auth_header key date region service names signature) (sigV4Algorithm @ '' '') = Join '','' ?parts"
    by (simp_all add: auth_header_def HasPrefix_def TrimPrefix_def sigV4Algorithm_def)
  have "?cred \<noteq> []" by simp
  then show ?thesis
    unfolding parseSigV4AuthHeader_def Let_def trim pre(2) comma loop prod.case slash
    using pre(1) nonempty by simp
qed

subsection \<open>The canonical request\<close>

definition canonical_lines :: "(string \<Rightarrow> string) \<Rightarrow> request \<Rightarrow> string \<Rightarrow> string \<Rightarrow> string list" where
  "canonical_lines u r names payload =
     rq_Method r # canonicalURIPath (rq_Path r) # canonicalQueryString (url_query r) #
     map (header_line r) (signed_names u names) @ [[], Join '';'' (signed_names u names), payload]"

lemma Join_lines:
  "Join newline (concat (map (\<lambda>n. f n @ newline) ns) # x # xs) = Join newline (map f ns @ [] # x # xs)"
  by (induction ns) (simp_all add: Join_Cons)

lemma buildCanonicalRequest_lines:
  "buildCanonicalRequest u r names payload = Join newline (canonical_lines u r names payload)"
  by (simp add: buildCanonicalRequest_def canonicalHeaders_def canonical_lines_def Join_lines [symmetric] Join_Cons)

lemma set_Join: "c \<in> set (Join sep ss) \<Longrightarrow> c \<in> set sep \<or> (\<exists>s \<in> set ss. c \<in> set s)"
  by (induction sep ss rule: Join.induct) auto

lemma canonicalURIPath_line: "CHR 0x0A \<notin> set (canonicalURIPath path)"
  using set_Join [of "CHR 0x0A" "''/''" "map encodeURI (Split (CHR ''/'') path)"]
  by (auto simp: canonicalURIPath_def)

lemma canonicalQueryString_line: "CHR 0x0A \<notin> set (canonicalQueryString values)"
proof
  assume "CHR 0x0A \<in> set (canonicalQueryString values)"
  then obtain k v where "(k, v) \<in> set (query_pairs values)" and c: "CHR 0x0A \<in> set (k @ ''='' @ v)"
    unfolding canonicalQueryString_def by (auto dest!: set_Join)
  then obtain k' v' where "k = encodeURI k'" "v = encodeURI v'" by (auto simp: query_pairs_def)
  then show False using c by simp
qed

text \<open>
  A request on single lines: the method and the signed header lines have no line break, as
  \<open>net/http\<close> lets none through, and neither have the date and the scope.
\<close>

definition single_line :: "(string \<Rightarrow> string) \<Rightarrow> sigV4Components \<Rightarrow> request \<Rightarrow> bool" where
  "single_line u p r \<longleftrightarrow>
     CHR 0x0A \<notin> set (rq_Method r) \<and> CHR 0x0A \<notin> set (amz_date r) \<and> CHR 0x0A \<notin> set (pt_credentialStr p) \<and>
     (\<forall>n \<in> set (signed_names u (pt_SignedHeaders p)). CHR 0x0A \<notin> set (header_line r n))"

lemma hex_line: "CHR 0x0A \<notin> set (EncodeToString_hex s)"
  using hex_plain [of "CHR 0x0A" s] by (auto simp: plain_def between_def)

lemma canonical_lines_clean:
  assumes "single_line u p r"
  shows "\<forall>l \<in> set (canonical_lines u r (pt_SignedHeaders p) (hashSHA256 E body)). CHR 0x0A \<notin> set l"
proof -
  have "CHR 0x0A \<notin> set n" if "n \<in> set (signed_names u (pt_SignedHeaders p))" for n
    using assms that by (auto simp: single_line_def header_line_def)
  then have "CHR 0x0A \<notin> set (Join '';'' (signed_names u (pt_SignedHeaders p)))"
    using set_Join [of "CHR 0x0A" "'';''" "signed_names u (pt_SignedHeaders p)"] by auto
  then show ?thesis using assms
    by (simp add: canonical_lines_def canonicalURIPath_line canonicalQueryString_line hashSHA256_def hex_line
        single_line_def)
qed

text \<open>Two canonical requests that are equal sign the same request.\<close>

lemma canonical_equal:
  assumes "single_line u p r" "single_line u p q"
    "buildCanonicalRequest u r (pt_SignedHeaders p) (hashSHA256 E b) =
     buildCanonicalRequest u q (pt_SignedHeaders p) (hashSHA256 E c)"
  shows "rq_Method r = rq_Method q \<and> canonicalURIPath (rq_Path r) = canonicalURIPath (rq_Path q) \<and>
    canonicalQueryString (url_query r) = canonicalQueryString (url_query q) \<and>
    map (header_line r) (signed_names u (pt_SignedHeaders p)) = map (header_line q) (signed_names u (pt_SignedHeaders p)) \<and>
    sha256 E b = sha256 E c"
proof -
  have ne: "canonical_lines u x n y \<noteq> []" for x n y by (simp add: canonical_lines_def)
  have "canonical_lines u r (pt_SignedHeaders p) (hashSHA256 E b) =
      canonical_lines u q (pt_SignedHeaders p) (hashSHA256 E c)"
    using assms(3) Join_inj [OF _ ne ne canonical_lines_clean [OF assms(1)] canonical_lines_clean [OF assms(2)]]
    by (simp add: buildCanonicalRequest_lines newline_def)
  then show ?thesis by (simp add: canonical_lines_def hashSHA256_def hex_eq)
qed

subsection \<open>What a served request proves\<close>

definition expected_canonical :: "env \<Rightarrow> (string \<Rightarrow> string) \<Rightarrow> sigV4Components \<Rightarrow> request \<Rightarrow> string" where
  "expected_canonical E u p r =
     buildCanonicalRequest u r (pt_SignedHeaders p) (hashSHA256 E (rq_Body r))"

definition signing_key :: "env \<Rightarrow> credential \<Rightarrow> sigV4Components \<Rightarrow> string" where
  "signing_key E c p = deriveSigningKey E (cr_SecretAccessKey c) (pt_Date p) (pt_Region p) (pt_Service p)"

definition expected_string :: "env \<Rightarrow> (string \<Rightarrow> string) \<Rightarrow> sigV4Components \<Rightarrow> request \<Rightarrow> string" where
  "expected_string E u p r = stringToSign E r (pt_credentialStr p) (expected_canonical E u p r)"

lemma sigv4_served_iff:
  "verifySigV4 E u get region r = Inr r' \<longleftrightarrow>
     (\<exists>p c body. parseSigV4AuthHeader (header_get r ''Authorization'') = Inr p \<and>
        pt_Service p = ''sqs'' \<and> (region = [] \<or> pt_Region p = region) \<and>
        get (pt_AccessKeyID p) = Inr c \<and> read_limited maxBodySize r = Inr body \<and> r' = restore_body body r \<and>
        header_get r ''X-Amz-Content-Sha256'' \<in> {[], hashSHA256 E body} \<and>
        pt_Signature p = EncodeToString_hex (hmac E (signing_key E c p) (expected_string E u p r')))"
  (is "?served \<longleftrightarrow> ?accepts")
proof
  show "?served \<Longrightarrow> ?accepts"
    by (auto simp: verifySigV4_def sqsServiceName_def expected_string_def expected_canonical_def signing_key_def Let_def
        split: sum.splits if_splits)
  show "?accepts \<Longrightarrow> ?served"
    by (auto simp: verifySigV4_def sqsServiceName_def expected_string_def expected_canonical_def signing_key_def Let_def)
qed

lemma stringToSign_equal:
  assumes "single_line u p r" "single_line u p q" "expected_string E u p r = expected_string E u p q"
  shows "amz_date r = amz_date q \<and> sha256 E (expected_canonical E u p r) = sha256 E (expected_canonical E u p q)"
proof -
  have clean: "\<forall>l \<in> set [sigV4Algorithm, amz_date x, pt_credentialStr p, hashSHA256 E y]. CHR 0x0A \<notin> set l"
    if "single_line u p x" for x y
    using that by (simp add: single_line_def hashSHA256_def hex_line sigV4Algorithm_def)
  from Join_inj [OF _ _ _ clean [OF assms(1)] clean [OF assms(2)]] assms(3)
  have "[sigV4Algorithm, amz_date r, pt_credentialStr p, hashSHA256 E (expected_canonical E u p r)] =
      [sigV4Algorithm, amz_date q, pt_credentialStr p, hashSHA256 E (expected_canonical E u p q)]"
    unfolding expected_string_def stringToSign_def newline_def by blast
  then show ?thesis by (simp add: hashSHA256_def hex_eq)
qed

text \<open>Two inputs of a hash that differ and have the same value.\<close>

definition collide :: "('a \<Rightarrow> 'b) \<Rightarrow> 'a \<Rightarrow> 'a \<Rightarrow> bool" where
  "collide f x y \<longleftrightarrow> x \<noteq> y \<and> f x = f y"

text \<open>
  C30.  A signature covers the request: two requests served with the same \<open>Authorization\<close> header
  have the same method, canonical path and query, the same signed headers and date, and the
  same body, unless two texts that were hashed for them collide.
\<close>

theorem sigv4_covers_request:
  assumes "verifySigV4 E u get region r = Inr r'" "verifySigV4 E u get region q = Inr q'"
    "header_get q ''Authorization'' = header_get r ''Authorization''"
    "parseSigV4AuthHeader (header_get r ''Authorization'') = Inr p"
    "single_line u p r'" "single_line u p q'"
  shows "(rq_Method r = rq_Method q \<and> canonicalURIPath (rq_Path r) = canonicalURIPath (rq_Path q) \<and>
      canonicalQueryString (url_query r) = canonicalQueryString (url_query q) \<and>
      map (header_line r') (signed_names u (pt_SignedHeaders p)) = map (header_line q') (signed_names u (pt_SignedHeaders p)) \<and>
      amz_date r = amz_date q \<and> rq_Body r' = rq_Body q') \<or>
    collide (sha256 E) (rq_Body r') (rq_Body q') \<or>
    collide (sha256 E) (expected_canonical E u p r') (expected_canonical E u p q') \<or>
    (\<exists>c. get (pt_AccessKeyID p) = Inr c \<and>
       collide (hmac E (signing_key E c p)) (expected_string E u p r') (expected_string E u p q'))"
    (is "?same \<or> ?bodies \<or> ?requests \<or> ?strings")
proof (rule ccontr)
  assume none: "\<not> (?same \<or> ?bodies \<or> ?requests \<or> ?strings)"
  obtain c body where r: "get (pt_AccessKeyID p) = Inr c" "r' = restore_body body r"
    "pt_Signature p = EncodeToString_hex (hmac E (signing_key E c p) (expected_string E u p r'))"
    using assms(1,4) unfolding sigv4_served_iff by auto
  obtain body' where q: "q' = restore_body body' q"
    "pt_Signature p = EncodeToString_hex (hmac E (signing_key E c p) (expected_string E u p q'))"
    using assms(2-4) r(1) unfolding sigv4_served_iff by auto
  have "expected_string E u p r' = expected_string E u p q'"
    using r q none unfolding collide_def by (metis hex_eq)
  note sts = stringToSign_equal [OF assms(5,6) this]
  then have "expected_canonical E u p r' = expected_canonical E u p q'"
    using none unfolding collide_def by blast
  note canon = canonical_equal [OF assms(5,6) this [unfolded expected_canonical_def]]
  then have "rq_Body r' = rq_Body q'" using none unfolding collide_def by blast
  moreover have "url_query r' = url_query r" "url_query q' = url_query q" "amz_date r' = amz_date r" "amz_date q' = amz_date q"
    by (simp_all add: r(2) q(1) url_query_def amz_date_def)
  ultimately show False using canon sts none r(2) q(1) by simp
qed

subsection \<open>Signing\<close>

text \<open>What a client sends: the request with the header that the algorithm computes.\<close>

definition sign_request ::
  "env \<Rightarrow> (string \<Rightarrow> string) \<Rightarrow> credential \<Rightarrow> string \<Rightarrow> string \<Rightarrow> string \<Rightarrow> request \<Rightarrow> request" where
  "sign_request E u c date region names r =
     (let canonical = buildCanonicalRequest u r names (hashSHA256 E (rq_Body r));
          scope = Join ''/'' [date, region, ''sqs'', ''aws4_request''];
          key = deriveSigningKey E (cr_SecretAccessKey c) date region ''sqs'';
          signature = EncodeToString_hex (hmac E key (stringToSign E r scope canonical)) in
      set_header ''Authorization'' [auth_header (cr_AccessKeyID c) date region ''sqs'' names signature] r)"

definition signable :: "env \<Rightarrow> (string \<Rightarrow> string) \<Rightarrow> credential \<Rightarrow> string \<Rightarrow> string \<Rightarrow> string \<Rightarrow> request \<Rightarrow> bool" where
  "signable E u c date region names r \<longleftrightarrow>
     scope_field (cr_AccessKeyID c) \<and> scope_field date \<and> scope_field region \<and> header_field names \<and>
     (\<forall>n \<in> set (signed_names u names). CanonicalMIMEHeaderKey n \<noteq> ''Authorization'') \<and>
     rq_BodyError r = None \<and> length (rq_Body r) \<le> maxBodySize \<and>
     header_get r ''X-Amz-Content-Sha256'' \<in> {[], hashSHA256 E (rq_Body r)}"

lemma canonical_names [simp]:
  "CanonicalMIMEHeaderKey ''Authorization'' = ''Authorization''"
  "CanonicalMIMEHeaderKey ''X-Amz-Content-Sha256'' = ''X-Amz-Content-Sha256''"
  "CanonicalMIMEHeaderKey ''X-Amz-Date'' = ''X-Amz-Date''" "CanonicalMIMEHeaderKey ''Date'' = ''Date''"
  by code_simp+

definition signature_of ::
  "env \<Rightarrow> (string \<Rightarrow> string) \<Rightarrow> credential \<Rightarrow> string \<Rightarrow> string \<Rightarrow> string \<Rightarrow> request \<Rightarrow> string" where
  "signature_of E u c date region names r =
     EncodeToString_hex (hmac E (deriveSigningKey E (cr_SecretAccessKey c) date region ''sqs'')
       (stringToSign E r (Join ''/'' [date, region, ''sqs'', ''aws4_request''])
         (buildCanonicalRequest u r names (hashSHA256 E (rq_Body r)))))"

lemma parse_signed:
  assumes "signable E u c date region names r" "\<forall>k m. hmac E k m \<noteq> []"
  shows "parseSigV4AuthHeader (header_get (sign_request E u c date region names r) ''Authorization'') =
    Inr \<lparr> pt_AccessKeyID = cr_AccessKeyID c, pt_Date = date, pt_Region = region, pt_Service = ''sqs'',
      pt_SignedHeaders = names, pt_Signature = signature_of E u c date region names r,
      pt_credentialStr = Join ''/'' [date, region, ''sqs'', ''aws4_request''] \<rparr>"
proof -
  let ?sig = "signature_of E u c date region names r"
  have "?sig \<noteq> []" using assms(2) by (simp add: signature_of_def EncodeToString_hex_def hex_byte_def)
  then have "header_field ?sig" using hex_plain unfolding header_field_def signature_of_def by blast
  moreover have "scope_field ''sqs''" by (simp add: scope_field_def header_field_def plain_def between_def)
  moreover have "header_get (sign_request E u c date region names r) ''Authorization'' =
      auth_header (cr_AccessKeyID c) date region ''sqs'' names ?sig"
    by (simp add: sign_request_def signature_of_def header_get_def header_values_set Let_def del: Join.simps)
  ultimately show ?thesis using assms(1) unfolding signable_def by (simp add: parse_auth_header del: Join.simps)
qed

lemma signed_is_served:
  assumes "get (cr_AccessKeyID c) = Inr c" "signable E u c date region names r" "\<forall>k m. hmac E k m \<noteq> []"
    "expected = [] \<or> region = expected"
  shows "verifySigV4 E u get expected (sign_request E u c date region names r) =
    Inr (sign_request E u c date region names r)"
proof -
  define s where "s = sign_request E u c date region names r"
  obtain h where s: "s = set_header ''Authorization'' h r" by (simp add: s_def sign_request_def Let_def)
  note parse = parse_signed [OF assms(2,3), folded s_def]
  have vals: "header_values s n = header_values r n" if "CanonicalMIMEHeaderKey n \<noteq> ''Authorization''" for n
    using that by (simp add: s header_values_set)
  have lines: "map (header_line s) (signed_names u names) = map (header_line r) (signed_names u names)"
  proof -
    have host: "rq_Host s = rq_Host r" by (simp add: s)
    have "header_line s n = header_line r n" if "CanonicalMIMEHeaderKey n \<noteq> ''Authorization''" for n
      unfolding header_line_def host vals [OF that] by (rule refl)
    then show ?thesis using assms(2) by (simp add: signable_def)
  qed
  have same: "rq_Method s = rq_Method r" "rq_Path s = rq_Path r" "rq_Body s = rq_Body r" "rq_BodyError s = rq_BodyError r"
    "url_query s = url_query r" "amz_date s = amz_date r"
    "header_get s ''X-Amz-Content-Sha256'' = header_get r ''X-Amz-Content-Sha256''"
    by (simp_all add: s url_query_def amz_date_def header_get_def header_values_set)
  have body: "read_limited maxBodySize s = Inr (rq_Body s)" and s_id: "restore_body (rq_Body s) s = s"
    using assms(2) by (simp_all add: signable_def read_limited_def restore_body_def same)
  have "buildCanonicalRequest u s names x = buildCanonicalRequest u r names x" for x
    unfolding buildCanonicalRequest_lines canonical_lines_def same lines by (rule refl)
  then have "verifySigV4 E u get expected s = Inr s"
    unfolding sigv4_served_iff parse using assms(1,2,4) body s_id
    by (simp add: expected_string_def expected_canonical_def signing_key_def stringToSign_def same signable_def
        signature_of_def del: Join.simps)
  then show ?thesis by (simp add: s_def)
qed



text \<open>
  A form that shows its key pair in a body longer than 1 MiB is served cut off at that length,
  where the request handler behind refuses the whole body as too large.
\<close>

theorem legacy_auth_truncates:
  assumes "\<not> HasPrefix (header_get r ''Authorization'') sigV4Algorithm" "rq_Method r = ''POST''"
    "rq_BodyError r = None" "maxBodySize < length (rq_Body r)" "values_get (url_query r) ''AWSAccessKeyId'' = []"
    "ParseQuery (take maxBodySize (rq_Body r)) = (vs, None)" "values_get vs ''AWSAccessKeyId'' = k" "k \<noteq> []"
    "get k = Inr c" "values_get vs ''AWSSecretAccessKey'' = cr_SecretAccessKey c" "cr_SecretAccessKey c \<noteq> []"
    "values_get (url_query r) ''AWSSecretAccessKey'' = []"
  shows "\<exists>r'. Auth E u (Some get) region next r s = next r' s \<and>
    read_max_bytes maxBodySize r = Inl ''http: request body too large'' \<and>
    read_max_bytes maxBodySize r' = Inr (take maxBodySize (rq_Body r))"
proof -
  let ?r = "restore_body (take maxBodySize (rq_Body r)) r"
  have "extractLegacyCredentials r = (k, cr_SecretAccessKey c, ?r)"
    using assms by (simp add: extractLegacyCredentials_def read_limited_def)
  then have "auth_check E u get region r = Inr ?r"
    using assms by (simp add: auth_check_def verifyLegacyQuery_def)
  then show ?thesis using assms(4) by (intro exI [of _ ?r]) (simp add: Auth_def read_max_bytes_def)
qed

subsection \<open>Witnesses\<close>

definition sample_user :: credential where
  "sample_user = \<lparr> cr_ID = ''1'', cr_Label = ''l'', cr_AccessKeyID = ''AKIA'', cr_SecretAccessKey = ''secret'',
     cr_Region = ''eu'', cr_AccountID = ''0'', cr_CreatedAt = 0 \<rparr>"

definition sample_get :: lookup where
  "sample_get k = (if k = ''AKIA'' then Inr sample_user else Inl (no_such_key k))"

definition sample_request :: "string \<Rightarrow> string \<Rightarrow> request" where
  "sample_request agent body = \<lparr> rq_Method = ''POST'', rq_Path = ''/0/q'', rq_RawQuery = [],
     rq_Header = [(''X-Amz-Date'', [''20260101T000000Z'']), (''User-Agent'', [agent])],
     rq_Host = ''localhost'', rq_Body = body, rq_BodyError = None \<rparr>"

abbreviation sample_names :: string where "sample_names \<equiv> ''host;x-amz-date''"

abbreviation sample_sign :: "request \<Rightarrow> request" where
  "sample_sign \<equiv> sign_request plain_env (\<lambda>r. r) sample_user ''20260101'' ''eu'' sample_names"

lemma sample_signed_names: "signed_names (\<lambda>r. r) sample_names = [''host'', ''x-amz-date'']"
  by code_simp

lemma sample_signable: "signable plain_env (\<lambda>r. r) sample_user ''20260101'' ''eu'' sample_names (sample_request a ''body'')"
proof -
  have "CanonicalMIMEHeaderKey ''host'' = ''Host''" "CanonicalMIMEHeaderKey ''x-amz-date'' = ''X-Amz-Date''"
    by code_simp+
  then show ?thesis
    by (simp add: signable_def sample_signed_names scope_field_def header_field_def plain_def between_def sample_user_def
        sample_request_def maxBodySize_def header_get_def header_values_def)
qed

lemma sample_get_user: "sample_get (cr_AccessKeyID sample_user) = Inr sample_user"
  by (simp add: sample_get_def sample_user_def)

lemma plain_hmac: "\<forall>k m. hmac plain_env k m \<noteq> []"
  by (simp add: plain_env_def)


definition prefix_env :: env where
  "prefix_env = \<lparr> sha256 = (\<lambda>s. s), hmac = (\<lambda>k d. ''k'' @ d), marshal_info = (\<lambda>i. None) \<rparr>"

lemma sigv4_covers_request_witness:
  "\<exists>r q r' q'. verifySigV4 prefix_env (\<lambda>r. r) sample_get ''eu'' r = Inr r' \<and>
     verifySigV4 prefix_env (\<lambda>r. r) sample_get ''eu'' q = Inr q' \<and> r \<noteq> q \<and> rq_Body r' = rq_Body q'"
proof -
  let ?sign = "\<lambda>a. sign_request prefix_env (\<lambda>r. r) sample_user ''20260101'' ''eu'' sample_names (sample_request a ''body'')"
  have able: "signable prefix_env (\<lambda>r. r) sample_user ''20260101'' ''eu'' sample_names (sample_request a ''body'')" for a
    using sample_signable [of a] by (simp add: signable_def sample_request_def header_get_def header_values_def)
  have served: "verifySigV4 prefix_env (\<lambda>r. r) sample_get ''eu'' (?sign a) = Inr (?sign a)" for a
    by (rule signed_is_served [where get = sample_get, OF sample_get_user able]) (simp_all add: prefix_env_def)
  have keys: "CanonicalMIMEHeaderKey ''host'' = ''Host''" "CanonicalMIMEHeaderKey ''x-amz-date'' = ''X-Amz-Date''"
    by code_simp+
  have line: "header_line (sample_request a ''body'') n = header_line (sample_request ''a'' ''body'') n"
    if "n = ''host'' \<or> n = ''x-amz-date''" for a n
    using that by (elim disjE) (simp_all add: header_line_def header_values_def keys sample_request_def)
  then have "canonical_lines (\<lambda>r. r) (sample_request ''b'' ''body'') sample_names x =
      canonical_lines (\<lambda>r. r) (sample_request ''a'' ''body'') sample_names x" for x
  proof -
    have "map (header_line (sample_request ''b'' ''body'')) [''host'', ''x-amz-date''] =
        map (header_line (sample_request ''a'' ''body'')) [''host'', ''x-amz-date'']"
      using line [of "''host''" "''b''"] line [of "''x-amz-date''" "''b''"] by simp
    moreover have "rq_Method (sample_request ''b'' b) = rq_Method (sample_request ''a'' b)"
      "rq_Path (sample_request ''b'' b) = rq_Path (sample_request ''a'' b)"
      "url_query (sample_request ''b'' b) = url_query (sample_request ''a'' b)" for b
      by (simp_all add: sample_request_def url_query_def)
    ultimately show ?thesis unfolding canonical_lines_def sample_signed_names by (simp only:)
  qed
  then have "buildCanonicalRequest (\<lambda>r. r) (sample_request ''b'' ''body'') sample_names x =
      buildCanonicalRequest (\<lambda>r. r) (sample_request ''a'' ''body'') sample_names x" for x
    by (simp add: buildCanonicalRequest_lines)
  moreover have "rq_Body (sample_request a b) = b" "amz_date (sample_request a b) = ''20260101T000000Z''" for a b
    by (simp_all add: sample_request_def amz_date_def header_get_def header_values_def)
  ultimately have auth: "header_get (?sign ''b'') ''Authorization'' = header_get (?sign ''a'') ''Authorization''"
    by (simp add: sign_request_def Let_def header_get_def header_values_set stringToSign_def del: Join.simps)
  obtain p where p: "parseSigV4AuthHeader (header_get (?sign ''a'') ''Authorization'') = Inr p"
    using served [of "''a''"] unfolding sigv4_served_iff by blast
  have single: "single_line (\<lambda>r. r) p (?sign a)" if "a = ''a'' \<or> a = ''b''" for a
  proof -
    have "\<forall>k m. hmac prefix_env k m \<noteq> []" by (simp add: prefix_env_def)
    note parse_signed [OF able [of "''a''"] this, unfolded p]
    then have "pt_credentialStr p = ''20260101/eu/sqs/aws4_request''" "pt_SignedHeaders p = sample_names"
      by auto
    moreover have "TrimSpace ''localhost'' = ''localhost''" "TrimSpace ''20260101T000000Z'' = ''20260101T000000Z''"
      by (simp_all add: TrimSpace_plain plain_def between_def)
    ultimately show ?thesis
      by (simp add: single_line_def sample_signed_names header_line_def header_values_set keys sign_request_def Let_def
          amz_date_def header_get_def del: Join.simps) (simp add: header_values_def keys sample_request_def)
  qed
  have "rq_Body (?sign ''a'') = rq_Body (?sign ''b'')"
    using sigv4_covers_request [OF served [of "''a''"] served [of "''b''"] auth p single single]
    by (auto simp: collide_def prefix_env_def)
  moreover have "?sign ''a'' \<noteq> ?sign ''b''"
    by (simp add: sign_request_def set_header_def sample_request_def Let_def)
  ultimately show ?thesis using served by blast
qed

lemma QueryUnescape_letters: "QueryUnescape (replicate n (CHR ''a'')) = Inr (replicate n (CHR ''a''))"
  by (induction n) simp_all

definition long_prefix :: string where
  "long_prefix = ''AWSAccessKeyId=AKIA&AWSSecretAccessKey=secret&''"

definition long_form :: "nat \<Rightarrow> string" where
  "long_form n = long_prefix @ replicate n (CHR ''a'')"

lemma long_form_query:
  "ParseQuery (long_form (Suc n)) =
     ([(''AWSAccessKeyId'', [''AKIA'']), (''AWSSecretAccessKey'', [''secret'']), (replicate (Suc n) (CHR ''a''), [[]])], None)"
proof -
  have "Split (CHR ''&'') (long_form (Suc n)) =
      [''AWSAccessKeyId=AKIA'', ''AWSSecretAccessKey=secret'', replicate (Suc n) (CHR ''a'')]"
    using Split_append [of "CHR ''&''" "''AWSAccessKeyId=AKIA''"] Split_append [of "CHR ''&''" "''AWSSecretAccessKey=secret''"]
      Split_no_sep [of "CHR ''&''" "replicate (Suc n) (CHR ''a'')"]
    by (simp add: long_form_def long_prefix_def)
  then show ?thesis using QueryUnescape_letters [of n]
    by (simp add: ParseQuery_def before_first_def after_first_def add_value_def)
qed

lemma legacy_auth_truncates_witness:
  "\<exists>r'. Auth plain_env (\<lambda>r. r) (Some sample_get) ''eu'' (\<lambda>r s. (writeAuthError ''none'' ''none'', s + 1))
      (sample_request ''a'' (long_form maxBodySize)) (0 :: int) = (writeAuthError ''none'' ''none'', 1) \<and>
    read_max_bytes maxBodySize r' = Inr (take maxBodySize (long_form maxBodySize))"
proof -
  let ?r = "sample_request ''a'' (long_form maxBodySize)"
  have len: "length long_prefix < maxBodySize" by (simp add: long_prefix_def maxBodySize_def)
  then obtain n where n: "maxBodySize - length long_prefix = Suc n" by (metis Suc_diff_Suc)
  have cut: "take maxBodySize (rq_Body ?r) = long_form (Suc n)"
  proof -
    have "Suc n \<le> maxBodySize" using n by simp
    then show ?thesis using len by (simp add: sample_request_def long_form_def n min_absorb1 del: replicate_Suc)
  qed
  have body: "rq_Body ?r = long_form maxBodySize" "maxBodySize < length (rq_Body ?r)"
    using len by (simp_all add: sample_request_def long_form_def long_prefix_def)
  have none: "header_get ?r ''Authorization'' = []" "url_query ?r = []" "rq_Method ?r = ''POST''" "rq_BodyError ?r = None"
    by (simp_all add: sample_request_def header_get_def header_values_def url_query_def ParseQuery_def)
  have "values_get (fst (ParseQuery (long_form (Suc n)))) ''AWSAccessKeyId'' = ''AKIA''"
    "values_get (fst (ParseQuery (long_form (Suc n)))) ''AWSSecretAccessKey'' = cr_SecretAccessKey sample_user"
    "cr_SecretAccessKey sample_user \<noteq> []" "sample_get ''AKIA'' = Inr sample_user"
    "\<not> HasPrefix (header_get ?r ''Authorization'') sigV4Algorithm"
    "ParseQuery (take maxBodySize (rq_Body ?r)) = (fst (ParseQuery (long_form (Suc n))), None)"
    unfolding cut none(1)
    by (simp_all add: long_form_query values_get_def sample_user_def sample_get_def HasPrefix_def sigV4Algorithm_def)
  note facts = this
  have url: "values_get (url_query ?r) x = []" for x by (simp add: none(2) values_get_def)
  have "''AKIA'' \<noteq> ([] :: string)" by simp
  note cuts = legacy_auth_truncates [where get = sample_get, OF facts(5) none(3,4) body(2) url facts(6,1) this facts(4,2,3) url]
  obtain r' where "Auth plain_env (\<lambda>r. r) (Some sample_get) ''eu'' (\<lambda>r s. (writeAuthError ''none'' ''none'', s + 1)) ?r
      (0 :: int) = (writeAuthError ''none'' ''none'', 0 + 1)"
    "read_max_bytes maxBodySize r' = Inr (take maxBodySize (rq_Body ?r))"
    using cuts [of plain_env "\<lambda>r. r" "''eu''" "\<lambda>r s. (writeAuthError ''none'' ''none'', s + 1)" "0 :: int"] by blast
  then show ?thesis by (auto simp: body(1))
qed

end
