(* ===== verification/RateLimiter.thy ===== *)
theory RateLimiter
  imports Http QueueManager
begin

section \<open>Middlewares and rate limits\<close>

text \<open>
  \<^verbatim>\<open>middleware/middleware.go\<close> and \<^verbatim>\<open>middleware/rate_limiter.go\<close>.  The token bucket of
  \<open>golang.org/x/time/rate\<close> is a parameter, the record \<open>limiter_ops\<close>; the map of limiters is
  a function from queue names, and the clean-up goroutine a step between two requests.
\<close>

definition Chain :: "'s middleware list \<Rightarrow> 's middleware" where
  "Chain middlewares final = foldr (\<lambda>m h. m h) middlewares final"

record 'l limiter_ops =
  NewLimiter :: 'l
  Allow :: "time \<Rightarrow> 'l \<Rightarrow> bool \<times> 'l"
  Replenished :: "time \<Rightarrow> 'l \<Rightarrow> bool"

definition too_many :: response where
  "too_many = \<lparr> rs_Status = 429, rs_Header = [(''Retry-After'', ''1'')], rs_Body = [] \<rparr>"

definition GlobalRateLimiter :: "'l limiter_ops \<Rightarrow> time \<Rightarrow> 's handler \<Rightarrow> ('l \<times> 's) handler" where
  "GlobalRateLimiter L now next r = (\<lambda>(l, s).
     let (allowed, l') = Allow L now l in
     if \<not> allowed then (too_many, l', s) else let (resp, s') = next r s in (resp, l', s'))"

definition ExtractQueueName :: "string \<Rightarrow> string" where
  "ExtractQueueName path =
     (let parts = Split (CHR ''/'') (TrimPrefix (before_first (CHR ''?'') path) ''/'') in
      if length parts < 2 then [] else parts ! 1)"

type_synonym 'l limiters = "string \<Rightarrow> 'l option"

definition getLimiter :: "'l limiter_ops \<Rightarrow> string \<Rightarrow> 'l limiters \<Rightarrow> 'l" where
  "getLimiter L queueName m = (case m queueName of None \<Rightarrow> NewLimiter L | Some l \<Rightarrow> l)"

definition allow_path :: "'l limiter_ops \<Rightarrow> time \<Rightarrow> string \<Rightarrow> 'l limiters \<Rightarrow> bool \<times> 'l limiters" where
  "allow_path L now path m =
     (let queueName = ExtractQueueName path in
      if queueName = [] then (True, m)
      else let (allowed, l) = Allow L now (getLimiter L queueName m) in (allowed, m(queueName \<mapsto> l)))"

definition PerQueueRateLimiter :: "'l limiter_ops \<Rightarrow> time \<Rightarrow> 's handler \<Rightarrow> ('l limiters \<times> 's) handler" where
  "PerQueueRateLimiter L now next r = (\<lambda>(m, s).
     let (allowed, m') = allow_path L now (rq_Path r) m in
     if \<not> allowed then (too_many, m', s) else let (resp, s') = next r s in (resp, m', s'))"

text \<open>One tick of the clean-up goroutine.\<close>

definition drop_idle :: "'l limiter_ops \<Rightarrow> time \<Rightarrow> 'l limiters \<Rightarrow> 'l limiters" where
  "drop_idle L now m = (\<lambda>name. case m name of
     None \<Rightarrow> None | Some l \<Rightarrow> if Replenished L now l then None else Some l)"

subsection \<open>Each queue has a bucket of its own\<close>

datatype rate_event = Arrival time string | Tick time

primrec event_time :: "rate_event \<Rightarrow> time" where
  "event_time (Arrival t path) = t"
| "event_time (Tick t) = t"

text \<open>The answers to the requests for one queue, in a sequence of requests and clean-ups.\<close>

fun decisions :: "'l limiter_ops \<Rightarrow> string \<Rightarrow> rate_event list \<Rightarrow> 'l limiters \<Rightarrow> bool list" where
  "decisions L q [] m = []"
| "decisions L q (Arrival t path # es) m =
     (let (allowed, m') = allow_path L t path m in
      (if ExtractQueueName path = q then [allowed] else []) @ decisions L q es m')"
| "decisions L q (Tick t # es) m = decisions L q es (drop_idle L t m)"

fun bucket :: "'l limiter_ops \<Rightarrow> time list \<Rightarrow> 'l \<Rightarrow> bool list" where
  "bucket L [] l = []"
| "bucket L (t # ts) l = (let (allowed, l') = Allow L t l in allowed # bucket L ts l')"

fun arrivals :: "string \<Rightarrow> rate_event list \<Rightarrow> time list" where
  "arrivals q [] = []"
| "arrivals q (Arrival t path # es) = (if ExtractQueueName path = q then [t] else []) @ arrivals q es"
| "arrivals q (Tick t # es) = arrivals q es"

text \<open>What \<open>rate\<close> documents of a bucket that has all its tokens: it answers as a new one.\<close>

definition full_is_new :: "'l limiter_ops \<Rightarrow> bool" where
  "full_is_new L \<longleftrightarrow> (\<forall>t l ts. Replenished L t l \<longrightarrow> sorted (t # ts) \<longrightarrow> bucket L ts l = bucket L ts (NewLimiter L))"

lemma arrivals_later: "\<forall>e \<in> set es. t \<le> event_time e \<Longrightarrow> \<forall>u \<in> set (arrivals q es). t \<le> u"
  by (induction q es rule: arrivals.induct) auto

lemma arrivals_sorted: "sorted (map event_time es) \<Longrightarrow> sorted (arrivals q es)"
proof (induction q es rule: arrivals.induct)
  case (2 q t path es)
  then show ?case using arrivals_later [of es t q] by auto
qed auto

lemma decisions_bucket:
  assumes "full_is_new L" "sorted (map event_time es)" "q \<noteq> []"
  shows "decisions L q es m = bucket L (arrivals q es) (getLimiter L q m)"
  using assms(2)
proof (induction es arbitrary: m)
  case (Cons e es)
  then have IH: "decisions L q es m = bucket L (arrivals q es) (getLimiter L q m)" for m by simp
  show ?case
  proof (cases e)
    case (Arrival t path)
    then show ?thesis using assms(3) by (simp add: IH allow_path_def getLimiter_def split_beta Let_def)
  next
    case (Tick t)
    have sorted: "sorted (t # arrivals q es)"
      using Cons.prems Tick arrivals_later [of es t q] arrivals_sorted [of es q] by auto
    show ?thesis
    proof (cases "\<exists>l. m q = Some l \<and> Replenished L t l")
      case True
      then obtain l where l: "m q = Some l" "Replenished L t l" by blast
      then have "bucket L (arrivals q es) l = bucket L (arrivals q es) (NewLimiter L)"
        using assms(1) sorted unfolding full_is_new_def by blast
      then show ?thesis using l Tick by (simp add: IH getLimiter_def drop_idle_def)
    next
      case False
      then show ?thesis using Tick by (simp add: IH getLimiter_def drop_idle_def split: option.splits)
    qed
  qed
qed simp


subsection \<open>The path of a queue\<close>

lemma Split_head: "c \<notin> set s \<Longrightarrow> Split c (s @ c # t) = s # Split c t"
  by (induction s) auto

lemma Split_free: "c \<notin> set s \<Longrightarrow> Split c s = [s]"
  by (induction s) auto

lemma ExtractQueueName_path:
  assumes "CHR ''/'' \<notin> set account" "CHR ''/'' \<notin> set name" "CHR ''?'' \<notin> set (account @ name)"
  shows "ExtractQueueName (''/'' @ account @ ''/'' @ name) = name"
proof -
  have "before_first (CHR ''?'') (''/'' @ account @ ''/'' @ name) = ''/'' @ account @ ''/'' @ name"
    using assms(3) by (auto simp: before_first_def takeWhile_eq_all_conv)
  then show ?thesis using assms
    by (simp add: ExtractQueueName_def TrimPrefix_def HasPrefix_def Split_head Split_free)
qed

subsection \<open>Witness\<close>

text \<open>A token bucket in whole tokens: \<open>burst\<close> of them, one more every \<open>period\<close>.\<close>

definition sample_level :: "(time \<times> int) option \<Rightarrow> time \<Rightarrow> int" where
  "sample_level l t = (case l of None \<Rightarrow> 2 | Some (seen, n) \<Rightarrow> min 2 (n + (t - seen)))"

definition sample_limiter :: "(time \<times> int) option limiter_ops" where
  "sample_limiter = \<lparr> NewLimiter = None,
     Allow = (\<lambda>t l. if 1 \<le> sample_level l t then (True, Some (t, sample_level l t - 1))
       else (False, Some (t, sample_level l t))),
     Replenished = (\<lambda>t l. 2 \<le> sample_level l t) \<rparr>"

lemma sample_full_is_new: "full_is_new sample_limiter"
  unfolding full_is_new_def
proof (intro allI impI)
  fix t l ts assume full: "Replenished sample_limiter t l" and ts: "sorted (t # ts)"
  show "bucket sample_limiter ts l = bucket sample_limiter ts (NewLimiter sample_limiter)"
  proof (cases ts)
    case (Cons u us)
    then have "sample_level l u = 2" using full ts by (auto simp: sample_limiter_def sample_level_def split: option.splits)
    then show ?thesis using Cons by (simp add: sample_limiter_def) (simp add: sample_level_def)
  qed simp
qed


end
