(* ===== verification/Requests.thy ===== *)
theory Requests
  imports Http StoreCommon "HOL-Library.AList"
begin

section \<open>Requests of the two protocols\<close>

text \<open>
  \<^verbatim>\<open>protocol/query.go\<close>, \<^verbatim>\<open>protocol/json.go\<close>, the two adapters and the interface \<open>Request\<close> of
  \<^verbatim>\<open>handlers/handler.go\<close>: what a handler asks of a request is the record \<open>action_request\<close>,
  one field per getter, and an adapter is a function to it.  Go ranges over a map in no order;
  the model ranges over its list.  \<open>json.Unmarshal\<close> is a parameter with the values it can
  give, a number as \<open>int\<close> converts it.
\<close>

subsection \<open>Base64\<close>

text \<open>\<open>StdEncoding.DecodeString\<close>, of which the callers use the result or drop the error.\<close>

definition base64_digit :: "char \<Rightarrow> nat option" where
  "base64_digit c =
     (if between 65 90 c then Some (byte_of c - 65)
      else if between 97 122 c then Some (byte_of c - 71)
      else if between 48 57 c then Some (byte_of c + 4)
      else if c = CHR ''+'' then Some 62 else if c = CHR ''/'' then Some 63 else None)"

fun decode_quads :: "string \<Rightarrow> string option" where
  "decode_quads [] = Some []"
| "decode_quads (a # b # c # d # rest) =
     (case (base64_digit a, base64_digit b) of
        (Some w, Some x) \<Rightarrow>
          (if d = CHR ''='' then
             if rest \<noteq> [] then None
             else if c = CHR ''='' then Some [char_of (w * 4 + x div 16)]
             else (case base64_digit c of
                     None \<Rightarrow> None
                   | Some y \<Rightarrow> Some [char_of (w * 4 + x div 16), char_of (x mod 16 * 16 + y div 4)])
           else
             (case (base64_digit c, base64_digit d, decode_quads rest) of
                (Some y, Some z, Some t) \<Rightarrow>
                  Some (char_of (w * 4 + x div 16) # char_of (x mod 16 * 16 + y div 4) # char_of (y mod 4 * 64 + z) # t)
              | _ \<Rightarrow> None))
      | _ \<Rightarrow> None)"
| "decode_quads _ = None"

definition base64_decode :: "string \<Rightarrow> string option" where
  "base64_decode s = decode_quads (filter (\<lambda>c. c \<noteq> CHR 0x0A \<and> c \<noteq> CHR 0x0D) s)"

definition decoded_binary :: "string \<Rightarrow> string" where
  "decoded_binary s = (case base64_decode s of None \<Rightarrow> [] | Some b \<Rightarrow> b)"

subsection \<open>What a handler asks of a request\<close>

record batch_entry =
  be_ID :: string
  be_MessageBody :: string
  be_DelaySeconds :: int
  be_ReceiptHandle :: string
  be_VisibilityTimeout :: int
  be_MessageAttributes :: "message_attribute gomap"
  be_MessageDeduplicationID :: string
  be_MessageGroupID :: string
  be_MessageSystemAttributes :: "message_attribute gomap"

record action_request =
  ar_Action :: string
  ar_QueueURL :: string
  ar_QueueName :: string
  ar_MessageBody :: string
  ar_DelaySeconds :: int
  ar_VisibilityTimeout :: int
  ar_MaxNumberOfMessages :: int
  ar_WaitTimeSeconds :: int
  ar_ReceiptHandle :: string
  ar_Prefix :: string
  ar_AttributeNames :: "string list"
  ar_MessageAttributes :: "message_attribute gomap"
  ar_MessageAttributeNames :: "string list"
  ar_Attributes :: "string gomap"
  ar_BatchEntries :: "batch_entry list"
  ar_Tags :: "string gomap"
  ar_TagKeys :: "string list"
  ar_MessageDeduplicationID :: string
  ar_MessageGroupID :: string
  ar_MessageSystemAttributes :: "message_attribute gomap"
  ar_SourceArn :: string
  ar_DestinationArn :: string
  ar_TaskHandle :: string
  ar_MaxNumberOfMessagesPerSecond :: int

subsection \<open>The Query protocol\<close>

text \<open>Both forms of indexed attributes collect these parts, from keys like \<open>...N.Value.DataType\<close>.\<close>

record attr_parts =
  ap_name :: string
  ap_dataType :: string
  ap_stringValue :: string
  ap_binaryValue :: string

definition no_parts :: attr_parts where
  "no_parts = \<lparr> ap_name = [], ap_dataType = [], ap_stringValue = [], ap_binaryValue = [] \<rparr>"

fun set_part :: "string list \<Rightarrow> string \<Rightarrow> attr_parts \<Rightarrow> attr_parts" where
  "set_part (f # fs) value e =
     (if f = ''Name'' then e\<lparr> ap_name := value \<rparr>
      else if f = ''Value'' then
        (case fs of
           [] \<Rightarrow> e
         | g # gs \<Rightarrow>
             if g = ''DataType'' then e\<lparr> ap_dataType := value \<rparr>
             else if g = ''StringValue'' then e\<lparr> ap_stringValue := value \<rparr>
             else if g = ''BinaryValue'' then e\<lparr> ap_binaryValue := value \<rparr> else e)
      else e)"
| "set_part [] value e = e"

record attr_input =
  ai_DataType :: string
  ai_StringValue :: string
  ai_BinaryValue :: string

record query_entry =
  qe_ID :: string
  qe_MessageBody :: string
  qe_DelaySeconds :: int
  qe_ReceiptHandle :: string
  qe_VisibilityTimeout :: int
  qe_MessageAttributes :: "attr_input gomap"
  qe_MessageDeduplicationID :: string
  qe_MessageGroupID :: string
  qe_MessageSystemAttributes :: "message_attribute gomap"

definition no_entry :: query_entry where
  "no_entry = \<lparr> qe_ID = [], qe_MessageBody = [], qe_DelaySeconds = 0, qe_ReceiptHandle = [],
     qe_VisibilityTimeout = 0, qe_MessageAttributes = [], qe_MessageDeduplicationID = [],
     qe_MessageGroupID = [], qe_MessageSystemAttributes = [] \<rparr>"

record query_request =
  qr_Action :: string
  qr_Params :: "string list gomap"
  qr_Attributes :: "string gomap"
  qr_BatchEntries :: "query_entry list"

definition maxAttributeParams :: nat where
  "maxAttributeParams = 20"

definition upto_nat :: "nat \<Rightarrow> string list" where
  "upto_nat n = map (\<lambda>i. itoa (int i)) [1 ..< Suc n]"

definition lower_name :: "string \<Rightarrow> string" where
  "lower_name = ToLower (\<lambda>r. r)"

definition reserved_params :: "string list" where
  "reserved_params =
     [''Action'', ''action'', ''Version'', ''version'', ''QueueUrl'', ''queueUrl'', ''QueueName'', ''queueName'',
      ''MessageBody'', ''messageBody'', ''DelaySeconds'', ''delaySeconds'', ''VisibilityTimeout'',
      ''visibilityTimeout'', ''MaxNumberOfMessages'', ''maxNumberOfMessages'', ''WaitTimeSeconds'',
      ''waitTimeSeconds'', ''ReceiptHandle'', ''receiptHandle'', ''AttributeName'', ''attributeName'',
      ''MessageAttributeName'', ''messageAttributeName'', ''Attribute'', ''attribute'', ''TagKey'', ''tagKey'',
      ''TagValue'', ''tagValue'', ''Prefix'', ''prefix'', ''NextToken'', ''nextToken'', ''MaxResults'', ''maxResults'',
      ''MessageDeduplicationId'', ''messageDeduplicationId'', ''MessageGroupId'', ''messageGroupId'',
      ''MessageSystemAttribute'', ''messageSystemAttribute'']"

definition isReservedQueryParam :: "string \<Rightarrow> bool" where
  "isReservedQueryParam key \<longleftrightarrow> key \<in> set reserved_params"

definition isKnownParam :: "string \<Rightarrow> bool" where
  "isKnownParam key \<longleftrightarrow> isReservedQueryParam key \<or> CHR ''.'' \<in> set key \<or> HasPrefix key ''AWS'' \<or> HasPrefix key ''X-Amz''"

definition isBatchEntryPrefix :: "string \<Rightarrow> bool" where
  "isBatchEntryPrefix p \<longleftrightarrow> p \<in> {''SendMessageBatchRequestEntry'', ''DeleteMessageBatchRequestEntry'',
     ''ChangeMessageVisibilityBatchRequestEntry''}"

definition indexed_attributes :: "string list gomap \<Rightarrow> string gomap" where
  "indexed_attributes values =
     fold (\<lambda>i attrs.
         let name = values_get values (''Attribute.'' @ i @ ''.Name'');
             value = values_get values (''Attribute.'' @ i @ ''.Value'')
         in if name \<noteq> [] then AList.update name value attrs else attrs)
       (upto_nat maxAttributeParams) []"

definition parseQueryAttributes :: "string list gomap \<Rightarrow> string gomap" where
  "parseQueryAttributes values =
     fold (\<lambda>(key, vals) attrs.
         if vals = [] \<or> isReservedQueryParam key then attrs
         else if CHR ''.'' \<notin> set key \<and> \<not> isKnownParam key then AList.update key (hd vals) attrs
         else attrs)
       values (indexed_attributes values)"

text \<open>One parameter of a batch: the entries read so far, each with the parts of its attributes.\<close>

type_synonym raw_entries = "(int \<times> query_entry \<times> (int \<times> attr_parts) list) list"

definition set_field :: "string list \<Rightarrow> string \<Rightarrow> query_entry \<times> (int \<times> attr_parts) list
    \<Rightarrow> query_entry \<times> (int \<times> attr_parts) list" where
  "set_field parts value = (\<lambda>(e, ms).
     let field = parts ! 2 in
     if field = ''Id'' then (e\<lparr> qe_ID := value \<rparr>, ms)
     else if field = ''MessageBody'' then (e\<lparr> qe_MessageBody := value \<rparr>, ms)
     else if field = ''DelaySeconds'' then (e\<lparr> qe_DelaySeconds := fst (Atoi value) \<rparr>, ms)
     else if field = ''MessageDeduplicationId'' then (e\<lparr> qe_MessageDeduplicationID := value \<rparr>, ms)
     else if field = ''MessageGroupId'' then (e\<lparr> qe_MessageGroupID := value \<rparr>, ms)
     else if field = ''ReceiptHandle'' then (e\<lparr> qe_ReceiptHandle := value \<rparr>, ms)
     else if field = ''VisibilityTimeout'' then (e\<lparr> qe_VisibilityTimeout := fst (Atoi value) \<rparr>, ms)
     else if field = ''MessageAttribute'' \<and> 5 \<le> length parts then
       (case Atoi (parts ! 3) of
          (attrIdx, NumOK) \<Rightarrow>
            (let a = (case map_of ms attrIdx of None \<Rightarrow> no_parts | Some a \<Rightarrow> a)
             in (e, AList.update attrIdx (set_part (drop 4 parts) value a) ms))
        | _ \<Rightarrow> (e, ms))
     else (e, ms))"

definition batch_param :: "string \<times> string list \<Rightarrow> raw_entries \<Rightarrow> raw_entries" where
  "batch_param = (\<lambda>(key, vals) entries.
     let parts = Split (CHR ''.'') key in
     if vals = [] \<or> length parts < 3 then entries
     else
       case Atoi (parts ! 1) of
         (idx, NumOK) \<Rightarrow>
           if \<not> isBatchEntryPrefix (parts ! 0) then entries
           else
             let entry = (case map_of entries idx of None \<Rightarrow> (no_entry, []) | Some e \<Rightarrow> e)
             in AList.update idx (set_field parts (hd vals) entry) entries
       | _ \<Rightarrow> entries)"

definition parts_at :: "(int \<times> attr_parts) list \<Rightarrow> attr_parts list" where
  "parts_at ms = filter (\<lambda>a. ap_name a \<noteq> [] \<and> ap_dataType a \<noteq> [])
     (List.map_filter (\<lambda>i. map_of ms (int i)) [1 ..< Suc (length ms)])"

definition with_attributes :: "query_entry \<times> (int \<times> attr_parts) list \<Rightarrow> query_entry" where
  "with_attributes = (\<lambda>(e, ms). e\<lparr> qe_MessageAttributes :=
     fold (\<lambda>a. AList.update (ap_name a) \<lparr> ai_DataType = ap_dataType a, ai_StringValue = ap_stringValue a,
         ai_BinaryValue = ap_binaryValue a \<rparr>) (parts_at ms) (qe_MessageAttributes e) \<rparr>)"

definition parseBatchEntries :: "string list gomap \<Rightarrow> query_entry list" where
  "parseBatchEntries values =
     map (\<lambda>(i, e). with_attributes e) (sort_key fst (fold batch_param values []))"

definition ParseQueryRequest :: "string \<Rightarrow> string + query_request" where
  "ParseQueryRequest body =
     (case ParseQuery body of
        (values, Some err) \<Rightarrow> Inl (''failed to parse query body: '' @ err)
      | (values, None) \<Rightarrow>
          let action = (if values_get values ''Action'' = [] then values_get values ''action''
                        else values_get values ''Action'')
          in Inr \<lparr> qr_Action = action, qr_Params = values, qr_Attributes = parseQueryAttributes values,
               qr_BatchEntries = parseBatchEntries values \<rparr>)"

definition GetParam :: "query_request \<Rightarrow> string \<Rightarrow> string" where
  "GetParam r name =
     (if values_get (qr_Params r) name \<noteq> [] then values_get (qr_Params r) name
      else values_get (qr_Params r) (lower_name name))"

definition query_int :: "query_request \<Rightarrow> string \<Rightarrow> int \<Rightarrow> int" where
  "query_int r name dflt =
     (if GetParam r name = [] then dflt else fst (Atoi (GetParam r name)))"

definition indexed_names :: "query_request \<Rightarrow> string \<Rightarrow> nat \<Rightarrow> string list" where
  "indexed_names r name n =
     filter (\<lambda>v. v \<noteq> []) (map (\<lambda>i. values_get (qr_Params r) (name @ ''.'' @ i)) (upto_nat n))"

definition query_AttributeNames :: "query_request \<Rightarrow> string list" where
  "query_AttributeNames r =
     indexed_names r ''AttributeName'' maxAttributeParams @
     (let v = values_get (qr_Params r) ''AttributeName'' in if v \<noteq> [] then [v] else [])"

definition query_MessageAttributeNames :: "query_request \<Rightarrow> string list" where
  "query_MessageAttributeNames r =
     indexed_names r ''MessageAttributeName'' maxAttributeParams @
     (let v = values_get (qr_Params r) ''MessageAttributeName'' in if v \<noteq> [] then [v] else [])"

definition query_TagKeys :: "query_request \<Rightarrow> string list" where
  "query_TagKeys r = indexed_names r ''TagKey'' 50"

definition query_Tags :: "query_request \<Rightarrow> string gomap" where
  "query_Tags r =
     fold (\<lambda>i tags.
         let key = values_get (qr_Params r) (''Tag.'' @ i @ ''.Key'');
             value = values_get (qr_Params r) (''Tag.'' @ i @ ''.Value'')
         in if key \<noteq> [] then AList.update key value tags else tags)
       (upto_nat 50) []"

definition attr_param :: "string \<Rightarrow> string \<times> string list \<Rightarrow> (int \<times> attr_parts) list \<Rightarrow> (int \<times> attr_parts) list" where
  "attr_param p = (\<lambda>(key, vals) ms.
     let segments = Split (CHR ''.'') key in
     if vals = [] \<or> \<not> HasPrefix key p \<or> length segments < 3 then ms
     else
       case Atoi (segments ! 1) of
         (idx, NumOK) \<Rightarrow>
           (let a = (case map_of ms idx of None \<Rightarrow> no_parts | Some a \<Rightarrow> a)
            in AList.update idx (set_part (drop 2 segments) (hd vals) a) ms)
       | _ \<Rightarrow> ms)"

definition parseQueryAttrs :: "string list gomap \<Rightarrow> string \<Rightarrow> (int \<times> attr_parts) list" where
  "parseQueryAttrs values p = fold (attr_param p) values []"

definition buildMessageAttributes :: "(int \<times> attr_parts) list \<Rightarrow> message_attribute gomap" where
  "buildMessageAttributes ms =
     fold (\<lambda>a. AList.update (ap_name a) \<lparr> DataType = ap_dataType a, StringValue = ap_stringValue a,
         BinaryValue = decoded_binary (ap_binaryValue a) \<rparr>) (parts_at ms) []"

text \<open>\<open>buildMessageSystemAttributes\<close> has the same body over a struct with the same fields.\<close>

definition buildMessageSystemAttributes :: "(int \<times> attr_parts) list \<Rightarrow> message_attribute gomap" where
  "buildMessageSystemAttributes ms =
     fold (\<lambda>a. AList.update (ap_name a) \<lparr> DataType = ap_dataType a, StringValue = ap_stringValue a,
         BinaryValue = decoded_binary (ap_binaryValue a) \<rparr>) (parts_at ms) []"

definition convertQueryMsgAttrs :: "attr_input gomap \<Rightarrow> message_attribute gomap" where
  "convertQueryMsgAttrs = map (\<lambda>(name, a). (name, \<lparr> DataType = ai_DataType a, StringValue = ai_StringValue a,
     BinaryValue = decoded_binary (ai_BinaryValue a) \<rparr>))"

definition query_batch_entries :: "query_request \<Rightarrow> batch_entry list" where
  "query_batch_entries r = map (\<lambda>e.
     \<lparr> be_ID = qe_ID e, be_MessageBody = qe_MessageBody e, be_DelaySeconds = qe_DelaySeconds e,
       be_ReceiptHandle = qe_ReceiptHandle e, be_VisibilityTimeout = qe_VisibilityTimeout e,
       be_MessageAttributes = convertQueryMsgAttrs (qe_MessageAttributes e),
       be_MessageDeduplicationID = qe_MessageDeduplicationID e, be_MessageGroupID = qe_MessageGroupID e,
       be_MessageSystemAttributes = qe_MessageSystemAttributes e \<rparr>) (qr_BatchEntries r)"

text \<open>The getters, one by one, and the adapter that passes them on.\<close>

definition query_QueueURL :: "query_request \<Rightarrow> string" where
  [simp]: "query_QueueURL r = GetParam r ''QueueUrl''"

definition query_QueueName :: "query_request \<Rightarrow> string" where
  [simp]: "query_QueueName r = GetParam r ''QueueName''"

definition query_MessageBody :: "query_request \<Rightarrow> string" where
  [simp]: "query_MessageBody r = GetParam r ''MessageBody''"

definition query_ReceiptHandle :: "query_request \<Rightarrow> string" where
  [simp]: "query_ReceiptHandle r = GetParam r ''ReceiptHandle''"

definition query_Prefix :: "query_request \<Rightarrow> string" where
  [simp]: "query_Prefix r = GetParam r ''Prefix''"

definition query_MessageDeduplicationId :: "query_request \<Rightarrow> string" where
  [simp]: "query_MessageDeduplicationId r = GetParam r ''MessageDeduplicationId''"

definition query_MessageGroupId :: "query_request \<Rightarrow> string" where
  [simp]: "query_MessageGroupId r = GetParam r ''MessageGroupId''"

definition query_SourceArn :: "query_request \<Rightarrow> string" where
  [simp]: "query_SourceArn r = GetParam r ''SourceArn''"

definition query_DestinationArn :: "query_request \<Rightarrow> string" where
  [simp]: "query_DestinationArn r = GetParam r ''DestinationArn''"

definition query_TaskHandle :: "query_request \<Rightarrow> string" where
  [simp]: "query_TaskHandle r = GetParam r ''TaskHandle''"

definition query_DelaySeconds :: "query_request \<Rightarrow> int" where
  [simp]: "query_DelaySeconds r = query_int r ''DelaySeconds'' 0"

definition query_VisibilityTimeout :: "query_request \<Rightarrow> int" where
  [simp]: "query_VisibilityTimeout r = query_int r ''VisibilityTimeout'' (- 1)"

definition query_MaxNumberOfMessages :: "query_request \<Rightarrow> int" where
  [simp]: "query_MaxNumberOfMessages r = query_int r ''MaxNumberOfMessages'' 1"

definition query_WaitTimeSeconds :: "query_request \<Rightarrow> int" where
  [simp]: "query_WaitTimeSeconds r = query_int r ''WaitTimeSeconds'' (- 1)"

definition query_MaxNumberOfMessagesPerSecond :: "query_request \<Rightarrow> int" where
  [simp]: "query_MaxNumberOfMessagesPerSecond r = query_int r ''MaxNumberOfMessagesPerSecond'' 0"

definition query_MessageAttributes :: "query_request \<Rightarrow> message_attribute gomap" where
  [simp]: "query_MessageAttributes r =
     buildMessageAttributes (parseQueryAttrs (qr_Params r) ''MessageAttribute.'')"

definition query_MessageSystemAttributes :: "query_request \<Rightarrow> message_attribute gomap" where
  [simp]: "query_MessageSystemAttributes r =
     buildMessageSystemAttributes (parseQueryAttrs (qr_Params r) ''MessageSystemAttribute.'')"

definition QueryRequestAdapter :: "query_request \<Rightarrow> action_request" where
  "QueryRequestAdapter r =
     \<lparr> ar_Action = qr_Action r, ar_QueueURL = query_QueueURL r,
       ar_QueueName = query_QueueName r, ar_MessageBody = query_MessageBody r,
       ar_DelaySeconds = query_DelaySeconds r, ar_VisibilityTimeout = query_VisibilityTimeout r,
       ar_MaxNumberOfMessages = query_MaxNumberOfMessages r, ar_WaitTimeSeconds = query_WaitTimeSeconds r,
       ar_ReceiptHandle = query_ReceiptHandle r, ar_Prefix = query_Prefix r,
       ar_AttributeNames = query_AttributeNames r, ar_MessageAttributes = query_MessageAttributes r,
       ar_MessageAttributeNames = query_MessageAttributeNames r, ar_Attributes = qr_Attributes r,
       ar_BatchEntries = query_batch_entries r, ar_Tags = query_Tags r,
       ar_TagKeys = query_TagKeys r, ar_MessageDeduplicationID = query_MessageDeduplicationId r,
       ar_MessageGroupID = query_MessageGroupId r, ar_MessageSystemAttributes = query_MessageSystemAttributes r,
       ar_SourceArn = query_SourceArn r, ar_DestinationArn = query_DestinationArn r,
       ar_TaskHandle = query_TaskHandle r, ar_MaxNumberOfMessagesPerSecond = query_MaxNumberOfMessagesPerSecond r \<rparr>"

subsection \<open>The JSON protocol\<close>

datatype json =
    JNull
  | JBool bool
  | JNumber int
  | JString string
  | JArray "json list"
  | JObject "json gomap"

record json_request =
  jr_Action :: string
  jr_Body :: "json gomap"

definition extractActionFromTarget :: "string \<Rightarrow> string" where
  "extractActionFromTarget target = after_last (CHR ''.'') target"

definition ParseJSONRequest ::
  "(string \<Rightarrow> string + json gomap) \<Rightarrow> string \<Rightarrow> string \<Rightarrow> string + json_request" where
  "ParseJSONRequest unmarshal targetHeader body =
     (let action = extractActionFromTarget targetHeader in
      if body = [] then Inr \<lparr> jr_Action = action, jr_Body = [] \<rparr>
      else case unmarshal body of
             Inl err \<Rightarrow> Inl (''failed to parse JSON body: '' @ err)
           | Inr m \<Rightarrow> Inr \<lparr> jr_Action = action, jr_Body = m \<rparr>)"

text \<open>A field of a JSON object when it has the type that is asked for.\<close>

definition json_string :: "json gomap \<Rightarrow> string \<Rightarrow> string" where
  "json_string m key = (case map_of m key of Some (JString s) \<Rightarrow> s | _ \<Rightarrow> [])"

definition json_int :: "json gomap \<Rightarrow> string \<Rightarrow> int" where
  "json_int m key = (case map_of m key of Some (JNumber n) \<Rightarrow> n | _ \<Rightarrow> 0)"

definition json_int_or :: "json gomap \<Rightarrow> string \<Rightarrow> int \<Rightarrow> int" where
  "json_int_or m key dflt = (if map_of m key = None then dflt else json_int m key)"

definition json_object :: "json gomap \<Rightarrow> string \<Rightarrow> json gomap" where
  "json_object m key = (case map_of m key of Some (JObject o') \<Rightarrow> o' | _ \<Rightarrow> [])"

definition json_array :: "json gomap \<Rightarrow> string \<Rightarrow> json list" where
  "json_array m key = (case map_of m key of Some (JArray a) \<Rightarrow> a | _ \<Rightarrow> [])"

definition strings_of :: "json list \<Rightarrow> string list" where
  "strings_of = List.map_filter (\<lambda>v. case v of JString s \<Rightarrow> Some s | _ \<Rightarrow> None)"

definition string_fields :: "json gomap \<Rightarrow> string gomap" where
  "string_fields = List.map_filter (\<lambda>(k, v). case v of JString s \<Rightarrow> Some (k, s) | _ \<Rightarrow> None)"

definition json_attribute :: "json gomap \<Rightarrow> message_attribute" where
  "json_attribute m = \<lparr> DataType = json_string m ''DataType'', StringValue = json_string m ''StringValue'',
     BinaryValue = decoded_binary (json_string m ''BinaryValue'') \<rparr>"

definition parseSystemAttrsFromMap :: "json gomap \<Rightarrow> message_attribute gomap" where
  "parseSystemAttrsFromMap =
     List.map_filter (\<lambda>(name, v). case v of JObject m \<Rightarrow> Some (name, json_attribute m) | _ \<Rightarrow> None)"

definition json_MessageAttributes :: "json_request \<Rightarrow> message_attribute gomap" where
  "json_MessageAttributes r =
     List.map_filter (\<lambda>(name, v). case v of JObject m \<Rightarrow> Some (name, json_attribute m) | _ \<Rightarrow> None)
       (json_object (jr_Body r) ''MessageAttributes'')"

definition json_MessageSystemAttributes :: "json_request \<Rightarrow> message_attribute gomap" where
  "json_MessageSystemAttributes r = parseSystemAttrsFromMap (json_object (jr_Body r) ''MessageSystemAttributes'')"

text \<open>
  An entry of a JSON batch.  The struct \<open>JSONBatchEntry\<close> has no message attributes, so the
  adapter leaves them empty.
\<close>

definition json_entry :: "json gomap \<Rightarrow> batch_entry" where
  "json_entry m =
     \<lparr> be_ID = json_string m ''Id'', be_MessageBody = json_string m ''MessageBody'',
       be_DelaySeconds = json_int m ''DelaySeconds'', be_ReceiptHandle = json_string m ''ReceiptHandle'',
       be_VisibilityTimeout = json_int m ''VisibilityTimeout'', be_MessageAttributes = [],
       be_MessageDeduplicationID = json_string m ''MessageDeduplicationId'',
       be_MessageGroupID = json_string m ''MessageGroupId'',
       be_MessageSystemAttributes = parseSystemAttrsFromMap (json_object m ''MessageSystemAttributes'') \<rparr>"

definition json_batch_entries :: "json_request \<Rightarrow> batch_entry list" where
  "json_batch_entries r =
     List.map_filter (\<lambda>v. case v of JObject m \<Rightarrow> Some (json_entry m) | _ \<Rightarrow> None)
       (json_array (jr_Body r) ''Entries'')"

definition jsonr_QueueURL :: "json_request \<Rightarrow> string" where
  [simp]: "jsonr_QueueURL r = json_string (jr_Body r) ''QueueUrl''"

definition jsonr_QueueName :: "json_request \<Rightarrow> string" where
  [simp]: "jsonr_QueueName r = json_string (jr_Body r) ''QueueName''"

definition jsonr_MessageBody :: "json_request \<Rightarrow> string" where
  [simp]: "jsonr_MessageBody r = json_string (jr_Body r) ''MessageBody''"

definition jsonr_ReceiptHandle :: "json_request \<Rightarrow> string" where
  [simp]: "jsonr_ReceiptHandle r = json_string (jr_Body r) ''ReceiptHandle''"

definition jsonr_Prefix :: "json_request \<Rightarrow> string" where
  [simp]: "jsonr_Prefix r = json_string (jr_Body r) ''Prefix''"

definition jsonr_MessageDeduplicationId :: "json_request \<Rightarrow> string" where
  [simp]: "jsonr_MessageDeduplicationId r = json_string (jr_Body r) ''MessageDeduplicationId''"

definition jsonr_MessageGroupId :: "json_request \<Rightarrow> string" where
  [simp]: "jsonr_MessageGroupId r = json_string (jr_Body r) ''MessageGroupId''"

definition jsonr_SourceArn :: "json_request \<Rightarrow> string" where
  [simp]: "jsonr_SourceArn r = json_string (jr_Body r) ''SourceArn''"

definition jsonr_DestinationArn :: "json_request \<Rightarrow> string" where
  [simp]: "jsonr_DestinationArn r = json_string (jr_Body r) ''DestinationArn''"

definition jsonr_TaskHandle :: "json_request \<Rightarrow> string" where
  [simp]: "jsonr_TaskHandle r = json_string (jr_Body r) ''TaskHandle''"

definition jsonr_DelaySeconds :: "json_request \<Rightarrow> int" where
  [simp]: "jsonr_DelaySeconds r = json_int (jr_Body r) ''DelaySeconds''"

definition jsonr_VisibilityTimeout :: "json_request \<Rightarrow> int" where
  [simp]: "jsonr_VisibilityTimeout r = json_int_or (jr_Body r) ''VisibilityTimeout'' (- 1)"

definition jsonr_MaxNumberOfMessages :: "json_request \<Rightarrow> int" where
  [simp]: "jsonr_MaxNumberOfMessages r = json_int_or (jr_Body r) ''MaxNumberOfMessages'' 1"

definition jsonr_WaitTimeSeconds :: "json_request \<Rightarrow> int" where
  [simp]: "jsonr_WaitTimeSeconds r = json_int_or (jr_Body r) ''WaitTimeSeconds'' (- 1)"

definition jsonr_MaxNumberOfMessagesPerSecond :: "json_request \<Rightarrow> int" where
  [simp]: "jsonr_MaxNumberOfMessagesPerSecond r = json_int (jr_Body r) ''MaxNumberOfMessagesPerSecond''"

definition jsonr_AttributeNames :: "json_request \<Rightarrow> string list" where
  [simp]: "jsonr_AttributeNames r = strings_of (json_array (jr_Body r) ''AttributeNames'')"

definition jsonr_MessageAttributeNames :: "json_request \<Rightarrow> string list" where
  [simp]: "jsonr_MessageAttributeNames r = strings_of (json_array (jr_Body r) ''MessageAttributeNames'')"

definition jsonr_TagKeys :: "json_request \<Rightarrow> string list" where
  [simp]: "jsonr_TagKeys r = strings_of (json_array (jr_Body r) ''TagKeys'')"

definition jsonr_Attributes :: "json_request \<Rightarrow> string gomap" where
  [simp]: "jsonr_Attributes r = string_fields (json_object (jr_Body r) ''Attributes'')"

definition jsonr_Tags :: "json_request \<Rightarrow> string gomap" where
  [simp]: "jsonr_Tags r = string_fields (json_object (jr_Body r) ''Tags'')"

definition JSONRequestAdapter :: "json_request \<Rightarrow> action_request" where
  "JSONRequestAdapter r =
     \<lparr> ar_Action = jr_Action r, ar_QueueURL = jsonr_QueueURL r,
       ar_QueueName = jsonr_QueueName r, ar_MessageBody = jsonr_MessageBody r,
       ar_DelaySeconds = jsonr_DelaySeconds r, ar_VisibilityTimeout = jsonr_VisibilityTimeout r,
       ar_MaxNumberOfMessages = jsonr_MaxNumberOfMessages r, ar_WaitTimeSeconds = jsonr_WaitTimeSeconds r,
       ar_ReceiptHandle = jsonr_ReceiptHandle r, ar_Prefix = jsonr_Prefix r,
       ar_AttributeNames = jsonr_AttributeNames r, ar_MessageAttributes = json_MessageAttributes r,
       ar_MessageAttributeNames = jsonr_MessageAttributeNames r, ar_Attributes = jsonr_Attributes r,
       ar_BatchEntries = json_batch_entries r, ar_Tags = jsonr_Tags r,
       ar_TagKeys = jsonr_TagKeys r, ar_MessageDeduplicationID = jsonr_MessageDeduplicationId r,
       ar_MessageGroupID = jsonr_MessageGroupId r, ar_MessageSystemAttributes = json_MessageSystemAttributes r,
       ar_SourceArn = jsonr_SourceArn r, ar_DestinationArn = jsonr_DestinationArn r,
       ar_TaskHandle = jsonr_TaskHandle r, ar_MaxNumberOfMessagesPerSecond = jsonr_MaxNumberOfMessagesPerSecond r \<rparr>"

subsection \<open>Which protocol\<close>

datatype ProtocolType = QueryProtocol | JSONProtocol

definition DetectProtocol :: "request \<Rightarrow> ProtocolType \<times> string" where
  "DetectProtocol r =
     (let contentType = header_get r ''Content-Type''; target = header_get r ''X-Amz-Target'' in
      if target \<noteq> [] then (JSONProtocol, target)
      else
        let media = (if CHR '';'' \<in> set contentType then TrimSpace (before_first (CHR '';'') contentType)
                     else contentType)
        in if media = QueryProtocolContentType \<or> media = [] then (QueryProtocol, [])
           else if media = JSONProtocolContentType then (JSONProtocol, [])
           else (QueryProtocol, []))"

end
