(* ===== verification/Handlers.thy ===== *)
theory Handlers
  imports Requests QueueManager MoveTask Limits "HOL-Library.List_Lexorder" "HOL-Library.Char_ord"
begin

section \<open>The action handlers\<close>

text \<open>
  \<^verbatim>\<open>apps/go/server/handlers\<close>: the dispatcher and the handler of each action, over any
  store.  The state is the queue manager and the table of move tasks; metrics and the log are
  left out.  A handler that fails returns an error; a handler that succeeds returns the
  response that the marshaller writes.
\<close>

record batch_result =
  br_ID :: string
  br_MessageID :: string
  br_MD5OfBody :: string
  br_MD5OfMessageAttributes :: string
  br_MD5OfMessageSystemAttributes :: string
  br_SequenceNumber :: string

record batch_error =
  bx_ID :: string
  bx_Code :: string
  bx_Message :: string
  bx_SenderFault :: bool

record move_result =
  mv_TaskHandle :: string
  mv_SourceArn :: string
  mv_DestinationArn :: string
  mv_Status :: string
  mv_MaxNumberOfMessagesPerSecond :: int
  mv_MovedMessages :: int

record action_response =
  rp_Action :: string
  rp_QueueURL :: string
  rp_QueueURLs :: "string list"
  rp_Message :: "message option"
  rp_Messages :: "message list"
  rp_Attributes :: "string gomap"
  rp_Tags :: "string gomap"
  rp_BatchResults :: "batch_result list"
  rp_BatchErrors :: "batch_error list"
  rp_RequestID :: string
  rp_MoveTaskResult :: "move_result option"
  rp_MoveTaskResults :: "move_result list"

definition respond :: "string \<Rightarrow> string \<Rightarrow> action_response" where
  "respond action requestID =
     \<lparr> rp_Action = action, rp_QueueURL = [], rp_QueueURLs = [], rp_Message = None, rp_Messages = [],
       rp_Attributes = [], rp_Tags = [], rp_BatchResults = [], rp_BatchErrors = [], rp_RequestID = requestID,
       rp_MoveTaskResult = None, rp_MoveTaskResults = [] \<rparr>"

text \<open>
  What a handler is built with, beside the operations of the stores: \<open>hd_receive\<close> is
  \<open>ReceiveMessages\<close> with its wait, \<open>hd_dlq\<close> the target of a store's redrive callback,
  \<open>hd_md5\<close> the digest of \<open>crypto/md5\<close>.
\<close>

record 's handler_env =
  hd_ops :: "'s store_ops"
  hd_receive ::
    "clock \<Rightarrow> (nat \<Rightarrow> string) \<Rightarrow> int \<Rightarrow> int \<Rightarrow> int \<Rightarrow> 's \<Rightarrow> (go_error + message list) \<times> message list \<times> 's"
  hd_dlq :: "'s \<Rightarrow> string option"
  hd_factory :: "'s factory"
  hd_policy :: json_policy
  hd_md5 :: "string \<Rightarrow> string"
  hd_mode :: LimitsMode
  hd_autoCreate :: bool

record 's handler_state =
  hs_manager :: "'s manager"
  hs_tasks :: move_tasks

text \<open>What one request draws: readings of the clock, identifiers and nonces.\<close>

record draws =
  dr_now :: clock
  dr_message_id :: "nat \<Rightarrow> string"
  dr_request_id :: string
  dr_store_now :: "nat \<Rightarrow> clock"
  dr_nonces :: "nat \<Rightarrow> string"
  dr_task_handle :: string

type_synonym 's action = "draws \<Rightarrow> action_request \<Rightarrow> 's handler_state \<Rightarrow> (go_error + action_response) \<times> 's handler_state"

subsection \<open>Helpers\<close>

definition computeMD5 :: "(string \<Rightarrow> string) \<Rightarrow> string \<Rightarrow> string" where
  "computeMD5 md5 s = EncodeToString_hex (md5 s)"

definition attribute_bytes :: "string \<times> message_attribute \<Rightarrow> string" where
  "attribute_bytes = (\<lambda>(name, a). name @ DataType a @ StringValue a @
     (if BinaryValue a \<noteq> [] then base64 (BinaryValue a) else []))"

definition computeMD5OfAttributes :: "(string \<Rightarrow> string) \<Rightarrow> message_attribute gomap \<Rightarrow> string" where
  "computeMD5OfAttributes md5 attrs =
     (if attrs = [] then []
      else EncodeToString_hex (md5 (concat (map attribute_bytes (sort_key fst attrs)))))"

definition isFifoQueueName :: "string \<Rightarrow> bool" where
  "isFifoQueueName name = HasSuffix name ''.fifo''"

fun checkDuplicateBatchIDs :: "string list \<Rightarrow> batch_entry list \<Rightarrow> go_error option" where
  "checkDuplicateBatchIDs seen [] = None"
| "checkDuplicateBatchIDs seen (e # es) =
     (if be_ID e \<in> set seen then
        Some (NewBatchEntryIdsNotDistinct (''Batch entry ids must be distinct. Duplicate id: '' @ be_ID e @ ''.''))
      else checkDuplicateBatchIDs (be_ID e # seen) es)"

definition queryableAttributeNames :: "string list" where
  "queryableAttributeNames =
     [''ApproximateNumberOfMessages'', ''ApproximateNumberOfMessagesNotVisible'',
      ''ApproximateNumberOfMessagesDelayed'', ''DelaySeconds'', ''MaximumMessageSize'',
      ''MessageRetentionPeriod'', ''QueueArn'', ''ReceiveMessageWaitTimeSeconds'', ''VisibilityTimeout'',
      ''FifoQueue'', ''ContentBasedDeduplication'', ''SqsManagedSseEnabled'']"

definition put_queue :: "'s queue \<Rightarrow> 's handler_state \<Rightarrow> 's handler_state" where
  "put_queue q st = st\<lparr> hs_manager := (hs_manager st)\<lparr> qm_queues :=
     AList.update (q_name q) q (qm_queues (hs_manager st)) \<rparr> \<rparr>"

definition resolveQueue ::
  "'s handler_env \<Rightarrow> string \<Rightarrow> 's handler_state \<Rightarrow> (go_error + 's queue) \<times> 's handler_state" where
  "resolveQueue H queueURL st =
     (if queueURL = [] then (Inl (NewMissingParameter ''QueueUrl''), st)
      else
        case LookupQueueByURL queueURL (hs_manager st) of
          Inr q \<Rightarrow> (Inr q, st)
        | Inl err \<Rightarrow>
            let name = ExtractQueueNameFromURL queueURL in
            if hd_autoCreate H \<and> name \<noteq> [] then
              (case CreateQueue (hd_policy H) (hd_factory H) name (Some NewDefaultQueueAttributes) (hs_manager st) of
                 (Inl createErr, qm) \<Rightarrow> (Inl err, st\<lparr> hs_manager := qm \<rparr>)
               | (Inr q, qm) \<Rightarrow> (Inr q, st\<lparr> hs_manager := qm \<rparr>))
            else (Inl err, st))"

text \<open>A handler that starts by finding its queue.\<close>

definition on_queue ::
  "'s handler_env \<Rightarrow> action_request \<Rightarrow> ('s queue \<Rightarrow> 's handler_state \<Rightarrow> (go_error + 'a) \<times> 's handler_state)
   \<Rightarrow> 's handler_state \<Rightarrow> (go_error + 'a) \<times> 's handler_state" where
  "on_queue H req k st =
     (case resolveQueue H (ar_QueueURL req) st of
        (Inl err, st1) \<Rightarrow> (Inl err, st1)
      | (Inr q, st1) \<Rightarrow> k q st1)"

subsection \<open>Messages\<close>

definition fifoDedupRequiredMsg :: string where
  "fifoDedupRequiredMsg = ''The queue should either have ContentBasedDeduplication enabled or '' @
     ''MessageDeduplicationId provided explicitly''"

definition fifo_ids :: "queue_attributes \<Rightarrow> action_request \<Rightarrow> go_error + string \<times> string" where
  "fifo_ids a req =
     (if \<not> qa_FifoQueue a then Inr ([], [])
      else
        let groupID = ar_MessageGroupID req; dedupID = ar_MessageDeduplicationID req in
        if groupID = [] then Inl (NewMissingParameter ''MessageGroupId'')
        else
          case VerifyMessageGroupId groupID of
            Some err \<Rightarrow> Inl err
          | None \<Rightarrow>
              if dedupID = [] \<and> \<not> qa_ContentBasedDeduplication a then
                Inl (NewInvalidParameterValue fifoDedupRequiredMsg)
              else if dedupID \<noteq> [] then
                (case VerifyDeduplicationId dedupID of Some err \<Rightarrow> Inl err | None \<Rightarrow> Inr (groupID, dedupID))
              else Inr (groupID, dedupID))"

definition new_message ::
  "'s handler_env \<Rightarrow> time \<Rightarrow> string \<Rightarrow> string \<Rightarrow> message_attribute gomap \<Rightarrow> message_attribute gomap
   \<Rightarrow> string \<Rightarrow> string \<Rightarrow> message" where
  "new_message H now msgID body msgAttrs sysAttrs groupID dedupID =
     zero_message\<lparr> MessageID := msgID, Body := body, MD5OfBody := computeMD5 (hd_md5 H) body,
       MD5OfMessageAttributes := computeMD5OfAttributes (hd_md5 H) msgAttrs, MessageAttributes := msgAttrs,
       MD5OfMessageSystemAttributes := computeMD5OfAttributes (hd_md5 H) sysAttrs, SystemAttributes := sysAttrs,
       SentTimestamp := now, MessageGroupID := groupID, MessageDeduplicationID := dedupID \<rparr>"

definition handleSendMessage :: "'s handler_env \<Rightarrow> 's action" where
  "handleSendMessage H d req = on_queue H req (\<lambda>q st.
     let body = ar_MessageBody req; a = q_attributes q; delaySeconds = ar_DelaySeconds req in
     if body = [] then (Inl (NewMissingParameter ''MessageBody''), st)
     else
       case VerifyMessageSize (hd_mode H) body (qa_MaximumMessageSize a) of
         Some err \<Rightarrow> (Inl err, st)
       | None \<Rightarrow>
       (case VerifyDelaySeconds delaySeconds of
          Some err \<Rightarrow> (Inl err, st)
        | None \<Rightarrow>
        (case fifo_ids a req of
           Inl err \<Rightarrow> (Inl err, st)
         | Inr (groupID, dedupID) \<Rightarrow>
             let msg = new_message H (dr_now d 0) (dr_message_id d 0) body (ar_MessageAttributes req)
                   (ar_MessageSystemAttributes req) groupID dedupID
             in case op_SendMessage (hd_ops H) (dr_store_now d 0) msg delaySeconds (q_store q) of
                  (Some err, msg', s') \<Rightarrow> (Inl (NewInternalError (error_text err)), put_queue (q\<lparr> q_store := s' \<rparr>) st)
                | (None, msg', s') \<Rightarrow>
                    (Inr ((respond ''SendMessage'' (dr_request_id d))\<lparr> rp_Message := Some msg' \<rparr>),
                     put_queue (q\<lparr> q_store := s' \<rparr>) st))))"

text \<open>
  The messages a receive hands to the redrive callback go to the dead-letter queue, one by one.
\<close>

definition redrive_all :: "'s handler_env \<Rightarrow> clock \<Rightarrow> string option \<Rightarrow> message list \<Rightarrow> 's manager \<Rightarrow> 's manager" where
  "redrive_all H now dlqArn msgs qm =
     (case dlqArn of
        None \<Rightarrow> qm
      | Some arn \<Rightarrow> fold (\<lambda>m qm. snd (redriveMessage (hd_ops H) now arn m qm)) msgs qm)"

definition filter_names :: "string list \<Rightarrow> 'a gomap \<Rightarrow> 'a gomap" where
  "filter_names names m =
     (if names = [] \<or> ''All'' \<in> set names then m
      else fold (\<lambda>name out. case map_of m name of None \<Rightarrow> out | Some v \<Rightarrow> AList.update name v out) names [])"

definition handleReceiveMessage :: "'s handler_env \<Rightarrow> 's action" where
  "handleReceiveMessage H d req = on_queue H req (\<lambda>q st.
     let a = q_attributes q; maxMessages = ar_MaxNumberOfMessages req;
         vt = (if ar_VisibilityTimeout req < 0 then qa_VisibilityTimeout a else ar_VisibilityTimeout req);
         wait = (if ar_WaitTimeSeconds req < 0 then qa_ReceiveMessageWaitTimeSeconds a else ar_WaitTimeSeconds req) in
     case VerifyMaxNumberOfMessages maxMessages of
       Some err \<Rightarrow> (Inl err, st)
     | None \<Rightarrow>
     (case VerifyVisibilityTimeout vt of
        Some err \<Rightarrow> (Inl err, st)
      | None \<Rightarrow>
      (case VerifyReceiveMessageWaitTime wait of
         Some err \<Rightarrow> (Inl err, st)
       | None \<Rightarrow>
         (let (result, redriven, s') =
              hd_receive H (dr_store_now d 0) (dr_nonces d) maxMessages vt wait (q_store q);
             st1 = put_queue (q\<lparr> q_store := s' \<rparr>) st;
             st2 = st1\<lparr> hs_manager := redrive_all H (dr_store_now d 1) (hd_dlq H s') redriven (hs_manager st1) \<rparr> in
          case result of
            Inl err \<Rightarrow> (Inl (NewInternalError (error_text err)), st2)
          | Inr msgs \<Rightarrow>
              (Inr ((respond ''ReceiveMessage'' (dr_request_id d))\<lparr> rp_Messages :=
                 map (\<lambda>m. m\<lparr> Attributes := filter_names (ar_AttributeNames req) (Attributes m),
                     MessageAttributes := filter_names (ar_MessageAttributeNames req) (MessageAttributes m) \<rparr>) msgs \<rparr>),
               st2)))))"

definition handleDeleteMessage :: "'s handler_env \<Rightarrow> 's action" where
  "handleDeleteMessage H d req = on_queue H req (\<lambda>q st.
     if ar_ReceiptHandle req = [] then (Inl (NewMissingParameter ''ReceiptHandle''), st)
     else
       case op_DeleteMessage (hd_ops H) (ar_ReceiptHandle req) (q_store q) of
         (Some err, s') \<Rightarrow> (Inl (NewInternalError (error_text err)), put_queue (q\<lparr> q_store := s' \<rparr>) st)
       | (None, s') \<Rightarrow> (Inr (respond ''DeleteMessage'' (dr_request_id d)), put_queue (q\<lparr> q_store := s' \<rparr>) st))"

definition handleChangeMessageVisibility :: "'s handler_env \<Rightarrow> 's action" where
  "handleChangeMessageVisibility H d req = on_queue H req (\<lambda>q st.
     if ar_ReceiptHandle req = [] then (Inl (NewMissingParameter ''ReceiptHandle''), st)
     else
       case VerifyVisibilityTimeout (ar_VisibilityTimeout req) of
         Some err \<Rightarrow> (Inl err, st)
       | None \<Rightarrow>
         (case op_ChangeMessageVisibility (hd_ops H) (dr_store_now d 0) (ar_ReceiptHandle req)
              (ar_VisibilityTimeout req) (q_store q) of
            (Some err, s') \<Rightarrow> (Inl (NewInternalError (error_text err)), put_queue (q\<lparr> q_store := s' \<rparr>) st)
          | (None, s') \<Rightarrow>
              (Inr (respond ''ChangeMessageVisibility'' (dr_request_id d)), put_queue (q\<lparr> q_store := s' \<rparr>) st)))"

subsection \<open>Batches\<close>

definition newBatchError :: "string \<Rightarrow> string \<Rightarrow> string \<Rightarrow> bool \<Rightarrow> batch_error" where
  "newBatchError i code msg senderFault =
     \<lparr> bx_ID = i, bx_Code = code, bx_Message = msg, bx_SenderFault = senderFault \<rparr>"

definition only_id :: "string \<Rightarrow> batch_result" where
  "only_id i = \<lparr> br_ID = i, br_MessageID = [], br_MD5OfBody = [], br_MD5OfMessageAttributes = [],
     br_MD5OfMessageSystemAttributes = [], br_SequenceNumber = [] \<rparr>"

text \<open>The checks every batch starts with.\<close>

definition batch_checked :: "batch_entry list \<Rightarrow> go_error option" where
  "batch_checked entries =
     (if entries = [] then Some (NewMissingParameter ''Entries'')
      else case VerifyBatchSize (int (length entries)) of
             Some err \<Rightarrow> Some err
           | None \<Rightarrow> checkDuplicateBatchIDs [] entries)"

text \<open>The entries in turn: each gives a result or an error, and may change the store.\<close>

fun batch_loop ::
  "(nat \<Rightarrow> batch_entry \<Rightarrow> 's \<Rightarrow> (batch_error + batch_result) \<times> 's) \<Rightarrow> nat \<Rightarrow> batch_entry list \<Rightarrow> 's
   \<Rightarrow> batch_result list \<times> batch_error list \<times> 's" where
  "batch_loop f k [] s = ([], [], s)"
| "batch_loop f k (e # es) s =
     (let (r, s1) = f k e s; (results, errors, s2) = batch_loop f (Suc k) es s1 in
      case r of Inl err \<Rightarrow> (results, err # errors, s2) | Inr res \<Rightarrow> (res # results, errors, s2))"

definition handle_batch ::
  "'s handler_env \<Rightarrow> string \<Rightarrow> ('s queue \<Rightarrow> nat \<Rightarrow> batch_entry \<Rightarrow> 's \<Rightarrow> (batch_error + batch_result) \<times> 's) \<Rightarrow> 's action" where
  "handle_batch H action f d req = on_queue H req (\<lambda>q st.
     case batch_checked (ar_BatchEntries req) of
       Some err \<Rightarrow> (Inl err, st)
     | None \<Rightarrow>
         let (results, errors, s') = batch_loop (f q) 0 (ar_BatchEntries req) (q_store q) in
         (Inr ((respond action (dr_request_id d))\<lparr> rp_BatchResults := results, rp_BatchErrors := errors \<rparr>),
          put_queue (q\<lparr> q_store := s' \<rparr>) st))"

definition fifo_entry_error :: "queue_attributes \<Rightarrow> batch_entry \<Rightarrow> batch_error option" where
  "fifo_entry_error a e =
     (if \<not> qa_FifoQueue a then None
      else if be_MessageGroupID e = [] then
        Some (newBatchError (be_ID e) ''MissingParameter'' ''MessageGroupId is required for FIFO queues.'' True)
      else
        case VerifyMessageGroupId (be_MessageGroupID e) of
          Some err \<Rightarrow> Some (newBatchError (be_ID e) ''InvalidParameterValue'' (error_text err) True)
        | None \<Rightarrow>
            if be_MessageDeduplicationID e = [] \<and> \<not> qa_ContentBasedDeduplication a then
              Some (newBatchError (be_ID e) ''InvalidParameterValue'' fifoDedupRequiredMsg True)
            else if be_MessageDeduplicationID e \<noteq> [] then
              (case VerifyDeduplicationId (be_MessageDeduplicationID e) of
                 Some err \<Rightarrow> Some (newBatchError (be_ID e) ''InvalidParameterValue'' (error_text err) True)
               | None \<Rightarrow> None)
            else None)"

definition send_entry ::
  "'s handler_env \<Rightarrow> draws \<Rightarrow> 's queue \<Rightarrow> nat \<Rightarrow> batch_entry \<Rightarrow> 's \<Rightarrow> (batch_error + batch_result) \<times> 's" where
  "send_entry H d q k e s =
     (let a = q_attributes q in
      if be_MessageBody e = [] then
        (Inl (newBatchError (be_ID e) ''MissingParameter'' ''MessageBody is required.'' True), s)
      else
        case VerifyMessageSize (hd_mode H) (be_MessageBody e) (qa_MaximumMessageSize a) of
          Some err \<Rightarrow> (Inl (newBatchError (be_ID e) ''InvalidParameterValue'' (error_text err) True), s)
        | None \<Rightarrow>
        (case VerifyDelaySeconds (be_DelaySeconds e) of
           Some err \<Rightarrow> (Inl (newBatchError (be_ID e) ''InvalidParameterValue'' (error_text err) True), s)
         | None \<Rightarrow>
         (case fifo_entry_error a e of
            Some err \<Rightarrow> (Inl err, s)
          | None \<Rightarrow>
            (let msg = new_message H (dr_now d k) (dr_message_id d k) (be_MessageBody e) (be_MessageAttributes e)
                  (be_MessageSystemAttributes e) (if qa_FifoQueue a then be_MessageGroupID e else [])
                  (if qa_FifoQueue a then be_MessageDeduplicationID e else [])
             in case op_SendMessage (hd_ops H) (dr_store_now d k) msg (be_DelaySeconds e) s of
                  (Some err, msg', s') \<Rightarrow> (Inl (newBatchError (be_ID e) ''InternalError'' (error_text err) False), s')
                | (None, msg', s') \<Rightarrow>
                    (Inr \<lparr> br_ID = be_ID e, br_MessageID = MessageID msg, br_MD5OfBody = MD5OfBody msg,
                       br_MD5OfMessageAttributes = MD5OfMessageAttributes msg,
                       br_MD5OfMessageSystemAttributes = MD5OfMessageSystemAttributes msg,
                       br_SequenceNumber = SequenceNumber msg' \<rparr>, s')))))"

definition handleSendMessageBatch :: "'s handler_env \<Rightarrow> 's action" where
  "handleSendMessageBatch H d req = handle_batch H ''SendMessageBatch'' (send_entry H d) d req"

definition delete_entry :: "'s handler_env \<Rightarrow> nat \<Rightarrow> batch_entry \<Rightarrow> 's \<Rightarrow> (batch_error + batch_result) \<times> 's" where
  "delete_entry H k e s =
     (if be_ReceiptHandle e = [] then
        (Inl (newBatchError (be_ID e) ''MissingParameter'' ''ReceiptHandle is required.'' True), s)
      else
        case op_DeleteMessage (hd_ops H) (be_ReceiptHandle e) s of
          (Some err, s') \<Rightarrow> (Inl (newBatchError (be_ID e) ''ReceiptHandleIsInvalid'' (error_text err) True), s')
        | (None, s') \<Rightarrow> (Inr (only_id (be_ID e)), s'))"

definition handleDeleteMessageBatch :: "'s handler_env \<Rightarrow> 's action" where
  "handleDeleteMessageBatch H d req = handle_batch H ''DeleteMessageBatch'' (\<lambda>q. delete_entry H) d req"

definition change_entry ::
  "'s handler_env \<Rightarrow> draws \<Rightarrow> 's queue \<Rightarrow> nat \<Rightarrow> batch_entry \<Rightarrow> 's \<Rightarrow> (batch_error + batch_result) \<times> 's" where
  "change_entry H d q k e s =
     (if be_ReceiptHandle e = [] then
        (Inl (newBatchError (be_ID e) ''MissingParameter'' ''ReceiptHandle is required.'' True), s)
      else
        let vt = (if be_VisibilityTimeout e < 0 then qa_VisibilityTimeout (q_attributes q) else be_VisibilityTimeout e) in
        case VerifyVisibilityTimeout vt of
          Some err \<Rightarrow> (Inl (newBatchError (be_ID e) ''InvalidParameterValue'' (error_text err) True), s)
        | None \<Rightarrow>
          (case op_ChangeMessageVisibility (hd_ops H) (dr_store_now d k) (be_ReceiptHandle e) vt s of
             (Some err, s') \<Rightarrow> (Inl (newBatchError (be_ID e) ''ReceiptHandleIsInvalid'' (error_text err) True), s')
           | (None, s') \<Rightarrow> (Inr (only_id (be_ID e)), s')))"

definition handleChangeMessageVisibilityBatch :: "'s handler_env \<Rightarrow> 's action" where
  "handleChangeMessageVisibilityBatch H d req =
     handle_batch H ''ChangeMessageVisibilityBatch'' (change_entry H d) d req"

subsection \<open>Queues\<close>

fun set_each :: "json_policy \<Rightarrow> queue_attributes \<Rightarrow> string gomap \<Rightarrow> go_error + queue_attributes" where
  "set_each J a [] = Inr a"
| "set_each J a ((name, value) # rest) =
     (case SetAttribute J a name value of
        Inl err \<Rightarrow> Inl (NewInvalidAttributeName (error_text err))
      | Inr a' \<Rightarrow> set_each J a' rest)"

definition handleCreateQueue :: "'s handler_env \<Rightarrow> 's action" where
  "handleCreateQueue H d req st =
     (let name = ar_QueueName req; qm = hs_manager st in
      if name = [] then (Inl (NewMissingParameter ''QueueName''), st)
      else
        case VerifyQueueName name of
          Some err \<Rightarrow> (Inl err, st)
        | None \<Rightarrow>
        (case set_each (hd_policy H) NewDefaultQueueAttributes (ar_Attributes req) of
           Inl err \<Rightarrow> (Inl err, st)
         | Inr attrs \<Rightarrow>
             if qa_FifoQueue attrs \<and> \<not> isFifoQueueName name then
               (Inl (NewInvalidParameterValue (''The name of a FIFO queue can only include alphanumeric characters, '' @
                  ''hyphens, or underscores, must end with .fifo suffix and be at most 80 characters long.'')), st)
             else
               (case CreateQueue (hd_policy H) (hd_factory H) name (Some attrs) qm of
                  (Inl err, qm') \<Rightarrow> (Inl err, st\<lparr> hs_manager := qm' \<rparr>)
                | (Inr q, qm') \<Rightarrow>
                    (Inr ((respond ''CreateQueue'' (dr_request_id d))\<lparr> rp_QueueURL :=
                       Queue_URL (qm_nodeAddress qm) (qm_accountID qm) q \<rparr>),
                     st\<lparr> hs_manager := qm' \<rparr>))))"

definition handleDeleteQueue :: "'s handler_env \<Rightarrow> 's action" where
  "handleDeleteQueue H d req st =
     (if ar_QueueURL req = [] then (Inl (NewMissingParameter ''QueueUrl''), st)
      else
        case DeleteQueue (hd_ops H) (ExtractQueueNameFromURL (ar_QueueURL req)) (hs_manager st) of
          (Some err, qm) \<Rightarrow> (Inl err, st\<lparr> hs_manager := qm \<rparr>)
        | (None, qm) \<Rightarrow> (Inr (respond ''DeleteQueue'' (dr_request_id d)), st\<lparr> hs_manager := qm \<rparr>))"

definition handleGetQueueURL :: "'s action" where
  "handleGetQueueURL d req st =
     (let name = ar_QueueName req in
      if name = [] then (Inl (NewMissingParameter ''QueueName''), st)
      else
        case LookupQueue name (hs_manager st) of
          Inl err \<Rightarrow> (Inl err, st)
        | Inr q \<Rightarrow> (Inr ((respond ''GetQueueUrl'' (dr_request_id d))\<lparr> rp_QueueURL := QueueURL name (hs_manager st) \<rparr>), st))"

definition handleListQueues :: "'s action" where
  "handleListQueues d req st =
     (Inr ((respond ''ListQueues'' (dr_request_id d))\<lparr> rp_QueueURLs := ListQueueURLs (ar_Prefix req) (hs_manager st) \<rparr>), st)"

definition handleGetQueueAttributes :: "'s handler_env \<Rightarrow> 's action" where
  "handleGetQueueAttributes H d req = on_queue H req (\<lambda>q st.
     let names = (if ar_AttributeNames req = [] \<or> ''All'' \<in> set (ar_AttributeNames req)
                  then queryableAttributeNames else ar_AttributeNames req);
         attrs = fold (\<lambda>name out. case Queue_GetAttribute (hd_ops H) (dr_now d 0) q name of
                    None \<Rightarrow> out | Some v \<Rightarrow> AList.update name v out) names []
     in (Inr ((respond ''GetQueueAttributes'' (dr_request_id d))\<lparr> rp_Attributes := attrs \<rparr>), st))"

definition immutableAttrs :: "string list" where
  "immutableAttrs = [''FifoQueue'', ''ContentBasedDeduplication'', ''DeduplicationScope'', ''FifoThroughputLimit'']"

definition changes_immutable :: "'s handler_env \<Rightarrow> time \<Rightarrow> 's queue \<Rightarrow> string \<times> string \<Rightarrow> bool" where
  "changes_immutable H now q = (\<lambda>(name, value). name \<in> set immutableAttrs \<and>
     (case Queue_GetAttribute (hd_ops H) now q name of None \<Rightarrow> [] | Some v \<Rightarrow> v) \<noteq> value)"

definition handleSetQueueAttributes :: "'s handler_env \<Rightarrow> 's action" where
  "handleSetQueueAttributes H d req = on_queue H req (\<lambda>q st.
     case find (changes_immutable H (dr_now d 0) q) (ar_Attributes req) of
       Some (name, value) \<Rightarrow>
         (Inl (NewInvalidAttributeValue (''The '' @ name @
            '' queue attribute cannot be changed after the queue has been created.'')), st)
     | None \<Rightarrow>
         let settable = filter (\<lambda>(name, value). name \<notin> set immutableAttrs) (ar_Attributes req) in
         (case SetAttributes (hd_policy H) (q_attributes q) settable of
            (Some err, a) \<Rightarrow> (Inl (NewInvalidAttributeName (error_text err)), put_queue (q\<lparr> q_attributes := a \<rparr>) st)
          | (None, a) \<Rightarrow>
              (Inr (respond ''SetQueueAttributes'' (dr_request_id d)), put_queue (q\<lparr> q_attributes := a \<rparr>) st)))"

definition handlePurgeQueue :: "'s handler_env \<Rightarrow> 's action" where
  "handlePurgeQueue H d req = on_queue H req (\<lambda>q st.
     case CheckPurgeCooldown (dr_now d) q of
       Some err \<Rightarrow> (Inl err, st)
     | None \<Rightarrow>
         (case PurgeQueue (hd_ops H) (q_name q) (hs_manager st) of
            (Some err, qm) \<Rightarrow> (Inl (NewInternalError (error_text err)), st\<lparr> hs_manager := qm \<rparr>)
          | (None, qm) \<Rightarrow>
              (Inr (respond ''PurgeQueue'' (dr_request_id d)),
               (case map_of (qm_queues qm) (q_name q) of
                  None \<Rightarrow> st\<lparr> hs_manager := qm \<rparr>
                | Some q' \<Rightarrow> put_queue (MarkPurged (dr_now d 2) q') (st\<lparr> hs_manager := qm \<rparr>)))))"

subsection \<open>Tags and permissions\<close>

definition tag_error :: "string gomap \<Rightarrow> go_error option" where
  "tag_error tags =
     (case find (\<lambda>(k, v). int (length k) > MaxTagKeyLength \<or> int (length v) > MaxTagValueLength) tags of
        None \<Rightarrow> None
      | Some (k, v) \<Rightarrow>
          Some (if int (length k) > MaxTagKeyLength
            then NewInvalidParameterValue (''Tag key too long (max '' @ itoa MaxTagKeyLength @ ''): '' @ k @ ''.'')
            else NewInvalidParameterValue (''Tag value too long (max '' @ itoa MaxTagValueLength @ ''): '' @ v @ ''.'')))"

definition handleTagQueue :: "'s handler_env \<Rightarrow> 's action" where
  "handleTagQueue H d req = on_queue H req (\<lambda>q st.
     let tags = ar_Tags req in
     if int (length (q_tags q) + length tags) > MaxQueueTags then
       (Inl (NewInvalidParameterValue (''Maximum number of tags per queue is '' @ itoa MaxQueueTags @ ''.'')), st)
     else
       case tag_error tags of
         Some err \<Rightarrow> (Inl err, st)
       | None \<Rightarrow>
           (Inr (respond ''TagQueue'' (dr_request_id d)),
            put_queue (UpdateTags (fold (\<lambda>(k, v). AList.update k v) tags) q) st))"

definition handleUntagQueue :: "'s handler_env \<Rightarrow> 's action" where
  "handleUntagQueue H d req = on_queue H req (\<lambda>q st.
     (Inr (respond ''UntagQueue'' (dr_request_id d)),
      put_queue (UpdateTags (fold AList.delete (ar_TagKeys req)) q) st))"

definition handleListQueueTags :: "'s handler_env \<Rightarrow> 's action" where
  "handleListQueueTags H d req = on_queue H req (\<lambda>q st.
     (Inr ((respond ''ListQueueTags'' (dr_request_id d))\<lparr> rp_Tags := q_tags q \<rparr>), st))"

definition handleAddPermission :: "'s handler_env \<Rightarrow> 's action" where
  "handleAddPermission H d req = on_queue H req (\<lambda>q st. (Inr (respond ''AddPermission'' (dr_request_id d)), st))"

definition handleRemovePermission :: "'s handler_env \<Rightarrow> 's action" where
  "handleRemovePermission H d req = on_queue H req (\<lambda>q st. (Inr (respond ''RemovePermission'' (dr_request_id d)), st))"

subsection \<open>Dead-letter queues\<close>

definition redrives_to :: "json_policy \<Rightarrow> string \<Rightarrow> 's queue \<Rightarrow> bool" where
  "redrives_to J dlqArn q \<longleftrightarrow>
     (let rpStr = qa_RedrivePolicy (q_attributes q) in
      rpStr \<noteq> [] \<and> (case ParseRedrivePolicy J rpStr of Inl err \<Rightarrow> False | Inr rp \<Rightarrow> DeadLetterTargetArn rp = dlqArn))"

definition handleListDeadLetterSourceQueues :: "'s handler_env \<Rightarrow> 's action" where
  "handleListDeadLetterSourceQueues H d req = on_queue H req (\<lambda>q st.
     let qm = hs_manager st;
         sources = filter (redrives_to (hd_policy H) (qa_QueueArn (q_attributes q))) (ListQueues [] qm)
     in (Inr ((respond ''ListDeadLetterSourceQueues'' (dr_request_id d))\<lparr> rp_QueueURLs :=
          map (Queue_URL (qm_nodeAddress qm) (qm_accountID qm)) sources \<rparr>), st))"

definition no_move :: move_result where
  "no_move = \<lparr> mv_TaskHandle = [], mv_SourceArn = [], mv_DestinationArn = [], mv_Status = [],
     mv_MaxNumberOfMessagesPerSecond = 0, mv_MovedMessages = 0 \<rparr>"

definition handleStartMessageMoveTask :: "'s handler_env \<Rightarrow> 's action" where
  "handleStartMessageMoveTask H d req st =
     (if ar_SourceArn req = [] then (Inl (NewMissingParameter ''SourceArn''), st)
      else
        case StartTask (hd_policy H) (\<lambda>arn. LookupQueueByArn arn (hs_manager st)) (\<lambda>p. ListQueues p (hs_manager st))
            (dr_task_handle d) (dr_now d 0) (ar_SourceArn req) (ar_DestinationArn req)
            (ar_MaxNumberOfMessagesPerSecond req) (hs_tasks st) of
          (Inl err, tasks) \<Rightarrow> (Inl (NewInvalidParameterValue (error_text err)), st\<lparr> hs_tasks := tasks \<rparr>)
        | (Inr (task, source, dest), tasks) \<Rightarrow>
            (Inr ((respond ''StartMessageMoveTask'' (dr_request_id d))\<lparr> rp_MoveTaskResult :=
               Some (no_move\<lparr> mv_TaskHandle := mt_taskHandle task \<rparr>) \<rparr>),
             st\<lparr> hs_tasks := tasks \<rparr>))"

definition handleCancelMessageMoveTask :: "'s action" where
  "handleCancelMessageMoveTask d req st =
     (if ar_TaskHandle req = [] then (Inl (NewMissingParameter ''TaskHandle''), st)
      else
        case CancelTask (ar_TaskHandle req) (hs_tasks st) of
          (Inl err, tasks) \<Rightarrow> (Inl (NewInvalidParameterValue (error_text err)), st\<lparr> hs_tasks := tasks \<rparr>)
        | (Inr moved, tasks) \<Rightarrow>
            (Inr ((respond ''CancelMessageMoveTask'' (dr_request_id d))\<lparr> rp_MoveTaskResult :=
               Some (no_move\<lparr> mv_MovedMessages := moved \<rparr>) \<rparr>),
             st\<lparr> hs_tasks := tasks \<rparr>))"

definition status_text :: "MoveTaskStatus \<Rightarrow> string" where
  "status_text s =
     (case s of RUNNING \<Rightarrow> ''RUNNING'' | COMPLETED \<Rightarrow> ''COMPLETED'' | CANCELLING \<Rightarrow> ''CANCELLING''
      | CANCELLED \<Rightarrow> ''CANCELLED'' | FAILED \<Rightarrow> ''FAILED'')"

definition handleListMessageMoveTasks :: "'s action" where
  "handleListMessageMoveTasks d req st =
     (if ar_SourceArn req = [] then (Inl (NewMissingParameter ''SourceArn''), st)
      else
        (Inr ((respond ''ListMessageMoveTasks'' (dr_request_id d))\<lparr> rp_MoveTaskResults :=
           map (\<lambda>t. \<lparr> mv_TaskHandle = mt_taskHandle t, mv_SourceArn = mt_sourceArn t,
               mv_DestinationArn = mt_destinationArn t, mv_Status = status_text (mt_status t),
               mv_MaxNumberOfMessagesPerSecond = mt_maxNumberOfMessagesPerSecond t,
               mv_MovedMessages = mt_movedMessages t \<rparr>) (ListTasks (ar_SourceArn req) (hs_tasks st)) \<rparr>), st))"

subsection \<open>The dispatcher\<close>

definition HandleRequest :: "'s handler_env \<Rightarrow> 's action" where
  "HandleRequest H d req st =
     (let action = ar_Action req in
      if action = ''CreateQueue'' then handleCreateQueue H d req st
      else if action = ''DeleteQueue'' then handleDeleteQueue H d req st
      else if action = ''GetQueueUrl'' then handleGetQueueURL d req st
      else if action = ''ListQueues'' then handleListQueues d req st
      else if action = ''SendMessage'' then handleSendMessage H d req st
      else if action = ''ReceiveMessage'' then handleReceiveMessage H d req st
      else if action = ''DeleteMessage'' then handleDeleteMessage H d req st
      else if action = ''ChangeMessageVisibility'' then handleChangeMessageVisibility H d req st
      else if action = ''GetQueueAttributes'' then handleGetQueueAttributes H d req st
      else if action = ''SetQueueAttributes'' then handleSetQueueAttributes H d req st
      else if action = ''PurgeQueue'' then handlePurgeQueue H d req st
      else if action = ''SendMessageBatch'' then handleSendMessageBatch H d req st
      else if action = ''DeleteMessageBatch'' then handleDeleteMessageBatch H d req st
      else if action = ''ChangeMessageVisibilityBatch'' then handleChangeMessageVisibilityBatch H d req st
      else if action = ''TagQueue'' then handleTagQueue H d req st
      else if action = ''UntagQueue'' then handleUntagQueue H d req st
      else if action = ''ListQueueTags'' then handleListQueueTags H d req st
      else if action = ''AddPermission'' then handleAddPermission H d req st
      else if action = ''RemovePermission'' then handleRemovePermission H d req st
      else if action = ''ListDeadLetterSourceQueues'' then handleListDeadLetterSourceQueues H d req st
      else if action = ''StartMessageMoveTask'' then handleStartMessageMoveTask H d req st
      else if action = ''CancelMessageMoveTask'' then handleCancelMessageMoveTask d req st
      else if action = ''ListMessageMoveTasks'' then handleListMessageMoveTasks d req st
      else (Inl (NewInvalidAction (''The action '' @ action @ '' is not valid for this endpoint.'')), st))"

end
