(* ===== verification/HandlerProperties.thy ===== *)
theory HandlerProperties
  imports Handlers "HOL-Library.Sublist" "HOL-Library.Multiset"
begin

section \<open>What the handlers keep and answer\<close>

text \<open>
  The frame of every action, collected in \<open>frame\<close>; the batches, entry by entry and as a series of
  sends; and the small server that the witnesses run.
\<close>

subsection \<open>A request leaves the other queues alone\<close>

text \<open>From \<open>st\<close> to \<open>st'\<close> the registry stays well formed and only the queues in \<open>N\<close> change.\<close>

definition keeps :: "string set \<Rightarrow> 's handler_state \<Rightarrow> 's handler_state \<Rightarrow> bool" where
  "keeps N st st' \<longleftrightarrow> manager_ok (hs_manager st') \<and>
     (\<forall>n. n \<notin> N \<longrightarrow> LookupQueue n (hs_manager st') = LookupQueue n (hs_manager st))"

definition named :: "action_request \<Rightarrow> string" where
  "named req = ExtractQueueNameFromURL (ar_QueueURL req)"

named_theorems frame \<open>what keeps the other queues\<close>

lemma keeps_refl [frame]: "manager_ok (hs_manager st) \<Longrightarrow> keeps N st st"
  by (simp add: keeps_def)

lemma keeps_trans: "keeps N st st1 \<Longrightarrow> keeps N st1 st2 \<Longrightarrow> keeps N st st2"
  by (simp add: keeps_def)

lemma keeps_put [frame]:
  assumes "manager_ok (hs_manager st)" "q_name q \<in> N"
  shows "keeps N st (put_queue q st)"
  using assms manager_ok_update [OF assms(1) refl, of q] by (auto simp: keeps_def put_queue_def LookupQueue_update)

lemma keeps_tasks [frame]: "manager_ok (hs_manager st) \<Longrightarrow> keeps N st (st\<lparr> hs_tasks := t \<rparr>)"
  by (simp add: keeps_def)

lemma keeps_manager [frame]:
  "manager_ok qm \<Longrightarrow> (\<And>n. n \<notin> N \<Longrightarrow> LookupQueue n qm = LookupQueue n (hs_manager st)) \<Longrightarrow>
   keeps N st (st\<lparr> hs_manager := qm \<rparr>)"
  by (simp add: keeps_def)

lemma Lookup_Some: "LookupQueue n qm = Inr q \<longleftrightarrow> map_of (qm_queues qm) n = Some q"
  by (simp add: LookupQueue_def split: option.splits)

lemma keeps_CreateQueue:
  assumes "manager_ok (hs_manager st)" "CreateQueue J f n attrs (hs_manager st) = (r, qm)" "n \<in> N"
  shows "keeps N st (st\<lparr> hs_manager := qm \<rparr>)"
    and "r = Inr q \<Longrightarrow> LookupQueue n qm = Inr q \<and> q_name q = n"
  using CreateQueue_cases [OF assms(2)] assms(1,3) manager_ok_update [OF assms(1)] manager_ok_lookup [OF assms(1)]
  by (auto simp: keeps_def LookupQueue_update Lookup_Some update_conv')

lemma resolveQueue_found:
  assumes "manager_ok (hs_manager st)" "resolveQueue H url st = (r, st1)"
  shows "keeps {ExtractQueueNameFromURL url} st st1"
    and "r = Inr q \<Longrightarrow> LookupQueue (ExtractQueueNameFromURL url) (hs_manager st1) = Inr q \<and>
      q_name q = ExtractQueueNameFromURL url"
proof -
  let ?n = "ExtractQueueNameFromURL url"
  show "keeps {?n} st st1"
    using assms keeps_CreateQueue(1) [OF assms(1), of _ _ ?n _ _ _ "{?n}"]
    by (auto simp: resolveQueue_def Let_def keeps_refl split: if_splits sum.splits prod.splits)
  show "LookupQueue ?n (hs_manager st1) = Inr q \<and> q_name q = ?n" if r: "r = Inr q"
  proof -
    have "st1 = st \<and> LookupQueueByURL url (hs_manager st) = Inr q \<or>
      (\<exists>qm. CreateQueue (hd_policy H) (hd_factory H) ?n (Some NewDefaultQueueAttributes) (hs_manager st) = (Inr q, qm) \<and>
        st1 = st\<lparr> hs_manager := qm \<rparr>)"
      using assms(2) r by (auto simp: resolveQueue_def Let_def split: if_splits sum.splits prod.splits)
    then show ?thesis
    proof
      assume "st1 = st \<and> LookupQueueByURL url (hs_manager st) = Inr q"
      then show ?thesis using manager_ok_lookup [OF assms(1)]
        by (auto simp: LookupQueueByURL_def Let_def Lookup_Some split: if_splits)
    next
      assume "\<exists>qm. CreateQueue (hd_policy H) (hd_factory H) ?n (Some NewDefaultQueueAttributes) (hs_manager st) =
          (Inr q, qm) \<and> st1 = st\<lparr> hs_manager := qm \<rparr>"
      then show ?thesis using keeps_CreateQueue(2) [OF assms(1), where N = UNIV] by auto
    qed
  qed
qed

lemma on_queue_keeps:
  assumes "manager_ok (hs_manager st)" "named req \<in> N"
    and "\<And>q st1. manager_ok (hs_manager st1) \<Longrightarrow> LookupQueue (named req) (hs_manager st1) = Inr q \<Longrightarrow>
      q_name q = named req \<Longrightarrow> keeps N st1 (snd (k q st1))"
  shows "keeps N st (snd (on_queue H req k st))"
proof -
  obtain r st1 where r: "resolveQueue H (ar_QueueURL req) st = (r, st1)" by fastforce
  have k1: "keeps N st st1"
    using resolveQueue_found(1) [OF assms(1) r] assms(2) unfolding keeps_def named_def by (metis singletonD)
  show ?thesis
  proof (cases r)
    case (Inl e)
    then show ?thesis using r k1 by (simp add: on_queue_def)
  next
    case (Inr q)
    have "keeps N st1 (snd (k q st1))"
      using resolveQueue_found(2) [OF assms(1) r Inr] k1 by (intro assms(3)) (auto simp: keeps_def named_def)
    then show ?thesis using r Inr keeps_trans [OF k1] by (simp add: on_queue_def)
  qed
qed

lemma redrive_all_keeps:
  assumes "manager_ok qm" "\<And>arn. dlq = Some arn \<Longrightarrow> after_last (CHR '':'') arn \<noteq> n"
  shows "manager_ok (redrive_all H now dlq ms qm) \<and> LookupQueue n (redrive_all H now dlq ms qm) = LookupQueue n qm"
proof (cases dlq)
  case (Some arn)
  have step: "manager_ok (snd (redriveMessage ops now arn m qm)) \<and>
      LookupQueue n (snd (redriveMessage ops now arn m qm)) = LookupQueue n qm" if "manager_ok qm" for ops m qm
    using that assms(2) [OF Some] manager_ok_lookup [OF that]
    by (auto simp: redriveMessage_def put_store_def LookupQueueByArn_def LookupQueue_update Lookup_Some Let_def
        intro!: manager_ok_update split: sum.splits prod.splits if_splits)
  have "manager_ok (fold (\<lambda>m qm. snd (redriveMessage (hd_ops H) now arn m qm)) ms qm) \<and>
    LookupQueue n (fold (\<lambda>m qm. snd (redriveMessage (hd_ops H) now arn m qm)) ms qm) = LookupQueue n qm"
    using assms(1) by (induction ms arbitrary: qm) (auto simp: step)
  then show ?thesis by (simp add: redrive_all_def Some)
qed (simp add: redrive_all_def assms(1))


text \<open>Each action in turn.\<close>

lemma message_actions_keep:
  assumes "manager_ok (hs_manager st)" "named req \<in> N"
  shows "keeps N st (snd (handleSendMessage H d req st))"
    and "keeps N st (snd (handleDeleteMessage H d req st))"
    and "keeps N st (snd (handleChangeMessageVisibility H d req st))"
    and "keeps N st (snd (handle_batch H action f d req st))"
  unfolding handleSendMessage_def handleDeleteMessage_def handleChangeMessageVisibility_def handle_batch_def
  by (rule on_queue_keeps [OF assms], use assms(2) in
      \<open>auto simp: Let_def intro!: frame split: option.splits prod.splits sum.splits\<close>)+

lemma receive_keeps:
  assumes "manager_ok (hs_manager st)" "named req \<noteq> n"
    "\<And>s arn. hd_dlq H s = Some arn \<Longrightarrow> after_last (CHR '':'') arn \<noteq> n"
  shows "keeps (- {n}) st (snd (handleReceiveMessage H d req st))"
proof -
  have step: "keeps (- {n}) st1 ((put_queue q st1)\<lparr> hs_manager := redrive_all H now (hd_dlq H s) ms
      (hs_manager (put_queue q st1)) \<rparr>)"
    if "manager_ok (hs_manager st1)" "q_name q = named req" for q st1 now s ms
  proof -
    have "keeps (- {n}) st1 (put_queue q st1)" using that assms(2) by (intro keeps_put) auto
    then show ?thesis
      using redrive_all_keeps [of "hs_manager (put_queue q st1)" "hd_dlq H s" n H now ms] assms(3)
      by (auto simp: keeps_def)
  qed
  show ?thesis
    unfolding handleReceiveMessage_def
    by (rule on_queue_keeps [OF assms(1)]) (use assms(2) in
        \<open>auto simp: Let_def intro!: keeps_refl step split: option.splits prod.splits sum.splits\<close>)
qed

lemma purge_keeps:
  assumes "named req \<in> N" "manager_ok (hs_manager st)" "LookupQueue (named req) (hs_manager st) = Inr q"
    "q_name q = named req" "PurgeQueue ops (named req) (hs_manager st) = (err, qm)"
  shows "keeps N st (st\<lparr> hs_manager := qm \<rparr>)"
    and "map_of (qm_queues qm) (named req) = Some q' \<Longrightarrow>
      keeps N st (put_queue (MarkPurged t q') (st\<lparr> hs_manager := qm \<rparr>))"
proof -
  show k: "keeps N st (st\<lparr> hs_manager := qm \<rparr>)"
    using assms
    by (auto simp: PurgeQueue_def put_store_def LookupQueue_update intro!: frame manager_ok_update split: prod.splits)
  show "keeps N st (put_queue (MarkPurged t q') (st\<lparr> hs_manager := qm \<rparr>))"
    if "map_of (qm_queues qm) (named req) = Some q'"
    using that assms(1) k manager_ok_lookup [of qm "named req" q']
    by (intro keeps_trans [OF k] keeps_put) (auto simp: keeps_def MarkPurged_def)
qed

lemma queue_actions_keep:
  assumes "manager_ok (hs_manager st)" "named req \<in> N"
  shows "keeps N st (snd (handleDeleteQueue H d req st))"
    and "keeps N st (snd (handleGetQueueAttributes H d req st))"
    and "keeps N st (snd (handleSetQueueAttributes H d req st))"
    and "keeps N st (snd (handlePurgeQueue H d req st))"
proof -
  note keep = on_queue_keeps [OF assms]
  show "keeps N st (snd (handleDeleteQueue H d req st))"
    using assms manager_ok_lookup [OF assms(1)]
    by (auto simp: handleDeleteQueue_def DeleteQueue_def named_def LookupQueue_def update_conv' delete_conv'
        intro!: frame manager_ok_update manager_ok_delete split: option.splits prod.splits)
  show "keeps N st (snd (handleGetQueueAttributes H d req st))"
    unfolding handleGetQueueAttributes_def by (rule keep) (auto intro: frame)
  show "keeps N st (snd (handleSetQueueAttributes H d req st))"
    unfolding handleSetQueueAttributes_def
    by (rule keep) (use assms(2) in \<open>auto simp: Let_def intro!: frame split: option.splits prod.splits\<close>)
  show "keeps N st (snd (handlePurgeQueue H d req st))"
    unfolding handlePurgeQueue_def
    by (rule keep) (auto intro: keeps_refl purge_keeps [OF assms(2)] split: option.splits prod.splits)
qed

lemma tag_actions_keep:
  assumes "manager_ok (hs_manager st)" "named req \<in> N"
  shows "keeps N st (snd (handleTagQueue H d req st))"
    and "keeps N st (snd (handleUntagQueue H d req st))"
    and "keeps N st (snd (handleListQueueTags H d req st))"
    and "keeps N st (snd (handleAddPermission H d req st))"
    and "keeps N st (snd (handleRemovePermission H d req st))"
    and "keeps N st (snd (handleListDeadLetterSourceQueues H d req st))"
  unfolding handleTagQueue_def handleUntagQueue_def handleListQueueTags_def handleAddPermission_def
    handleRemovePermission_def handleListDeadLetterSourceQueues_def
  by (rule on_queue_keeps [OF assms], use assms(2) in
      \<open>auto simp: Let_def UpdateTags_def intro!: frame split: option.splits\<close>)+

lemma registry_actions_keep:
  assumes "manager_ok (hs_manager st)"
  shows "ar_QueueName req \<in> N \<Longrightarrow> keeps N st (snd (handleCreateQueue H d req st))"
    and "snd (handleGetQueueURL d req st) = st"
    and "snd (handleListQueues d req st) = st"
    and "keeps N st (snd (handleStartMessageMoveTask H d req st))"
    and "keeps N st (snd (handleCancelMessageMoveTask d req st))"
    and "snd (handleListMessageMoveTasks d req st) = st"
  using assms keeps_CreateQueue(1) [OF assms]
  by (auto simp: handleCreateQueue_def handleGetQueueURL_def handleListQueues_def handleStartMessageMoveTask_def
      handleCancelMessageMoveTask_def handleListMessageMoveTasks_def Let_def intro!: frame
      split: option.splits sum.splits prod.splits)


lemma HandleRequest_keeps:
  assumes "manager_ok (hs_manager st)" "n \<noteq> named req" "ar_Action req = ''CreateQueue'' \<Longrightarrow> n \<noteq> ar_QueueName req"
    and "\<And>s arn. hd_dlq H s = Some arn \<Longrightarrow> after_last (CHR '':'') arn \<noteq> n"
  shows "keeps (- {n}) st (snd (HandleRequest H d req st))"
proof -
  have N: "named req \<in> - {n}" using assms(2) by simp
  have receive: "keeps (- {n}) st (snd (handleReceiveMessage H d req st))"
    by (rule receive_keeps) (use assms in auto)
  note actions = message_actions_keep [where H = H, OF assms(1) N] receive
    queue_actions_keep [OF assms(1) N] tag_actions_keep [OF assms(1) N] registry_actions_keep [OF assms(1)]
  have "keeps (- {n}) st (snd (handleCreateQueue H d req st))" if "ar_Action req = ''CreateQueue''"
    using assms(3) [OF that] by (intro registry_actions_keep [OF assms(1)]) auto
  then show ?thesis
    by (simp add: HandleRequest_def Let_def handleSendMessageBatch_def handleDeleteMessageBatch_def
        handleChangeMessageVisibilityBatch_def actions keeps_refl [OF assms(1)])
qed


subsection \<open>Batches\<close>

text \<open>What an entry gives carries the entry's identifier.\<close>

definition carries_id :: "('q \<Rightarrow> nat \<Rightarrow> batch_entry \<Rightarrow> 's \<Rightarrow> (batch_error + batch_result) \<times> 's) \<Rightarrow> bool" where
  "carries_id f \<longleftrightarrow> (\<forall>q k e s. case fst (f q k e s) of Inl x \<Rightarrow> bx_ID x = be_ID e | Inr r \<Rightarrow> br_ID r = be_ID e)"

lemma entries_carry_id: "carries_id (send_entry H d)" "carries_id (\<lambda>q. delete_entry H)" "carries_id (change_entry H d)"
  by (auto simp: carries_id_def send_entry_def fifo_entry_error_def delete_entry_def change_entry_def newBatchError_def
      only_id_def Let_def split: option.splits prod.splits)

lemma batch_loop_ids:
  assumes "carries_id f" "batch_loop (f q) k es s = (results, errors, s')"
  shows "mset (map br_ID results) + mset (map bx_ID errors) = mset (map be_ID es) \<and>
    subseq (map br_ID results) (map be_ID es) \<and> subseq (map bx_ID errors) (map be_ID es)"
  using assms(2)
proof (induction es arbitrary: k s results errors s')
  case (Cons e es)
  obtain r s1 where r: "f q k e s = (r, s1)" by fastforce
  obtain rs xs s2 where l: "batch_loop (f q) (Suc k) es s1 = (rs, xs, s2)" by (metis prod_cases3)
  have i: "case r of Inl x \<Rightarrow> bx_ID x = be_ID e | Inr t \<Rightarrow> br_ID t = be_ID e"
    using assms(1) r unfolding carries_id_def by (metis fst_conv)
  show ?case using Cons.prems Cons.IH [OF l] r l i by (cases r) auto
qed simp

lemma checkDuplicate_None:
  "checkDuplicateBatchIDs seen es = None \<longleftrightarrow> distinct (map be_ID es) \<and> set seen \<inter> be_ID ` set es = {}"
  by (induction es arbitrary: seen) auto

lemma batch_checked_None:
  "batch_checked es = None \<longleftrightarrow> es \<noteq> [] \<and> length es \<le> 10 \<and> distinct (map be_ID es)"
  by (auto simp: batch_checked_def VerifyBatchSize_def limit_defs checkDuplicate_None split: option.splits)

lemma handle_batch_answers:
  assumes "carries_id f" "handle_batch H action f d req st = (Inr rp, st')"
  shows "mset (map br_ID (rp_BatchResults rp)) + mset (map bx_ID (rp_BatchErrors rp)) =
      mset (map be_ID (ar_BatchEntries req)) \<and> batch_checked (ar_BatchEntries req) = None \<and>
    subseq (map br_ID (rp_BatchResults rp)) (map be_ID (ar_BatchEntries req)) \<and>
    subseq (map bx_ID (rp_BatchErrors rp)) (map be_ID (ar_BatchEntries req))"
  using assms(2) batch_loop_ids [OF assms(1)]
  by (auto simp: handle_batch_def on_queue_def Let_def split: sum.splits prod.splits option.splits)

text \<open>
  C5.  An answered batch has 1 to 10 entries with distinct identifiers, and its answer names
  each of them exactly once, as a result or as an error, each list in the order of the
  entries.
\<close>

theorem batch_answers_every_entry:
  assumes "ar_Action req \<in> {''SendMessageBatch'', ''DeleteMessageBatch'', ''ChangeMessageVisibilityBatch''}"
    and "HandleRequest H d req st = (Inr rp, st')"
  shows "mset (map br_ID (rp_BatchResults rp)) + mset (map bx_ID (rp_BatchErrors rp)) =
      mset (map be_ID (ar_BatchEntries req)) \<and> distinct (map be_ID (ar_BatchEntries req)) \<and>
    length (ar_BatchEntries req) \<in> {1..10} \<and>
    subseq (map br_ID (rp_BatchResults rp)) (map be_ID (ar_BatchEntries req)) \<and>
    subseq (map bx_ID (rp_BatchErrors rp)) (map be_ID (ar_BatchEntries req))"
proof -
  have "\<exists>f. carries_id f \<and> handle_batch H (ar_Action req) f d req st = (Inr rp, st')"
    using assms entries_carry_id(1) [of H d] entries_carry_id(2) [of H] entries_carry_id(3) [of H d]
    unfolding HandleRequest_def Let_def handleSendMessageBatch_def handleDeleteMessageBatch_def
      handleChangeMessageVisibilityBatch_def by auto
  then obtain f where f: "carries_id f" "handle_batch H (ar_Action req) f d req st = (Inr rp, st')" by blast
  note b = handle_batch_answers [OF this]
  then have "ar_BatchEntries req \<noteq> []" by (simp add: batch_checked_None)
  then have "1 \<le> length (ar_BatchEntries req)" by (simp add: Suc_le_eq)
  with b show ?thesis by (simp add: batch_checked_None)
qed

subsection \<open>A batch of sends is its sends\<close>

definition later :: "nat \<Rightarrow> draws \<Rightarrow> draws" where
  "later k d = d\<lparr> dr_now := (\<lambda>i. dr_now d (k + i)), dr_message_id := (\<lambda>i. dr_message_id d (k + i)),
     dr_store_now := (\<lambda>i. dr_store_now d (k + i)) \<rparr>"

definition entry_request :: "action_request \<Rightarrow> batch_entry \<Rightarrow> action_request" where
  "entry_request req e = req\<lparr> ar_Action := ''SendMessage'', ar_MessageBody := be_MessageBody e,
     ar_DelaySeconds := be_DelaySeconds e, ar_MessageAttributes := be_MessageAttributes e,
     ar_MessageSystemAttributes := be_MessageSystemAttributes e, ar_MessageGroupID := be_MessageGroupID e,
     ar_MessageDeduplicationID := be_MessageDeduplicationID e \<rparr>"

fun sends ::
  "'s handler_env \<Rightarrow> draws \<Rightarrow> action_request \<Rightarrow> nat \<Rightarrow> batch_entry list \<Rightarrow> 's handler_state
   \<Rightarrow> (string \<times> (go_error + action_response)) list \<times> 's handler_state" where
  "sends H d req k [] st = ([], st)"
| "sends H d req k (e # es) st =
     (let (r, st1) = handleSendMessage H (later k d) (entry_request req e) st;
          (rs, st2) = sends H d req (Suc k) es st1
      in ((be_ID e, r) # rs, st2))"

text \<open>The sends that were accepted, with the sequence number they got, and those refused.\<close>

fun accepted :: "(string \<times> (go_error + action_response)) list \<Rightarrow> (string \<times> string) list" where
  "accepted [] = []"
| "accepted ((i, Inl err) # rs) = accepted rs"
| "accepted ((i, Inr rp) # rs) =
     (i, case rp_Message rp of None \<Rightarrow> [] | Some m \<Rightarrow> SequenceNumber m) # accepted rs"

fun refused :: "(string \<times> (go_error + action_response)) list \<Rightarrow> string list" where
  "refused [] = []"
| "refused ((i, Inl err) # rs) = i # refused rs"
| "refused ((i, Inr rp) # rs) = refused rs"

definition resolved :: "action_request \<Rightarrow> 's queue \<Rightarrow> 's handler_state \<Rightarrow> bool" where
  "resolved req q st \<longleftrightarrow> ar_QueueURL req \<noteq> [] \<and> named req \<noteq> [] \<and>
     map_of (qm_queues (hs_manager st)) (named req) = Some q \<and> q_name q = named req"

lemma resolved_on_queue: "resolved req q st \<Longrightarrow> on_queue H req k st = k q st"
  by (simp add: resolved_def named_def on_queue_def resolveQueue_def LookupQueueByURL_def LookupQueue_def Let_def)

lemma update_same: "map_of al k = Some v \<Longrightarrow> AList.update k v al = al"
  by (induction al) auto

lemma update_twice: "AList.update k v (AList.update k w al) = AList.update k v al"
  by (induction al) auto

lemma put_same: "resolved req q st \<Longrightarrow> put_queue q st = st"
  by (simp add: resolved_def put_queue_def update_same)

lemma put_twice: "q_name q = q_name q' \<Longrightarrow> put_queue q (put_queue q' st) = put_queue q st"
  by (simp add: put_queue_def update_twice)

lemma resolved_put: "resolved req q st \<Longrightarrow> resolved req (q\<lparr> q_store := s \<rparr>) (put_queue (q\<lparr> q_store := s \<rparr>) st)"
  by (simp add: resolved_def put_queue_def update_conv')


lemma fifo_ids_entry:
  "fifo_entry_error a e = None \<Longrightarrow> fifo_ids a (entry_request req e) =
     Inr (if qa_FifoQueue a then be_MessageGroupID e else [], if qa_FifoQueue a then be_MessageDeduplicationID e else [])"
  "fifo_entry_error a e = Some x \<Longrightarrow> \<exists>err. fifo_ids a (entry_request req e) = Inl err"
  by (auto simp: fifo_entry_error_def fifo_ids_def entry_request_def Let_def split: if_splits option.splits)

lemma entry_request_simps [simp]:
  "ar_QueueURL (entry_request req e) = ar_QueueURL req" "ar_MessageBody (entry_request req e) = be_MessageBody e"
  "ar_DelaySeconds (entry_request req e) = be_DelaySeconds e"
  "ar_MessageAttributes (entry_request req e) = be_MessageAttributes e"
  "ar_MessageSystemAttributes (entry_request req e) = be_MessageSystemAttributes e"
  by (simp_all add: entry_request_def)

lemma later_simps [simp]: "dr_now (later k d) 0 = dr_now d k" "dr_message_id (later k d) 0 = dr_message_id d k"
  "dr_store_now (later k d) 0 = dr_store_now d k"
  by (simp_all add: later_def)

text \<open>A send and an entry of a batch do the same to the store, and both or neither succeed.\<close>

lemma send_is_entry:
  assumes "resolved req q st" "send_entry H d q k e (q_store q) = (r, s')"
  shows "\<exists>r'. handleSendMessage H (later k d) (entry_request req e) st = (r', put_queue (q\<lparr> q_store := s' \<rparr>) st) \<and>
    (case r of Inl x \<Rightarrow> \<exists>err. r' = Inl err | Inr t \<Rightarrow> \<exists>rp m. r' = Inr rp \<and> rp_Message rp = Some m \<and> SequenceNumber m = br_SequenceNumber t)"
proof -
  have res: "resolved (entry_request req e) q st" using assms(1) by (simp add: resolved_def named_def)
  have same: "put_queue q st = st" by (rule put_same [OF assms(1)])
  have fifo: "fifo_entry_error (q_attributes q) e \<noteq> None \<Longrightarrow>
      \<exists>err. fifo_ids (q_attributes q) (entry_request req e) = Inl err"
    using fifo_ids_entry(2) by blast
  show ?thesis
    using assms(2) fifo fifo_ids_entry(1) [of "q_attributes q" e req]
    by (auto simp: handleSendMessage_def resolved_on_queue [OF res] send_entry_def Let_def same
        split: if_splits option.splits prod.splits)
qed


lemma send_entry_store [simp]: "send_entry H d (q\<lparr> q_store := s \<rparr>) = send_entry H d q"
  by (intro ext) (simp add: send_entry_def Let_def)

lemma batch_is_sends:
  assumes "resolved req q st" "batch_loop (send_entry H d q) k es (q_store q) = (results, errors, s')"
  shows "\<exists>rs. sends H d req k es st = (rs, put_queue (q\<lparr> q_store := s' \<rparr>) st) \<and>
    accepted rs = map (\<lambda>t. (br_ID t, br_SequenceNumber t)) results \<and> refused rs = map bx_ID errors"
  using assms
proof (induction es arbitrary: k q st results errors s')
  case Nil
  have "q\<lparr> q_store := q_store q \<rparr> = q" by simp
  then show ?case using Nil put_same [OF Nil.prems(1)] by auto
next
  case (Cons e es)
  obtain r s1 where r: "send_entry H d q k e (q_store q) = (r, s1)" by fastforce
  let ?q1 = "q\<lparr> q_store := s1 \<rparr>"
  let ?st1 = "put_queue ?q1 st"
  obtain results1 errors1 s2 where l: "batch_loop (send_entry H d q) (Suc k) es s1 = (results1, errors1, s2)"
    by (metis prod_cases3)
  then obtain rs where rs: "sends H d req (Suc k) es ?st1 = (rs, put_queue (?q1\<lparr> q_store := s2 \<rparr>) ?st1)"
    "accepted rs = map (\<lambda>t. (br_ID t, br_SequenceNumber t)) results1" "refused rs = map bx_ID errors1"
    using Cons.IH [OF resolved_put [OF Cons.prems(1)], of s1 "Suc k" results1 errors1 s2] by auto
  obtain r' where r': "handleSendMessage H (later k d) (entry_request req e) st = (r', ?st1)"
    "case r of Inl x \<Rightarrow> \<exists>err. r' = Inl err
      | Inr t \<Rightarrow> \<exists>rp m. r' = Inr rp \<and> rp_Message rp = Some m \<and> SequenceNumber m = br_SequenceNumber t"
    using send_is_entry [OF Cons.prems(1) r] by blast
  have i: "case r of Inl x \<Rightarrow> bx_ID x = be_ID e | Inr t \<Rightarrow> br_ID t = be_ID e"
    using entries_carry_id(1) [of H d] r unfolding carries_id_def by (metis fst_conv)
  have "sends H d req k (e # es) st = ((be_ID e, r') # rs, put_queue (q\<lparr> q_store := s2 \<rparr>) st)"
    using r' rs by (simp add: put_twice)
  moreover have "s2 = s'" "results = (case r of Inl _ \<Rightarrow> results1 | Inr t \<Rightarrow> t # results1)"
    "errors = (case r of Inl x \<Rightarrow> x # errors1 | Inr _ \<Rightarrow> errors1)"
    using Cons.prems(2) r l by (auto split: sum.splits)
  ultimately show ?case using r'(2) i rs by (cases r) auto
qed

lemma resolveQueue_resolved:
  assumes "manager_ok (hs_manager st)" "resolveQueue H (ar_QueueURL req) st = (Inr q, st1)"
  shows "resolved req q st1"
proof -
  have "ar_QueueURL req \<noteq> []" using assms(2) by (auto simp: resolveQueue_def split: if_splits)
  moreover have "named req \<noteq> []"
    using assms(2) by (auto simp: resolveQueue_def LookupQueueByURL_def named_def Let_def split: if_splits)
  ultimately show ?thesis
    using resolveQueue_found(2) [OF assms refl] by (simp add: resolved_def named_def Lookup_Some)
qed

lemma sends_from_resolved:
  assumes "manager_ok (hs_manager st)" "resolveQueue H (ar_QueueURL req) st = (Inr q, st1)" "es \<noteq> []"
  shows "sends H d req k es st = sends H d req k es st1"
proof -
  have "resolved req q st1" by (rule resolveQueue_resolved [OF assms(1,2)])
  then have "resolveQueue H (ar_QueueURL req) st1 = (Inr q, st1)"
    by (simp add: resolved_def named_def resolveQueue_def LookupQueueByURL_def LookupQueue_def Let_def)
  then have "handleSendMessage H (later k d) (entry_request req e) st =
      handleSendMessage H (later k d) (entry_request req e) st1" for e
    using assms(2) by (simp add: handleSendMessage_def on_queue_def)
  then show ?thesis using assms(3) by (cases es) auto
qed

text \<open>
  C4.  A batch of sends is its sends: it leaves the state that sending the entries one by one
  with \<open>SendMessage\<close> leaves, gives a result for exactly the entries \<open>SendMessage\<close> accepts,
  with the sequence number the store gave the message, and an error for those it refuses.
\<close>

theorem send_batch_is_sends:
  assumes "manager_ok (hs_manager st)" "ar_Action req = ''SendMessageBatch''"
    and "HandleRequest H d req st = (Inr rp, st')"
    and "sends H d req 0 (ar_BatchEntries req) st = (rs, st'')"
  shows "st'' = st' \<and> accepted rs = map (\<lambda>t. (br_ID t, br_SequenceNumber t)) (rp_BatchResults rp) \<and>
    refused rs = map bx_ID (rp_BatchErrors rp)"
proof -
  have b: "handle_batch H ''SendMessageBatch'' (send_entry H d) d req st = (Inr rp, st')"
    using assms(2,3) by (simp add: HandleRequest_def handleSendMessageBatch_def)
  have "ar_BatchEntries req \<noteq> []"
    using handle_batch_answers [OF entries_carry_id(1) b] by (simp add: batch_checked_None)
  moreover obtain q st1 where q: "resolveQueue H (ar_QueueURL req) st = (Inr q, st1)"
    using b by (auto simp: handle_batch_def on_queue_def split: prod.splits sum.splits)
  ultimately have s: "sends H d req 0 (ar_BatchEntries req) st1 = (rs, st'')"
    using sends_from_resolved [OF assms(1) q, of "ar_BatchEntries req" d 0] assms(4) by simp
  obtain results errors s' where
    l: "batch_loop (send_entry H d q) 0 (ar_BatchEntries req) (q_store q) = (results, errors, s')"
    by (metis prod_cases3)
  have "st' = put_queue (q\<lparr> q_store := s' \<rparr>) st1" "rp_BatchResults rp = results" "rp_BatchErrors rp = errors"
    using b q l by (auto simp: handle_batch_def on_queue_def Let_def split: option.splits)
  then show ?thesis using batch_is_sends [OF resolveQueue_resolved [OF assms(1) q] l] s by auto
qed


subsection \<open>The theorems at work\<close>

text \<open>A server over stores that accept everything, with two queues.\<close>

definition sample_handlers :: "nat handler_env" where
  "sample_handlers = \<lparr> hd_ops = counter_ops, hd_receive = (\<lambda>now rnd n vt wait s. (Inr [], [], s)), hd_dlq = (\<lambda>s. None),
     hd_factory = (\<lambda>name vt secret cfg. Inr 0), hd_policy = (\<lambda>s. None), hd_md5 = (\<lambda>s. s), hd_mode = StrictMode,
     hd_autoCreate = False \<rparr>"

definition sample_server :: "nat handler_state" where
  "sample_server = \<lparr> hs_manager = (NewQueueManager ''h'' ''a'' ''r'' ''s'')\<lparr> qm_queues :=
     [(''jobs'', NewQueue ''jobs'' None 0), (''mail'', NewQueue ''mail'' None 0)] \<rparr>, hs_tasks = [] \<rparr>"

definition sample_draws :: draws where
  "sample_draws = \<lparr> dr_now = (\<lambda>i. 0), dr_message_id = (\<lambda>i. ''m''), dr_request_id = ''r'',
     dr_store_now = (\<lambda>i. \<lambda>k. 0), dr_nonces = (\<lambda>i. ''n''), dr_task_handle = ''t'' \<rparr>"

definition action_sample :: "string \<Rightarrow> json gomap \<Rightarrow> action_request" where
  "action_sample action m =
     JSONRequestAdapter \<lparr> jr_Action = action, jr_Body = (''QueueUrl'', JString ''http://h/a/jobs'') # m \<rparr>"

lemma sample_ok: "manager_ok (hs_manager sample_server)"
  by (simp add: sample_server_def manager_ok_def NewQueue_def)

lemma sample_fields [simp]: "ar_Action (action_sample a m) = a"
  "ar_QueueURL (action_sample a m) = ''http://h/a/jobs''"
  "ar_MessageBody (action_sample a m) = json_string ((''QueueUrl'', JString ''http://h/a/jobs'') # m) ''MessageBody''"
  "ar_BatchEntries (action_sample a m) =
     json_batch_entries \<lparr> jr_Action = a, jr_Body = (''QueueUrl'', JString ''http://h/a/jobs'') # m \<rparr>"
  by (simp_all add: action_sample_def JSONRequestAdapter_def Let_def json_string_def)

lemma sample_handlers_simps [simp]:
  "hd_ops sample_handlers = counter_ops" "hd_dlq sample_handlers = (\<lambda>s. None)" "hd_mode sample_handlers = StrictMode"
  "op_DeleteMessage counter_ops h s = (None, s)" "op_SendMessage counter_ops now m n s = (None, m, s)"
  by (simp_all add: sample_handlers_def counter_ops_def)

lemma sample_name: "ExtractQueueNameFromURL ''http://h/a/jobs'' = ''jobs''"
  by code_simp

lemma sample_resolved: "on_queue sample_handlers (action_sample a m) k sample_server = k (NewQueue ''jobs'' None 0) sample_server"
  by (rule resolved_on_queue) (simp add: resolved_def named_def sample_name sample_server_def NewQueue_def)


definition sample_batch :: "json gomap list \<Rightarrow> json gomap" where
  "sample_batch entries = [(''Entries'', JArray (map JObject entries))]"

lemma batch_answers_every_entry_witness:
  "\<exists>rp st'. HandleRequest sample_handlers sample_draws (action_sample ''DeleteMessageBatch''
       (sample_batch [[(''Id'', JString ''1''), (''ReceiptHandle'', JString ''h'')], [(''Id'', JString ''2'')]])) sample_server =
       (Inr rp, st') \<and>
     mset (map br_ID (rp_BatchResults rp)) + mset (map bx_ID (rp_BatchErrors rp)) = mset [''1'', ''2''] \<and>
     map bx_ID (rp_BatchErrors rp) = [''2'']"
proof -
  let ?req = "action_sample ''DeleteMessageBatch''
    (sample_batch [[(''Id'', JString ''1''), (''ReceiptHandle'', JString ''h'')], [(''Id'', JString ''2'')]])"
  have es: "map be_ID (ar_BatchEntries ?req) = [''1'', ''2'']" "map be_ReceiptHandle (ar_BatchEntries ?req) = [''h'', []]"
    by (simp_all add: json_batch_entries_def json_array_def sample_batch_def json_entry_def json_string_def)
  then obtain e1 e2 where e: "ar_BatchEntries ?req = [e1, e2]" "be_ID e1 = ''1''" "be_ID e2 = ''2''"
    "be_ReceiptHandle e1 = ''h''" "be_ReceiptHandle e2 = []" by (auto simp: map_eq_Cons_conv)
  have ok: "batch_checked [e1, e2] = None" using e by (simp add: batch_checked_None)
  obtain rp st' where h: "HandleRequest sample_handlers sample_draws ?req sample_server = (Inr rp, st')"
    and x: "map bx_ID (rp_BatchErrors rp) = [''2'']"
    using e ok by (auto simp: HandleRequest_def handleDeleteMessageBatch_def handle_batch_def sample_resolved
        delete_entry_def newBatchError_def Let_def)
  show ?thesis using batch_answers_every_entry [OF _ h] h x es(1) by auto
qed

lemma send_batch_is_sends_witness:
  "\<exists>rp st' rs. HandleRequest sample_handlers sample_draws (action_sample ''SendMessageBatch''
       (sample_batch [[(''Id'', JString ''1''), (''MessageBody'', JString ''x'')], [(''Id'', JString ''2'')]])) sample_server =
       (Inr rp, st') \<and> map fst (accepted rs) = map br_ID (rp_BatchResults rp) \<and> map br_ID (rp_BatchResults rp) = [''1''] \<and>
     refused rs = map bx_ID (rp_BatchErrors rp)"
proof -
  let ?req = "action_sample ''SendMessageBatch''
    (sample_batch [[(''Id'', JString ''1''), (''MessageBody'', JString ''x'')], [(''Id'', JString ''2'')]])"
  have "map be_ID (ar_BatchEntries ?req) = [''1'', ''2'']" "map be_MessageBody (ar_BatchEntries ?req) = [''x'', []]"
    "map be_DelaySeconds (ar_BatchEntries ?req) = [0, 0]"
    by (simp_all add: json_batch_entries_def json_array_def sample_batch_def json_entry_def json_string_def json_int_def)
  then obtain e1 e2 where e: "ar_BatchEntries ?req = [e1, e2]" "be_ID e1 = ''1''" "be_ID e2 = ''2''"
    "be_MessageBody e1 = ''x''" "be_MessageBody e2 = []" "be_DelaySeconds e1 = 0" by (auto simp: map_eq_Cons_conv)
  have ok: "batch_checked [e1, e2] = None" using e by (simp add: batch_checked_None)
  obtain rp st' where h: "HandleRequest sample_handlers sample_draws ?req sample_server = (Inr rp, st')"
    and x: "map br_ID (rp_BatchResults rp) = [''1'']"
    using e ok
    by (auto simp: HandleRequest_def handleSendMessageBatch_def handle_batch_def sample_resolved send_entry_def
        newBatchError_def VerifyMessageSize_def effectiveMax_def VerifyDelaySeconds_def
        fifo_entry_error_def NewQueue_def NewDefaultQueueAttributes_def limit_defs Let_def)
  obtain rs st'' where "sends sample_handlers sample_draws ?req 0 (ar_BatchEntries ?req) sample_server = (rs, st'')"
    by fastforce
  from send_batch_is_sends [OF sample_ok _ h this] show ?thesis
    using h x by (intro exI [of _ rp] exI [of _ st'] exI [of _ rs]) (auto simp: o_def)
qed

end
