(* ===== verification/Marshal.thy ===== *)
theory Marshal
  imports Handlers
begin

section \<open>Responses on the wire\<close>

text \<open>
  \<^verbatim>\<open>protocol/marshal.go\<close>, \<^verbatim>\<open>protocol/errors.go\<close>, \<^verbatim>\<open>handlers/marshal.go\<close> and the message
  builders of \<^verbatim>\<open>handlers/message_builder.go\<close>.  The response types of the code are structs
  whose tags say how \<open>encoding/xml\<close> and \<open>encoding/json\<close> write them; the model has a
  function for each, from the fields to the document, and the two printers.  Where the code
  ranges over a map, an XML document has the entries in the order of that run and a JSON
  object has them sorted by key.
\<close>

subsection \<open>Documents and their text\<close>

datatype xml = Leaf string string | Node string "xml list"

text \<open>\<open>xml.MarshalIndent\<close> with two blanks a level.\<close>

definition pad :: "nat \<Rightarrow> string" where
  "pad d = replicate (2 * d) (CHR '' '')"

fun write_xml :: "nat \<Rightarrow> xml \<Rightarrow> string" where
  "write_xml d (Leaf name t) = pad d @ xml_element name (EscapeText t)"
| "write_xml d (Node name cs) = pad d @ xml_element name
     (if cs = [] then [] else concat (map (\<lambda>c. CHR 0x0A # write_xml (Suc d) c) cs) @ CHR 0x0A # pad d)"

definition MarshalXMLResponse :: "xml \<Rightarrow> string" where
  "MarshalXMLResponse v = xml_header @ write_xml 0 v"

text \<open>A JSON text: the escapes of \<open>encoding/json\<close> with HTML escaping off.\<close>

definition json_rune :: "string \<Rightarrow> string" where
  "json_rune r =
     (let bs = CHR 0x5C in
      if r = [CHR 0x22] \<or> r = [bs] then bs # r
      else if r = [CHR 0x08] then [bs, CHR ''b''] else if r = [CHR 0x0C] then [bs, CHR ''f'']
      else if r = [CHR 0x0A] then [bs, CHR ''n''] else if r = [CHR 0x0D] then [bs, CHR ''r'']
      else if r = [CHR 0x09] then [bs, CHR ''t'']
      else if length r = 1 \<and> byte_of (hd r) < 32 then bs # ''u00'' @ hex_byte (hd r)
      else if map byte_of r = [226, 128, 168] then bs # ''u2028''
      else if map byte_of r = [226, 128, 169] then bs # ''u2029''
      else r)"

function json_body :: "string \<Rightarrow> string" where
  "json_body [] = []"
| "json_body (c # s) =
     (if rune_len (c # s) = 0 then CHR 0x5C # ''ufffd'' @ json_body s
      else json_rune (take (rune_len (c # s)) (c # s)) @ json_body (drop (rune_len (c # s)) (c # s)))"
  by pat_completeness auto
termination by (relation "measure length") auto

definition json_quote :: "string \<Rightarrow> string" where
  "json_quote s = [CHR 0x22] @ json_body s @ [CHR 0x22]"

fun json_text :: "json \<Rightarrow> string" and json_items :: "json list \<Rightarrow> string list"
  and json_members :: "json gomap \<Rightarrow> string list" where
  "json_text JNull = ''null''"
| "json_text (JBool b) = (if b then ''true'' else ''false'')"
| "json_text (JNumber n) = itoa n"
| "json_text (JString s) = json_quote s"
| "json_text (JArray vs) = ''['' @ Join '','' (json_items vs) @ '']''"
| "json_text (JObject kvs) = ''{'' @ Join '','' (json_members kvs) @ ''}''"
| "json_items [] = []"
| "json_items (v # vs) = json_text v # json_items vs"
| "json_members [] = []"
| "json_members ((k, v) # kvs) = (json_quote k @ '':'' @ json_text v) # json_members kvs"

text \<open>\<open>jsonMarshal\<close>, which is all of \<open>MarshalJSONResponse\<close>: the newline \<open>Encode\<close> adds is trimmed again.\<close>

definition jsonMarshal :: "json \<Rightarrow> string" where
  "jsonMarshal v = json_text v"

text \<open>A tag \<open>omitempty\<close>, and a Go map as a JSON object.\<close>

definition leaf_if :: "string \<Rightarrow> string \<Rightarrow> xml list" where
  "leaf_if name t = (if t = [] then [] else [Leaf name t])"

definition int_if :: "string \<Rightarrow> int \<Rightarrow> xml list" where
  "int_if name n = (if n = 0 then [] else [Leaf name (itoa n)])"

definition str_if :: "string \<Rightarrow> string \<Rightarrow> json gomap" where
  "str_if k s = (if s = [] then [] else [(k, JString s)])"

definition num_if :: "string \<Rightarrow> int \<Rightarrow> json gomap" where
  "num_if k n = (if n = 0 then [] else [(k, JNumber n)])"

definition arr_if :: "string \<Rightarrow> json list \<Rightarrow> json gomap" where
  "arr_if k vs = (if vs = [] then [] else [(k, JArray vs)])"

definition map_object :: "string gomap \<Rightarrow> json" where
  "map_object m = JObject (map (\<lambda>(k, v). (k, JString v)) (sort_key fst m))"

subsection \<open>The XML responses\<close>

definition ResponseMetadata :: "string \<Rightarrow> xml" where
  "ResponseMetadata rid = Node ''ResponseMetadata'' [Leaf ''RequestId'' rid]"

definition CreateQueueResponse :: "string \<Rightarrow> string \<Rightarrow> xml" where
  "CreateQueueResponse url rid = 
     Node ''CreateQueueResponse'' [Node ''CreateQueueResult'' [Leaf ''QueueUrl'' url], ResponseMetadata rid]"

definition DeleteQueueResponse :: "string \<Rightarrow> xml" where
  "DeleteQueueResponse rid = Node ''DeleteQueueResponse'' [ResponseMetadata rid]"

definition GetQueueURLResponse :: "string \<Rightarrow> string \<Rightarrow> xml" where
  "GetQueueURLResponse url rid = 
     Node ''GetQueueUrlResponse'' [Node ''GetQueueUrlResult'' [Leaf ''QueueUrl'' url], ResponseMetadata rid]"

definition ListQueuesResponse :: "string list \<Rightarrow> string \<Rightarrow> xml" where
  "ListQueuesResponse urls rid = 
     Node ''ListQueuesResponse'' [Node ''ListQueuesResult'' (map (Leaf ''QueueUrl'') urls), ResponseMetadata rid]"

definition SendMessageResponse :: "message \<Rightarrow> string \<Rightarrow> xml" where
  "SendMessageResponse m rid = 
     Node ''SendMessageResponse'' [Node ''SendMessageResult''
       ([Leaf ''MessageId'' (MessageID m), Leaf ''MD5OfMessageBody'' (MD5OfBody m)] @
        leaf_if ''MD5OfMessageAttributes'' (MD5OfMessageAttributes m) @
        leaf_if ''MD5OfMessageSystemAttributes'' (MD5OfMessageSystemAttributes m) @
        leaf_if ''SequenceNumber'' (SequenceNumber m)), ResponseMetadata rid]"

definition XMLAttribute :: "string \<times> string \<Rightarrow> xml" where
  "XMLAttribute = (\<lambda>(k, v). Node ''Attribute'' [Leaf ''Name'' k, Leaf ''Value'' v])"

definition XMLAttrValue :: "message_attribute \<Rightarrow> xml" where
  "XMLAttrValue a = 
     Node ''Value'' ([Leaf ''DataType'' (DataType a)] @ leaf_if ''StringValue'' (StringValue a) @
       leaf_if ''BinaryValue'' (if BinaryValue a = [] then [] else base64 (BinaryValue a)))"

definition XMLMsgAttribute :: "string \<times> message_attribute \<Rightarrow> xml" where
  "XMLMsgAttribute = 
     (\<lambda>(name, a). Node ''MessageAttribute'' [Leaf ''Name'' name, XMLAttrValue a])"

text \<open>The system attributes a message is shown with, the same for both protocols.\<close>

definition formatTimestamp :: "time \<Rightarrow> string" where
  "formatTimestamp t = itoa (unix_milli t)"

definition formatInt :: "int \<Rightarrow> string" where
  "formatInt i = itoa i"

definition shown_attributes :: "message \<Rightarrow> string gomap" where
  "shown_attributes m =
     (if \<not> IsZero (SentTimestamp m) then [(''SentTimestamp'', formatTimestamp (SentTimestamp m))] else []) @
     (if ApproximateReceiveCount m > 0 then [(''ApproximateReceiveCount'', formatInt (ApproximateReceiveCount m))] else []) @
     (if \<not> IsZero (FirstReceivedTimestamp m)
      then [(''ApproximateFirstReceiveTimestamp'', formatTimestamp (FirstReceivedTimestamp m))] else [])"

definition buildXMLMessage :: "message \<Rightarrow> xml" where
  "buildXMLMessage m = 
     Node ''Message''
       ([Leaf ''MessageId'' (MessageID m), Leaf ''ReceiptHandle'' (ReceiptHandle m),
         Leaf ''MD5OfBody'' (MD5OfBody m), Leaf ''Body'' (Body m)] @
        leaf_if ''MD5OfMessageAttributes'' (MD5OfMessageAttributes m) @
        leaf_if ''MD5OfMessageSystemAttributes'' (MD5OfMessageSystemAttributes m) @
        leaf_if ''SequenceNumber'' (SequenceNumber m) @
        map XMLAttribute (shown_attributes m) @ map XMLMsgAttribute (MessageAttributes m))"

definition ReceiveMessageResponse :: "message list \<Rightarrow> string \<Rightarrow> xml" where
  "ReceiveMessageResponse ms rid = 
     Node ''ReceiveMessageResponse'' [Node ''ReceiveMessageResult'' (map buildXMLMessage ms), ResponseMetadata rid]"

definition DeleteMessageResponse :: "string \<Rightarrow> xml" where
  "DeleteMessageResponse rid = Node ''DeleteMessageResponse'' [ResponseMetadata rid]"

definition ChangeMessageVisibilityResponse :: "string \<Rightarrow> xml" where
  "ChangeMessageVisibilityResponse rid = Node ''ChangeMessageVisibilityResponse'' [ResponseMetadata rid]"

definition GetQueueAttributesResponse :: "string gomap \<Rightarrow> string \<Rightarrow> xml" where
  "GetQueueAttributesResponse attrs rid = 
     Node ''GetQueueAttributesResponse''
       [Node ''GetQueueAttributesResult'' (map XMLAttribute attrs), ResponseMetadata rid]"

definition SetQueueAttributesResponse :: "string \<Rightarrow> xml" where
  "SetQueueAttributesResponse rid = Node ''SetQueueAttributesResponse'' [ResponseMetadata rid]"

definition PurgeQueueResponse :: "string \<Rightarrow> xml" where
  "PurgeQueueResponse rid = Node ''PurgeQueueResponse'' [ResponseMetadata rid]"

definition BatchResultErrorEntry :: "batch_error \<Rightarrow> xml" where
  "BatchResultErrorEntry e = 
     Node ''BatchResultErrorEntry'' [Leaf ''Id'' (bx_ID e), Leaf ''Code'' (bx_Code e),
       Leaf ''Message'' (bx_Message e), Leaf ''SenderFault'' (if bx_SenderFault e then ''true'' else ''false'')]"

definition SendMessageBatchResultEntry :: "batch_result \<Rightarrow> xml" where
  "SendMessageBatchResultEntry r = 
     Node ''SendMessageBatchResultEntry''
       ([Leaf ''Id'' (br_ID r), Leaf ''MessageId'' (br_MessageID r), Leaf ''MD5OfMessageBody'' (br_MD5OfBody r)] @
        leaf_if ''MD5OfMessageAttributes'' (br_MD5OfMessageAttributes r) @
        leaf_if ''MD5OfMessageSystemAttributes'' (br_MD5OfMessageSystemAttributes r) @
        leaf_if ''SequenceNumber'' (br_SequenceNumber r))"

definition SendMessageBatchResponse :: "batch_result list \<Rightarrow> batch_error list \<Rightarrow> string \<Rightarrow> xml" where
  "SendMessageBatchResponse rs es rid = 
     Node ''SendMessageBatchResponse'' ([Node ''SendMessageBatchResult'' (map SendMessageBatchResultEntry rs)] @
       map BatchResultErrorEntry es @ [ResponseMetadata rid])"

definition DeleteMessageBatchResultEntry :: "batch_result \<Rightarrow> xml" where
  "DeleteMessageBatchResultEntry r = Node ''DeleteMessageBatchResultEntry'' [Leaf ''Id'' (br_ID r)]"

definition DeleteMessageBatchResponse :: "batch_result list \<Rightarrow> batch_error list \<Rightarrow> string \<Rightarrow> xml" where
  "DeleteMessageBatchResponse rs es rid = 
     Node ''DeleteMessageBatchResponse'' ([Node ''DeleteMessageBatchResult'' (map DeleteMessageBatchResultEntry rs)] @
       map BatchResultErrorEntry es @ [ResponseMetadata rid])"

definition ChangeMessageVisibilityBatchResultEntry :: "batch_result \<Rightarrow> xml" where
  "ChangeMessageVisibilityBatchResultEntry r = Node ''ChangeMessageVisibilityBatchResultEntry'' [Leaf ''Id'' (br_ID r)]"

definition ChangeMessageVisibilityBatchResponse :: "batch_result list \<Rightarrow> batch_error list \<Rightarrow> string \<Rightarrow> xml" where
  "ChangeMessageVisibilityBatchResponse rs es rid = 
     Node ''ChangeMessageVisibilityBatchResponse'' ([Node ''ChangeMessageVisibilityBatchResult'' (map ChangeMessageVisibilityBatchResultEntry rs)] @
       map BatchResultErrorEntry es @ [ResponseMetadata rid])"

definition XMLTagEntry :: "string \<times> string \<Rightarrow> xml" where
  "XMLTagEntry = (\<lambda>(k, v). Node ''Tag'' [Leaf ''Key'' k, Leaf ''Value'' v])"

definition ListQueueTagsResponse :: "string gomap \<Rightarrow> string \<Rightarrow> xml" where
  "ListQueueTagsResponse tags rid = 
     Node ''ListQueueTagsResponse'' [Node ''ListQueueTagsResult'' (map XMLTagEntry tags), ResponseMetadata rid]"

definition TagQueueResponse :: "string \<Rightarrow> xml" where
  "TagQueueResponse rid = Node ''TagQueueResponse'' [ResponseMetadata rid]"

definition UntagQueueResponse :: "string \<Rightarrow> xml" where
  "UntagQueueResponse rid = Node ''UntagQueueResponse'' [ResponseMetadata rid]"

definition AddPermissionResponse :: "string \<Rightarrow> xml" where
  "AddPermissionResponse rid = Node ''AddPermissionResponse'' [ResponseMetadata rid]"

definition RemovePermissionResponse :: "string \<Rightarrow> xml" where
  "RemovePermissionResponse rid = Node ''RemovePermissionResponse'' [ResponseMetadata rid]"

definition ListDeadLetterSourceQueuesResponse :: "string list \<Rightarrow> string \<Rightarrow> xml" where
  "ListDeadLetterSourceQueuesResponse urls rid = 
     Node ''ListDeadLetterSourceQueuesResponse''
       [Node ''ListDeadLetterSourceQueuesResult'' (map (Leaf ''QueueUrl'') urls), ResponseMetadata rid]"

definition StartMessageMoveTaskResponse :: "string \<Rightarrow> string \<Rightarrow> xml" where
  "StartMessageMoveTaskResponse handle rid = 
     Node ''StartMessageMoveTaskResponse''
       [Node ''StartMessageMoveTaskResult'' [Leaf ''TaskHandle'' handle], ResponseMetadata rid]"

definition CancelMessageMoveTaskResponse :: "int \<Rightarrow> string \<Rightarrow> xml" where
  "CancelMessageMoveTaskResponse moved rid = 
     Node ''CancelMessageMoveTaskResponse''
       [Node ''CancelMessageMoveTaskResult'' [Leaf ''ApproximateNumberOfMessagesMoved'' (itoa moved)], ResponseMetadata rid]"

definition XMLMoveTaskResult :: "move_result \<Rightarrow> xml" where
  "XMLMoveTaskResult r = 
     Node ''member''
       ([Leaf ''TaskHandle'' (mv_TaskHandle r), Leaf ''SourceArn'' (mv_SourceArn r),
         Leaf ''DestinationArn'' (mv_DestinationArn r), Leaf ''Status'' (mv_Status r)] @
        int_if ''MaxNumberOfMessagesPerSecond'' (mv_MaxNumberOfMessagesPerSecond r) @
        [Leaf ''ApproximateNumberOfMessagesMoved'' (itoa (mv_MovedMessages r))])"

definition ListMessageMoveTasksResponse :: "move_result list \<Rightarrow> string \<Rightarrow> xml" where
  "ListMessageMoveTasksResponse rs rid = 
     Node ''ListMessageMoveTasksResponse''
       [Node ''ListMessageMoveTasksResult'' [Node ''Results'' (map XMLMoveTaskResult rs)], ResponseMetadata rid]"

subsection \<open>The JSON responses\<close>

definition json_rid :: "string \<Rightarrow> json gomap" where
  "json_rid rid = [(''RequestId'', JString rid)]"

definition JSONCreateQueueResponse :: "string \<Rightarrow> string \<Rightarrow> json" where
  "JSONCreateQueueResponse url rid = JObject ((''QueueUrl'', JString url) # json_rid rid)"

definition JSONGetQueueURLResponse :: "string \<Rightarrow> string \<Rightarrow> json" where
  "JSONGetQueueURLResponse url rid = JObject ((''QueueUrl'', JString url) # json_rid rid)"

definition JSONListQueuesResponse :: "string list \<Rightarrow> string \<Rightarrow> json" where
  "JSONListQueuesResponse urls rid = JObject ((''QueueUrls'', JArray (map JString urls)) # json_rid rid)"

definition JSONSendMessageResponse :: "message \<Rightarrow> string \<Rightarrow> json" where
  "JSONSendMessageResponse m rid = 
     JObject ([(''MessageId'', JString (MessageID m)), (''MD5OfMessageBody'', JString (MD5OfBody m))] @
       str_if ''MD5OfMessageAttributes'' (MD5OfMessageAttributes m) @
       str_if ''MD5OfMessageSystemAttributes'' (MD5OfMessageSystemAttributes m) @
       str_if ''SequenceNumber'' (SequenceNumber m) @ json_rid rid)"

definition JSONMsgAttribute :: "message_attribute \<Rightarrow> json" where
  "JSONMsgAttribute a = 
     JObject ([(''DataType'', JString (DataType a))] @ str_if ''StringValue'' (StringValue a) @
       str_if ''BinaryValue'' (if BinaryValue a = [] then [] else base64 (BinaryValue a)))"

definition buildJSONMessage :: "message \<Rightarrow> json" where
  "buildJSONMessage m = 
     JObject ([(''MessageId'', JString (MessageID m)), (''ReceiptHandle'', JString (ReceiptHandle m)),
        (''MD5OfBody'', JString (MD5OfBody m)), (''Body'', JString (Body m))] @
       str_if ''MD5OfMessageAttributes'' (MD5OfMessageAttributes m) @
       str_if ''MD5OfMessageSystemAttributes'' (MD5OfMessageSystemAttributes m) @
       str_if ''SequenceNumber'' (SequenceNumber m) @
       (if shown_attributes m = [] then [] else [(''Attributes'', map_object (shown_attributes m))]) @
       (if MessageAttributes m = [] then []
        else [(''MessageAttributes'', JObject (map (\<lambda>(n, a). (n, JSONMsgAttribute a)) (sort_key fst (MessageAttributes m))))]))"

definition JSONReceiveMessageResponse :: "message list \<Rightarrow> string \<Rightarrow> json" where
  "JSONReceiveMessageResponse ms rid = 
     JObject (arr_if ''Messages'' (map buildJSONMessage ms) @ json_rid rid)"

definition JSONDeleteMessageResponse :: "string \<Rightarrow> json" where
  "JSONDeleteMessageResponse rid = JObject (json_rid rid)"

definition JSONChangeMessageVisibilityResponse :: "string \<Rightarrow> json" where
  "JSONChangeMessageVisibilityResponse rid = JObject (json_rid rid)"

definition JSONGetQueueAttributesResponse :: "string gomap \<Rightarrow> string \<Rightarrow> json" where
  "JSONGetQueueAttributesResponse attrs rid = JObject ((''Attributes'', map_object attrs) # json_rid rid)"

definition JSONSetQueueAttributesResponse :: "string \<Rightarrow> json" where
  "JSONSetQueueAttributesResponse rid = JObject (json_rid rid)"

definition JSONPurgeQueueResponse :: "string \<Rightarrow> json" where
  "JSONPurgeQueueResponse rid = JObject (json_rid rid)"

definition JSONDeleteQueueResponse :: "string \<Rightarrow> json" where
  "JSONDeleteQueueResponse rid = JObject (json_rid rid)"

definition JSONBatchResultEntry :: "batch_result \<Rightarrow> json" where
  "JSONBatchResultEntry r = 
     JObject ([(''Id'', JString (br_ID r))] @ str_if ''MessageId'' (br_MessageID r) @
       str_if ''MD5OfMessageBody'' (br_MD5OfBody r) @ str_if ''MD5OfMessageAttributes'' (br_MD5OfMessageAttributes r) @
       str_if ''MD5OfMessageSystemAttributes'' (br_MD5OfMessageSystemAttributes r) @
       str_if ''SequenceNumber'' (br_SequenceNumber r))"

definition JSONBatchErrorEntry :: "batch_error \<Rightarrow> json" where
  "JSONBatchErrorEntry e = 
     JObject [(''Id'', JString (bx_ID e)), (''Code'', JString (bx_Code e)), (''Message'', JString (bx_Message e)),
       (''SenderFault'', JBool (bx_SenderFault e))]"

definition JSONSendMessageBatchResponse :: "batch_result list \<Rightarrow> batch_error list \<Rightarrow> string \<Rightarrow> json" where
  "JSONSendMessageBatchResponse rs es rid = 
     JObject (arr_if ''Successful'' (map (\<lambda>r. JSONBatchResultEntry r) rs) @
       arr_if ''Failed'' (map JSONBatchErrorEntry es) @ json_rid rid)"

definition JSONDeleteMessageBatchResponse :: "batch_result list \<Rightarrow> batch_error list \<Rightarrow> string \<Rightarrow> json" where
  "JSONDeleteMessageBatchResponse rs es rid = 
     JObject (arr_if ''Successful'' (map (\<lambda>r. JSONBatchResultEntry (only_id (br_ID r))) rs) @
       arr_if ''Failed'' (map JSONBatchErrorEntry es) @ json_rid rid)"

definition JSONChangeMessageVisibilityBatchResponse :: "batch_result list \<Rightarrow> batch_error list \<Rightarrow> string \<Rightarrow> json" where
  "JSONChangeMessageVisibilityBatchResponse rs es rid = 
     JObject (arr_if ''Successful'' (map (\<lambda>r. JSONBatchResultEntry (only_id (br_ID r))) rs) @
       arr_if ''Failed'' (map JSONBatchErrorEntry es) @ json_rid rid)"

definition JSONListQueueTagsResponse :: "string gomap \<Rightarrow> string \<Rightarrow> json" where
  "JSONListQueueTagsResponse tags rid = 
     JObject ((if tags = [] then [] else [(''Tags'', map_object tags)]) @ json_rid rid)"

definition JSONTagQueueResponse :: "string \<Rightarrow> json" where
  "JSONTagQueueResponse rid = JObject (json_rid rid)"

definition JSONUntagQueueResponse :: "string \<Rightarrow> json" where
  "JSONUntagQueueResponse rid = JObject (json_rid rid)"

definition JSONAddPermissionResponse :: "string \<Rightarrow> json" where
  "JSONAddPermissionResponse rid = JObject (json_rid rid)"

definition JSONRemovePermissionResponse :: "string \<Rightarrow> json" where
  "JSONRemovePermissionResponse rid = JObject (json_rid rid)"

text \<open>The handler leaves the slice \<open>nil\<close> when no queue redrives here, and JSON shows \<open>nil\<close> as null.\<close>

definition JSONListDeadLetterSourceQueuesResponse :: "string list \<Rightarrow> string \<Rightarrow> json" where
  "JSONListDeadLetterSourceQueuesResponse urls rid = 
     JObject ((''QueueUrls'', if urls = [] then JNull else JArray (map JString urls)) # json_rid rid)"

definition JSONStartMessageMoveTaskResponse :: "string \<Rightarrow> string \<Rightarrow> json" where
  "JSONStartMessageMoveTaskResponse handle rid = JObject ((''TaskHandle'', JString handle) # json_rid rid)"

definition JSONCancelMessageMoveTaskResponse :: "int \<Rightarrow> string \<Rightarrow> json" where
  "JSONCancelMessageMoveTaskResponse moved rid = 
     JObject ((''ApproximateNumberOfMessagesMoved'', JNumber moved) # json_rid rid)"

definition JSONMoveTaskResult :: "move_result \<Rightarrow> json" where
  "JSONMoveTaskResult r = 
     JObject ([(''TaskHandle'', JString (mv_TaskHandle r)), (''SourceArn'', JString (mv_SourceArn r)),
        (''DestinationArn'', JString (mv_DestinationArn r)), (''Status'', JString (mv_Status r))] @
       num_if ''MaxNumberOfMessagesPerSecond'' (mv_MaxNumberOfMessagesPerSecond r) @
       [(''ApproximateNumberOfMessagesMoved'', JNumber (mv_MovedMessages r))])"

definition JSONListMessageMoveTasksResponse :: "move_result list \<Rightarrow> string \<Rightarrow> json" where
  "JSONListMessageMoveTasksResponse rs rid = 
     JObject ((''Results'', JArray (map JSONMoveTaskResult rs)) # json_rid rid)"

subsection \<open>Marshalling a response\<close>

text \<open>The result is \<open>None\<close> where the code dereferences a nil pointer.\<close>

type_synonym 'a marshalled = "(go_error + 'a) option"

definition xml_response :: "action_response \<Rightarrow> xml marshalled" where
  "xml_response r =
     (let action = rp_Action r; rid = rp_RequestID r in
      if action = ''CreateQueue'' then Some (Inr (CreateQueueResponse (rp_QueueURL r) rid))
      else if action = ''DeleteQueue'' then Some (Inr (DeleteQueueResponse rid))
      else if action = ''GetQueueUrl'' then Some (Inr (GetQueueURLResponse (rp_QueueURL r) rid))
      else if action = ''ListQueues'' then Some (Inr (ListQueuesResponse (rp_QueueURLs r) rid))
      else if action = ''SendMessage'' then map_option (\<lambda>m. Inr (SendMessageResponse m rid)) (rp_Message r)
      else if action = ''ReceiveMessage'' then Some (Inr (ReceiveMessageResponse (rp_Messages r) rid))
      else if action = ''DeleteMessage'' then Some (Inr (DeleteMessageResponse rid))
      else if action = ''ChangeMessageVisibility'' then Some (Inr (ChangeMessageVisibilityResponse rid))
      else if action = ''GetQueueAttributes'' then Some (Inr (GetQueueAttributesResponse (rp_Attributes r) rid))
      else if action = ''SetQueueAttributes'' then Some (Inr (SetQueueAttributesResponse rid))
      else if action = ''PurgeQueue'' then Some (Inr (PurgeQueueResponse rid))
      else if action = ''SendMessageBatch'' then Some (Inr (SendMessageBatchResponse (rp_BatchResults r) (rp_BatchErrors r) rid))
      else if action = ''DeleteMessageBatch'' then Some (Inr (DeleteMessageBatchResponse (rp_BatchResults r) (rp_BatchErrors r) rid))
      else if action = ''ChangeMessageVisibilityBatch'' then Some (Inr (ChangeMessageVisibilityBatchResponse (rp_BatchResults r) (rp_BatchErrors r) rid))
      else if action = ''TagQueue'' then Some (Inr (TagQueueResponse rid))
      else if action = ''UntagQueue'' then Some (Inr (UntagQueueResponse rid))
      else if action = ''ListQueueTags'' then Some (Inr (ListQueueTagsResponse (rp_Tags r) rid))
      else if action = ''AddPermission'' then Some (Inr (AddPermissionResponse rid))
      else if action = ''RemovePermission'' then Some (Inr (RemovePermissionResponse rid))
      else if action = ''ListDeadLetterSourceQueues'' then Some (Inr (ListDeadLetterSourceQueuesResponse (rp_QueueURLs r) rid))
      else if action = ''StartMessageMoveTask'' then map_option (\<lambda>t. Inr (StartMessageMoveTaskResponse (mv_TaskHandle t) rid)) (rp_MoveTaskResult r)
      else if action = ''CancelMessageMoveTask'' then map_option (\<lambda>t. Inr (CancelMessageMoveTaskResponse (mv_MovedMessages t) rid)) (rp_MoveTaskResult r)
      else if action = ''ListMessageMoveTasks'' then Some (Inr (ListMessageMoveTasksResponse (rp_MoveTaskResults r) rid))
      else Some (Inl (Errorf (''unknown action for XML marshaling: '' @ action))))"

definition json_response :: "action_response \<Rightarrow> json marshalled" where
  "json_response r =
     (let action = rp_Action r; rid = rp_RequestID r in
      if action = ''CreateQueue'' then Some (Inr (JSONCreateQueueResponse (rp_QueueURL r) rid))
      else if action = ''DeleteQueue'' then Some (Inr (JSONDeleteQueueResponse rid))
      else if action = ''GetQueueUrl'' then Some (Inr (JSONGetQueueURLResponse (rp_QueueURL r) rid))
      else if action = ''ListQueues'' then Some (Inr (JSONListQueuesResponse (rp_QueueURLs r) rid))
      else if action = ''SendMessage'' then map_option (\<lambda>m. Inr (JSONSendMessageResponse m rid)) (rp_Message r)
      else if action = ''ReceiveMessage'' then Some (Inr (JSONReceiveMessageResponse (rp_Messages r) rid))
      else if action = ''DeleteMessage'' then Some (Inr (JSONDeleteMessageResponse rid))
      else if action = ''ChangeMessageVisibility'' then Some (Inr (JSONChangeMessageVisibilityResponse rid))
      else if action = ''GetQueueAttributes'' then Some (Inr (JSONGetQueueAttributesResponse (rp_Attributes r) rid))
      else if action = ''SetQueueAttributes'' then Some (Inr (JSONSetQueueAttributesResponse rid))
      else if action = ''PurgeQueue'' then Some (Inr (JSONPurgeQueueResponse rid))
      else if action = ''SendMessageBatch'' then Some (Inr (JSONSendMessageBatchResponse (rp_BatchResults r) (rp_BatchErrors r) rid))
      else if action = ''DeleteMessageBatch'' then Some (Inr (JSONDeleteMessageBatchResponse (rp_BatchResults r) (rp_BatchErrors r) rid))
      else if action = ''ChangeMessageVisibilityBatch'' then Some (Inr (JSONChangeMessageVisibilityBatchResponse (rp_BatchResults r) (rp_BatchErrors r) rid))
      else if action = ''TagQueue'' then Some (Inr (JSONTagQueueResponse rid))
      else if action = ''UntagQueue'' then Some (Inr (JSONUntagQueueResponse rid))
      else if action = ''ListQueueTags'' then Some (Inr (JSONListQueueTagsResponse (rp_Tags r) rid))
      else if action = ''AddPermission'' then Some (Inr (JSONAddPermissionResponse rid))
      else if action = ''RemovePermission'' then Some (Inr (JSONRemovePermissionResponse rid))
      else if action = ''ListDeadLetterSourceQueues'' then Some (Inr (JSONListDeadLetterSourceQueuesResponse (rp_QueueURLs r) rid))
      else if action = ''StartMessageMoveTask'' then map_option (\<lambda>t. Inr (JSONStartMessageMoveTaskResponse (mv_TaskHandle t) rid)) (rp_MoveTaskResult r)
      else if action = ''CancelMessageMoveTask'' then map_option (\<lambda>t. Inr (JSONCancelMessageMoveTaskResponse (mv_MovedMessages t) rid)) (rp_MoveTaskResult r)
      else if action = ''ListMessageMoveTasks'' then Some (Inr (JSONListMessageMoveTasksResponse (rp_MoveTaskResults r) rid))
      else Some (Inl (Errorf (''unknown action for JSON marshaling: '' @ action))))"

definition marshalXMLResponse :: "action_response \<Rightarrow> string marshalled" where
  "marshalXMLResponse r = map_option (map_sum id MarshalXMLResponse) (xml_response r)"

definition marshalJSONResponse :: "action_response \<Rightarrow> string marshalled" where
  "marshalJSONResponse r = map_option (map_sum id jsonMarshal) (json_response r)"

definition MarshalResponse :: "action_response \<Rightarrow> ProtocolType \<Rightarrow> string marshalled" where
  "MarshalResponse r proto = (if proto = JSONProtocol then marshalJSONResponse r else marshalXMLResponse r)"

subsection \<open>Errors\<close>

record error_response =
  er_Type :: string
  er_Code :: string
  er_Message :: string
  er_RequestID :: string
  er_HTTPStatus :: int

definition NewErrorResponse :: "sqs_error \<Rightarrow> string \<Rightarrow> error_response" where
  "NewErrorResponse err requestID =
     \<lparr> er_Type = ErrorTypeValue err, er_Code = CodeValue err, er_Message = ErrorMessageValue err,
       er_RequestID = (if requestID = [] then EmptyRequestID else requestID), er_HTTPStatus = HTTPStatusValue err \<rparr>"

definition error_xml :: "error_response \<Rightarrow> xml" where
  "error_xml e = Node ''ErrorResponse'' [Leaf ''Type'' (er_Type e), Leaf ''Code'' (er_Code e),
     Leaf ''Message'' (er_Message e), Leaf ''RequestId'' (er_RequestID e)]"

definition ToXML :: "error_response \<Rightarrow> string" where
  "ToXML e = xml_header @ write_xml 0 (error_xml e)"

definition error_json :: "error_response \<Rightarrow> json" where
  "error_json e = JObject [(''__type'', JString (''com.amazonaws.sqs#'' @ er_Code e)),
     (''message'', JString (er_Message e)), (''RequestId'', JString (er_RequestID e))]"

definition ToJSON :: "error_response \<Rightarrow> string" where
  "ToJSON e = jsonMarshal (error_json e)"

end
