(* ===== verification/RequestHandler.thy ===== *)
theory RequestHandler
  imports Marshal HandlerProperties RateLimiter Auth
begin

section \<open>From an HTTP request to its response\<close>

text \<open>
  \<^verbatim>\<open>request_handler.go\<close> and \<^verbatim>\<open>error_response.go\<close>: the protocol is detected, the body read up to
  1 MiB and parsed, the action handled and its response marshalled.  The result is \<open>None\<close>
  where the code would dereference a nil pointer; \<open>responses_marshal\<close> shows it never does.
\<close>

definition XMLContentType :: string where "XMLContentType = ''text/xml''"

definition JSONContentType :: string where "JSONContentType = ''application/x-amz-json-1.0''"

definition maxRequestBodySize :: nat where "maxRequestBodySize = 1048576"

text \<open>
  \<open>errors.As\<close> finds an SQS error; every other error becomes an internal error.  Writing the
  document itself cannot fail: its fields are strings.
\<close>

definition as_sqs_error :: "go_error \<Rightarrow> sqs_error" where
  "as_sqs_error err =
     (case err of SQSErr e \<Rightarrow> e
      | Errorf s \<Rightarrow> (case NewInternalError s of SQSErr e \<Rightarrow> e
          | Errorf t \<Rightarrow> \<lparr> CodeValue = [], HTTPStatusValue = 500, ErrorTypeValue = [], ErrorMessageValue = t \<rparr>))"

definition writeErrorResponse :: "go_error \<Rightarrow> ProtocolType \<Rightarrow> string \<Rightarrow> response" where
  "writeErrorResponse err proto requestID =
     (let sqsErr = as_sqs_error err; errorResp = NewErrorResponse sqsErr requestID;
          (data, contentType) = (if proto = JSONProtocol then (ToJSON errorResp, JSONContentType)
                                 else (ToXML errorResp, XMLContentType))
      in \<lparr> rs_Status = HTTPStatusValue sqsErr, rs_Header = [(''Content-Type'', contentType)], rs_Body = data \<rparr>)"

text \<open>What the request handler does once it has a parsed request.\<close>

definition dispatch ::
  "'s handler_env \<Rightarrow> draws \<Rightarrow> ProtocolType \<Rightarrow> action_request \<Rightarrow> 's handler_state \<Rightarrow> response option \<times> 's handler_state" where
  "dispatch H d proto req st =
     (case HandleRequest H d req st of
        (Inl err, st') \<Rightarrow> (Some (writeErrorResponse err proto EmptyRequestID), st')
      | (Inr resp, st') \<Rightarrow>
          (case MarshalResponse resp proto of
             None \<Rightarrow> (None, st')
           | Some (Inl err) \<Rightarrow>
               (Some (writeErrorResponse (NewInternalError ''failed to marshal response'') proto (rp_RequestID resp)), st')
           | Some (Inr data) \<Rightarrow>
               (Some \<lparr> rs_Status = 200,
                  rs_Header = [(''Content-Type'', if proto = JSONProtocol then JSONContentType else XMLContentType)],
                  rs_Body = data \<rparr>, st')))"

definition read_failed :: "ProtocolType \<Rightarrow> response" where
  "read_failed proto = writeErrorResponse (NewInternalError ''failed to read request body'') proto []"

definition handleSQSRequest ::
  "(string \<Rightarrow> string + json gomap) \<Rightarrow> 's handler_env \<Rightarrow> draws \<Rightarrow> request \<Rightarrow> 's handler_state
   \<Rightarrow> response option \<times> 's handler_state" where
  "handleSQSRequest unmarshal H d r st =
     (case DetectProtocol r of
        (JSONProtocol, targetHeader) \<Rightarrow>
          (case read_max_bytes maxRequestBodySize r of
             Inl err \<Rightarrow> (Some (read_failed JSONProtocol), st)
           | Inr body \<Rightarrow>
               (case ParseJSONRequest unmarshal targetHeader body of
                  Inl err \<Rightarrow> (Some (writeErrorResponse (NewInvalidParameterValue err) JSONProtocol []), st)
                | Inr jsonReq \<Rightarrow> dispatch H d JSONProtocol (JSONRequestAdapter jsonReq) st))
      | (QueryProtocol, targetHeader) \<Rightarrow>
          (case (if rq_Method r = ''POST'' then read_max_bytes maxRequestBodySize r else Inr (rq_RawQuery r)) of
             Inl err \<Rightarrow> (Some (read_failed QueryProtocol), st)
           | Inr queryStr \<Rightarrow>
               (case ParseQueryRequest queryStr of
                  Inl err \<Rightarrow> (Some (writeErrorResponse (NewInvalidParameterValue err) QueryProtocol []), st)
                | Inr queryReq \<Rightarrow> dispatch H d QueryProtocol (QueryRequestAdapter queryReq) st)))"

subsection \<open>Every answer can be written\<close>

text \<open>A response has the shape its action is marshalled with.\<close>

definition action_names :: "string list" where
  "action_names =
     [''CreateQueue'', ''DeleteQueue'', ''GetQueueUrl'', ''ListQueues'', ''SendMessage'', ''ReceiveMessage'',
      ''DeleteMessage'', ''ChangeMessageVisibility'', ''GetQueueAttributes'', ''SetQueueAttributes'', ''PurgeQueue'',
      ''SendMessageBatch'', ''DeleteMessageBatch'', ''ChangeMessageVisibilityBatch'', ''TagQueue'', ''UntagQueue'',
      ''ListQueueTags'', ''AddPermission'', ''RemovePermission'', ''ListDeadLetterSourceQueues'',
      ''StartMessageMoveTask'', ''CancelMessageMoveTask'', ''ListMessageMoveTasks'']"

definition well_shaped :: "string \<Rightarrow> action_response \<Rightarrow> bool" where
  "well_shaped action rp \<longleftrightarrow> rp_Action rp = action \<and> action \<in> set action_names \<and>
     (action = ''SendMessage'' \<longrightarrow> rp_Message rp \<noteq> None) \<and>
     (action \<in> {''StartMessageMoveTask'', ''CancelMessageMoveTask''} \<longrightarrow> rp_MoveTaskResult rp \<noteq> None)"

text \<open>The status an error is reported with.\<close>

definition reported :: "go_error \<Rightarrow> bool" where
  "reported err \<longleftrightarrow> HTTPStatusValue (as_sqs_error err) \<in> {400, 403, 500}"

definition answers :: "string \<Rightarrow> (go_error + action_response) \<times> 's handler_state \<Rightarrow> bool" where
  "answers action out \<longleftrightarrow> (case fst out of Inl err \<Rightarrow> reported err | Inr rp \<Rightarrow> well_shaped action rp)"

named_theorems answering \<open>the handlers answer\<close>

lemma reported_error [simp]:
  "reported (NewInternalError s)" "reported (Errorf s)" "reported (NewMissingParameter s)"
  "reported (NewInvalidParameterValue s)" "reported (NewInvalidAttributeName s)" "reported (NewInvalidAttributeValue s)"
  "reported (NewQueueDoesNotExist s)" "reported (NewQueueNameExists s)" "reported (NewTooManyEntriesInBatchRequest s)"
  "reported (NewBatchEntryIdsNotDistinct s)" "reported (NewInvalidAction s)" "reported (NewPurgeQueueInProgress s)"
  "reported (range_error n a b c)" "reported (no_such_queue s)"
  by (simp_all add: reported_def as_sqs_error_def error_defs range_error_def no_such_queue_def)

lemma answers_simps [simp]:
  "answers a (Inl err, st) = reported err" "answers a (Inr rp, st) = well_shaped a rp"
  by (simp_all add: answers_def)

lemma Lookup_reported: "LookupQueue n qm = Inl err \<Longrightarrow> reported err"
  by (auto simp: LookupQueue_def split: option.splits)

lemma LookupURL_reported: "LookupQueueByURL url qm = Inl err \<Longrightarrow> reported err"
  by (auto simp: LookupQueueByURL_def Let_def Lookup_reported split: if_splits)

lemma on_queue_answers:
  assumes "\<And>q st1. answers a (k q st1)"
  shows "answers a (on_queue H req k st)"
  using assms
  by (auto simp: on_queue_def resolveQueue_def Let_def LookupURL_reported split: sum.splits prod.splits)

lemma verify_reported:
  "VerifyMessageSize mode body n = Some err \<Longrightarrow> reported err" "VerifyDelaySeconds i = Some err \<Longrightarrow> reported err"
  "VerifyVisibilityTimeout i = Some err \<Longrightarrow> reported err" "VerifyMaxNumberOfMessages i = Some err \<Longrightarrow> reported err"
  "VerifyReceiveMessageWaitTime i = Some err \<Longrightarrow> reported err" "VerifyBatchSize i = Some err \<Longrightarrow> reported err"
  "VerifyMessageGroupId s = Some err \<Longrightarrow> reported err" "VerifyDeduplicationId s = Some err \<Longrightarrow> reported err"
  by (auto simp: VerifyMessageSize_def VerifyDelaySeconds_def VerifyVisibilityTimeout_def VerifyMaxNumberOfMessages_def
      VerifyReceiveMessageWaitTime_def VerifyBatchSize_def VerifyMessageGroupId_def VerifyDeduplicationId_def Let_def
      split: if_splits)

lemma VerifyQueueName_reported: "VerifyQueueName s = Some err \<Longrightarrow> reported err"
proof -
  have "validateQueueNameChars t = Some err \<Longrightarrow> reported err" for t by (induction t) (auto split: if_splits)
  then show "VerifyQueueName s = Some err \<Longrightarrow> reported err" by (auto simp: VerifyQueueName_def split: if_splits)
qed

lemma batch_checked_reported: "batch_checked es = Some err \<Longrightarrow> reported err"
proof -
  have "checkDuplicateBatchIDs seen es = Some err \<Longrightarrow> reported err" for seen
    by (induction es arbitrary: seen) (auto split: if_splits)
  then show "batch_checked es = Some err \<Longrightarrow> reported err"
    by (auto simp: batch_checked_def verify_reported split: if_splits option.splits)
qed


lemma fifo_ids_reported: "fifo_ids a req = Inl err \<Longrightarrow> reported err"
  by (auto simp: fifo_ids_def Let_def verify_reported split: if_splits option.splits)

lemma set_each_reported: "set_each J a kvs = Inl err \<Longrightarrow> reported err"
  by (induction kvs arbitrary: a) (auto split: sum.splits)

lemma shaped [simp]:
  "action \<in> set action_names \<Longrightarrow> action \<notin> {''SendMessage'', ''StartMessageMoveTask'', ''CancelMessageMoveTask''} \<Longrightarrow>
   rp_Action rp = action \<Longrightarrow> well_shaped action rp"
  by (simp add: well_shaped_def)

lemma named_actions:
  "list_all (\<lambda>a. a \<in> set action_names) action_names"
  by (simp add: list_all_iff)

lemma respond_simps [simp]: "rp_Action (respond a r) = a" "rp_RequestID (respond a r) = r"
  by (simp_all add: respond_def)

lemma message_answers [answering]:
  "answers ''SendMessage'' (handleSendMessage H d req st)"
  "answers ''ReceiveMessage'' (handleReceiveMessage H d req st)"
  "answers ''DeleteMessage'' (handleDeleteMessage H d req st)"
  "answers ''ChangeMessageVisibility'' (handleChangeMessageVisibility H d req st)"
  unfolding handleSendMessage_def handleReceiveMessage_def handleDeleteMessage_def handleChangeMessageVisibility_def
  by (rule on_queue_answers, auto simp: Let_def verify_reported fifo_ids_reported well_shaped_def action_names_def
      split: option.splits sum.splits prod.splits)+

lemma batch_answers:
  "action \<in> {''SendMessageBatch'', ''DeleteMessageBatch'', ''ChangeMessageVisibilityBatch''} \<Longrightarrow>
   answers action (handle_batch H action f d req st)"
  unfolding handle_batch_def
  by (rule on_queue_answers) (auto simp: Let_def batch_checked_reported well_shaped_def action_names_def
      split: option.splits prod.splits)

lemma batches_answer [answering]:
  "answers ''SendMessageBatch'' (handleSendMessageBatch H d req st)"
  "answers ''DeleteMessageBatch'' (handleDeleteMessageBatch H d req st)"
  "answers ''ChangeMessageVisibilityBatch'' (handleChangeMessageVisibilityBatch H d req st)"
  unfolding handleSendMessageBatch_def handleDeleteMessageBatch_def handleChangeMessageVisibilityBatch_def
  by (rule batch_answers, simp)+

lemma CreateQueue_reported: "CreateQueue J f n a qm = (Inl err, qm') \<Longrightarrow> reported err"
  by (auto simp: CreateQueue_def redrive_config_def Let_def split: option.splits sum.splits if_splits)

lemma DeleteQueue_reported: "DeleteQueue ops n qm = (Some err, qm') \<Longrightarrow> reported err"
  by (auto simp: DeleteQueue_def split: option.splits prod.splits)

lemma registry_answers [answering]:
  "answers ''CreateQueue'' (handleCreateQueue H d req st)" "answers ''DeleteQueue'' (handleDeleteQueue H d req st)"
  "answers ''GetQueueUrl'' (handleGetQueueURL d req st)" "answers ''ListQueues'' (handleListQueues d req st)"
  by (auto simp: handleCreateQueue_def handleDeleteQueue_def handleGetQueueURL_def handleListQueues_def Let_def
      VerifyQueueName_reported set_each_reported CreateQueue_reported DeleteQueue_reported Lookup_reported
      well_shaped_def action_names_def split: option.splits sum.splits prod.splits)

lemma queue_answers [answering]:
  "answers ''GetQueueAttributes'' (handleGetQueueAttributes H d req st)"
  "answers ''SetQueueAttributes'' (handleSetQueueAttributes H d req st)"
  "answers ''PurgeQueue'' (handlePurgeQueue H d req st)"
  "answers ''TagQueue'' (handleTagQueue H d req st)" "answers ''UntagQueue'' (handleUntagQueue H d req st)"
  "answers ''ListQueueTags'' (handleListQueueTags H d req st)"
  "answers ''AddPermission'' (handleAddPermission H d req st)"
  "answers ''RemovePermission'' (handleRemovePermission H d req st)"
  "answers ''ListDeadLetterSourceQueues'' (handleListDeadLetterSourceQueues H d req st)"
  unfolding handleGetQueueAttributes_def handleSetQueueAttributes_def handlePurgeQueue_def handleTagQueue_def
    handleUntagQueue_def handleListQueueTags_def handleAddPermission_def handleRemovePermission_def
    handleListDeadLetterSourceQueues_def CheckPurgeCooldown_def tag_error_def
  by (rule on_queue_answers, auto simp: Let_def well_shaped_def action_names_def
      split: option.splits prod.splits if_splits)+

lemma move_answers [answering]:
  "answers ''StartMessageMoveTask'' (handleStartMessageMoveTask H d req st)"
  "answers ''CancelMessageMoveTask'' (handleCancelMessageMoveTask d req st)"
  "answers ''ListMessageMoveTasks'' (handleListMessageMoveTasks d req st)"
  by (auto simp: handleStartMessageMoveTask_def handleCancelMessageMoveTask_def handleListMessageMoveTasks_def
      well_shaped_def action_names_def split: sum.splits prod.splits)

lemma HandleRequest_answers: "answers (ar_Action req) (HandleRequest H d req st)"
  by (simp add: HandleRequest_def Let_def answering)

lemma well_shaped_marshals:
  assumes "well_shaped action rp"
  shows "\<exists>v. xml_response rp = Some (Inr v)" "\<exists>v. json_response rp = Some (Inr v)"
proof -
  have a: "rp_Action rp = action" "action \<in> set action_names"
    "action = ''SendMessage'' \<Longrightarrow> \<exists>m. rp_Message rp = Some m"
    "action \<in> {''StartMessageMoveTask'', ''CancelMessageMoveTask''} \<Longrightarrow> \<exists>t. rp_MoveTaskResult rp = Some t"
    using assms by (auto simp: well_shaped_def)
  show "\<exists>v. xml_response rp = Some (Inr v)" using a by (auto simp: xml_response_def action_names_def Let_def)
  show "\<exists>v. json_response rp = Some (Inr v)" using a by (auto simp: json_response_def action_names_def Let_def)
qed

text \<open>
  C7.  A response has the type its action promises: whatever the request, the handler returns
  either an error with a status of 400, 403 or 500, or a response under the name of the
  action with every field set that the marshaller reads through a pointer; so marshalling it
  succeeds in both protocols and no nil pointer is dereferenced.
\<close>

theorem responses_marshal:
  "case fst (HandleRequest H d req st) of
     Inl err \<Rightarrow> HTTPStatusValue (as_sqs_error err) \<in> {400, 403, 500}
   | Inr rp \<Rightarrow> rp_Action rp = ar_Action req \<and> (\<exists>data. MarshalResponse rp proto = Some (Inr data))"
proof (cases "fst (HandleRequest H d req st)")
  case (Inl err)
  then show ?thesis using HandleRequest_answers [of req H d st] by (simp add: answers_def reported_def)
next
  case (Inr rp)
  then have w: "well_shaped (ar_Action req) rp" using HandleRequest_answers [of req H d st] by (simp add: answers_def)
  then show ?thesis
    using Inr well_shaped_marshals [OF w]
    by (auto simp: MarshalResponse_def marshalXMLResponse_def marshalJSONResponse_def well_shaped_def)
qed

end
