(* ===== verification/Startup.thy ===== *)
theory Startup
  imports RequestHandler CredentialStores
begin

section \<open>Configuration and start-up\<close>

text \<open>
  \<^verbatim>\<open>config.go\<close>, \<^verbatim>\<open>startup_queues.go\<close>, \<^verbatim>\<open>startup_credentials.go\<close> and the wiring in \<^verbatim>\<open>main.go\<close>: what
  a configuration must have, which store it selects, the queues and credentials it starts
  with and the middlewares around the request handler.  Reading the YAML file, opening the
  databases, TLS, the other servers and the log are left out; a configuration is a value, and
  a call of \<open>log.Fatalf\<close>, which ends the process, an error.
\<close>

subsection \<open>The configuration\<close>

record InitialCredential =
  ic_Label :: string
  ic_AccessKeyID :: string
  ic_SecretAccessKey :: string
  ic_Region :: string
  ic_AccountID :: string

record AuthConfig =
  ac_Enabled :: "bool option"
  ac_InitialCredentials :: "InitialCredential list"

record StartupQueueAttributes =
  sa_VisibilityTimeout :: "int option"
  sa_DelaySeconds :: "int option"
  sa_MaximumMessageSize :: "int option"
  sa_MessageRetentionPeriod :: "int option"
  sa_ReceiveMessageWaitTimeSeconds :: "int option"
  sa_FifoQueue :: "bool option"
  sa_ContentBasedDeduplication :: "bool option"

record StartupQueue =
  sq_Name :: string
  sq_Attributes :: "StartupQueueAttributes option"

record QueuesConfig =
  qc_AutoCreate :: bool
  qc_Startup :: "StartupQueue list"

record SQSConfig =
  sc_NodeAddress :: string
  sc_AccountID :: string
  sc_Region :: string
  sc_StorageType :: string
  sc_SQLitePath :: string
  sc_BadgerPath :: string
  sc_StrictLimits :: bool
  sc_ServerSecret :: string

record RateLimitConfig =
  rc_Enabled :: bool
  rc_PerQueue :: bool

record ServerConfig =
  cf_Port :: int
  cf_SQS :: SQSConfig
  cf_Queues :: QueuesConfig
  cf_RateLimit :: RateLimitConfig
  cf_Auth :: AuthConfig

definition IsEnabled :: "AuthConfig \<Rightarrow> bool" where
  "IsEnabled c = (case ac_Enabled c of None \<Rightarrow> True | Some b \<Rightarrow> b)"

fun check_credentials :: "nat \<Rightarrow> InitialCredential list \<Rightarrow> go_error option" where
  "check_credentials i [] = None"
| "check_credentials i (ic # ics) =
     (if ic_AccessKeyID ic = [] then
        Some (Errorf (''auth.initialCredentials['' @ itoa (int i) @ ''].accessKeyId is required''))
      else if ic_SecretAccessKey ic = [] then
        Some (Errorf (''auth.initialCredentials['' @ itoa (int i) @ ''].secretAccessKey is required''))
      else check_credentials (Suc i) ics)"

definition Validate :: "ServerConfig \<Rightarrow> go_error option" where
  "Validate c =
     (let s = cf_SQS c in
      if sc_AccountID s = [] then Some (Errorf ''sqs.accountId is required'')
      else if sc_Region s = [] then Some (Errorf ''sqs.region is required'')
      else if sc_NodeAddress s = [] then Some (Errorf ''sqs.nodeAddress is required'')
      else if sc_StorageType s \<notin> {[], ''memory'', ''sqlite'', ''badger''} then
        Some (Errorf (''sqs.storageType must be one of: memory, sqlite, badger (got '' @ quote (sc_StorageType s) @ '')''))
      else if sc_StorageType s = ''sqlite'' \<and> sc_SQLitePath s = [] then
        Some (Errorf ''sqs.sqlitePath is required when storageType is sqlite'')
      else if sc_StorageType s = ''badger'' \<and> sc_BadgerPath s = [] then
        Some (Errorf ''sqs.badgerPath is required when storageType is badger'')
      else if cf_Port c < 0 \<or> cf_Port c > 65535 then Some (Errorf ''server.port must be between 0 and 65535'')
      else if sc_ServerSecret s = [] then Some (Errorf ''sqs.serverSecret is required'')
      else check_credentials 0 (ac_InitialCredentials (cf_Auth c)))"

datatype Storage = MemoryStorage | SQLiteStorage | BadgerStorage

definition select_storage :: "SQSConfig \<Rightarrow> Storage" where
  "select_storage s =
     (if sc_StorageType s = ''sqlite'' \<and> sc_SQLitePath s \<noteq> [] then SQLiteStorage
      else if sc_StorageType s = ''badger'' \<and> sc_BadgerPath s \<noteq> [] then BadgerStorage
      else MemoryStorage)"

text \<open>Opening the databases: a driver's error ends the process with the text that is logged.\<close>

record drivers =
  sql_Open :: "string \<Rightarrow> string option"
  sql_Exec_WAL :: "string \<Rightarrow> string option"
  sql_fails :: "cred_stmt \<Rightarrow> string option"
  badger_Open :: "string \<Rightarrow> string option"

definition open_storage :: "drivers \<Rightarrow> SQSConfig \<Rightarrow> string + Storage" where
  "open_storage V s =
     (case select_storage s of
        SQLiteStorage \<Rightarrow>
          (case sql_Open V (sc_SQLitePath s) of
             Some e \<Rightarrow> Inl (''failed to open SQLite database: '' @ e)
           | None \<Rightarrow>
               (case sql_Exec_WAL V (sc_SQLitePath s) of
                  Some e \<Rightarrow> Inl (''failed to set SQLite WAL mode: '' @ e)
                | None \<Rightarrow>
                    (case NewSQLiteCredentialStore (sql_fails V) [] of
                       Inl err \<Rightarrow> Inl (''failed to create SQLite credential store: '' @ error_text err)
                     | Inr credStore \<Rightarrow> Inr SQLiteStorage)))
      | BadgerStorage \<Rightarrow>
          (case badger_Open V (sc_BadgerPath s) of
             Some e \<Rightarrow> Inl (''failed to open BadgerDB database: '' @ e)
           | None \<Rightarrow> Inr BadgerStorage)
      | MemoryStorage \<Rightarrow> Inr MemoryStorage)"

definition limits_mode :: "SQSConfig \<Rightarrow> LimitsMode" where
  "limits_mode s = (if \<not> sc_StrictLimits s then RelaxedMode else StrictMode)"

subsection \<open>Start-up queues\<close>

definition startupAttrsToQueueAttrs :: "StartupQueueAttributes option \<Rightarrow> queue_attributes" where
  "startupAttrsToQueueAttrs sa =
     (let a = NewDefaultQueueAttributes in
      case sa of
        None \<Rightarrow> a
      | Some s \<Rightarrow> a
          \<lparr> qa_VisibilityTimeout := (case sa_VisibilityTimeout s of None \<Rightarrow> qa_VisibilityTimeout a | Some v \<Rightarrow> v),
            qa_DelaySeconds := (case sa_DelaySeconds s of None \<Rightarrow> qa_DelaySeconds a | Some v \<Rightarrow> v),
            qa_MaximumMessageSize := (case sa_MaximumMessageSize s of None \<Rightarrow> qa_MaximumMessageSize a | Some v \<Rightarrow> v),
            qa_MessageRetentionPeriod :=
              (case sa_MessageRetentionPeriod s of None \<Rightarrow> qa_MessageRetentionPeriod a | Some v \<Rightarrow> v),
            qa_ReceiveMessageWaitTimeSeconds :=
              (case sa_ReceiveMessageWaitTimeSeconds s of None \<Rightarrow> qa_ReceiveMessageWaitTimeSeconds a | Some v \<Rightarrow> v),
            qa_FifoQueue := (case sa_FifoQueue s of None \<Rightarrow> qa_FifoQueue a | Some v \<Rightarrow> v),
            qa_ContentBasedDeduplication :=
              (case sa_ContentBasedDeduplication s of None \<Rightarrow> qa_ContentBasedDeduplication a | Some v \<Rightarrow> v) \<rparr>)"

text \<open>A queue that cannot be created is logged and left out.\<close>

definition startup_queues :: "json_policy \<Rightarrow> 's factory \<Rightarrow> StartupQueue list \<Rightarrow> 's manager \<Rightarrow> 's manager" where
  "startup_queues J factory sqs qm =
     fold (\<lambda>sq qm. snd (CreateQueue J factory (sq_Name sq) (Some (startupAttrsToQueueAttrs (sq_Attributes sq))) qm)) sqs qm"

subsection \<open>Start-up credentials\<close>

definition dflt :: "string \<Rightarrow> string \<Rightarrow> string" where
  "dflt s d = (if s = [] then d else s)"

text \<open>The error is the one that ends the process; \<open>en k\<close> are the random bytes of the \<open>k\<close>-th import.\<close>

fun seed ::
  "'s credential_ops \<Rightarrow> (nat \<Rightarrow> entropy) \<Rightarrow> time \<Rightarrow> string \<Rightarrow> string \<Rightarrow> nat \<Rightarrow> InitialCredential list \<Rightarrow> 's
   \<Rightarrow> go_error option \<times> 's" where
  "seed ops en now region account k [] s = (None, s)"
| "seed ops en now region account k (ic # ics) s =
     (case co_GetByAccessKeyID ops (ic_AccessKeyID ic) s of
        Inr existing \<Rightarrow> seed ops en now region account (Suc k) ics s
      | Inl _ \<Rightarrow>
          (case co_Import ops (en k) now (dflt (ic_Label ic) ''imported'') (ic_AccessKeyID ic) (ic_SecretAccessKey ic)
              (dflt (ic_Region ic) region) (dflt (ic_AccountID ic) account) s of
             (Inl err, s') \<Rightarrow> (Some err, s')
           | (Inr c, s') \<Rightarrow> seed ops en now region account (Suc k) ics s'))"

definition seedInitialCredentials ::
  "'s credential_ops \<Rightarrow> (nat \<Rightarrow> entropy) \<Rightarrow> time \<Rightarrow> AuthConfig \<Rightarrow> string \<Rightarrow> string \<Rightarrow> 's \<Rightarrow> go_error option \<times> 's" where
  "seedInitialCredentials ops en now cfg defaultRegion defaultAccountID s =
     seed ops en now defaultRegion defaultAccountID 0 (ac_InitialCredentials cfg) s"

subsection \<open>The handler and its middlewares\<close>

record ('l, 's) server_state =
  sv_global :: 'l
  sv_limiters :: "'l limiters"
  sv_handlers :: "'s handler_state"

text \<open>
  \<open>http.ServeMux\<close> sends every path to the one handler there is, but a path that is not clean
  (\<open>//\<close>, \<open>.\<close> and \<open>..\<close>) gets a redirection, of which the model keeps the status.  A panic would close
  the connection without a response; the status 0 stands for that.
\<close>

definition clean_path :: "string \<Rightarrow> bool" where
  "clean_path path \<longleftrightarrow>
     (case Split (CHR ''/'') path of
        [] # segments \<Rightarrow> segments \<noteq> [] \<and> [] \<notin> set (butlast segments) \<and> ''.'' \<notin> set segments \<and> ''..'' \<notin> set segments
      | _ \<Rightarrow> False)"

definition mux :: "(string \<Rightarrow> string + json gomap) \<Rightarrow> 's handler_env \<Rightarrow> draws \<Rightarrow> ('l, 's) server_state handler" where
  "mux unmarshal H d r sv =
     (if rq_Method r \<noteq> ''CONNECT'' \<and> \<not> clean_path (rq_Path r) then
        (\<lparr> rs_Status = 301, rs_Header = [], rs_Body = [] \<rparr>, sv)
      else
        case handleSQSRequest unmarshal H d r (sv_handlers sv) of
          (Some resp, st) \<Rightarrow> (resp, sv\<lparr> sv_handlers := st \<rparr>)
        | (None, st) \<Rightarrow> (\<lparr> rs_Status = 0, rs_Header = [], rs_Body = [] \<rparr>, sv\<lparr> sv_handlers := st \<rparr>))"

text \<open>The limiters of the two middlewares are parts of the server's state.\<close>

definition limited_per_queue :: "'l limiter_ops \<Rightarrow> time \<Rightarrow> ('l, 's) server_state middleware" where
  "limited_per_queue L now next r sv =
     (let (resp, m, sv') = PerQueueRateLimiter L now next r (sv_limiters sv, sv) in (resp, sv'\<lparr> sv_limiters := m \<rparr>))"

definition limited_globally :: "'l limiter_ops \<Rightarrow> time \<Rightarrow> ('l, 's) server_state middleware" where
  "limited_globally L now next r sv =
     (let (resp, l, sv') = GlobalRateLimiter L now next r (sv_global sv, sv) in (resp, sv'\<lparr> sv_global := l \<rparr>))"

text \<open>Outermost first: the credentials are checked before the rate is limited.\<close>

definition middlewares ::
  "ServerConfig \<Rightarrow> env \<Rightarrow> (string \<Rightarrow> string) \<Rightarrow> lookup \<Rightarrow> 'l limiter_ops \<Rightarrow> time \<Rightarrow> ('l, 's) server_state middleware list" where
  "middlewares c E u get L now =
     (if IsEnabled (cf_Auth c) then [Auth E u (Some get) (sc_Region (cf_SQS c))] else []) @
     (if rc_Enabled (cf_RateLimit c) then
        [if rc_PerQueue (cf_RateLimit c) then limited_per_queue L now else limited_globally L now]
      else [])"

definition sqsHandler ::
  "ServerConfig \<Rightarrow> env \<Rightarrow> (string \<Rightarrow> string) \<Rightarrow> lookup \<Rightarrow> 'l limiter_ops \<Rightarrow> time
   \<Rightarrow> (string \<Rightarrow> string + json gomap) \<Rightarrow> 's handler_env \<Rightarrow> draws \<Rightarrow> ('l, 's) server_state handler" where
  "sqsHandler c E u get L now unmarshal H d =
     (let mws = middlewares c E u get L now in
      if mws \<noteq> [] then Chain mws (mux unmarshal H d) else mux unmarshal H d)"

end
