(* ===== verification/RequestProperties.thy ===== *)
theory RequestProperties
  imports Requests ReceiptHandles
begin

section \<open>What the two protocols carry\<close>

text \<open>
  A client writes message attributes as numbered form parameters or as nested JSON objects,
  binary values in base64 both times.  The parsers of both protocols read back what was
  written.
\<close>

subsection \<open>Base64\<close>

lemma base64_digit_char: "n < 64 \<Longrightarrow> base64_digit (base64_char n) = Some n"
proof -
  have "list_all (\<lambda>n. base64_digit (base64_char n) = Some n) [0..<64]"
    by (simp add: upt_rec base64_digit_def base64_char_def between_def)
  then show "n < 64 \<Longrightarrow> base64_digit (base64_char n) = Some n" unfolding list_all_iff by simp
qed

lemma base64_char_visible: "n < 64 \<Longrightarrow> base64_char n \<noteq> CHR 0x0A \<and> base64_char n \<noteq> CHR 0x0D"
proof -
  have "base64_digit (CHR 0x0A) = None" "base64_digit (CHR 0x0D) = None"
    by (simp_all add: base64_digit_def between_def)
  then show "n < 64 \<Longrightarrow> base64_char n \<noteq> CHR 0x0A \<and> base64_char n \<noteq> CHR 0x0D"
    using base64_digit_char [of n] by auto
qed

lemmas sextet_ranges = byte_div sextets

lemma byte_parts:
  "byte a div 4 * 4 + (byte a mod 4 * 16) div 16 = byte a"
  "byte b div 16 < 16 \<Longrightarrow> (byte a mod 4 * 16 + byte b div 16) div 16 = byte a mod 4"
  "byte b div 16 < 16 \<Longrightarrow> (byte a mod 4 * 16 + byte b div 16) mod 16 = byte b div 16"
  "byte c div 64 < 4 \<Longrightarrow> (byte b mod 16 * 4 + byte c div 64) div 4 = byte b mod 16"
  "byte c div 64 < 4 \<Longrightarrow> (byte b mod 16 * 4 + byte c div 64) mod 4 = byte c div 64"
  "byte b mod 16 * 4 div 4 = byte b mod 16"
  by simp_all

lemma decode_quads_base64: "decode_quads (base64 s) = Some s"
proof (induction s rule: base64.induct)
  case (2 a)
  then show ?case
    by (simp add: Let_def base64_digit_char sextet_ranges byte_parts)
next
  case (3 a b)
  then show ?case
    by (simp add: Let_def base64_digit_char sextet_ranges byte_parts base64_char_not)
next
  case (4 a b c rest)
  then show ?case
    by (simp add: Let_def base64_digit_char sextet_ranges byte_parts base64_char_not)
qed simp

lemma base64_visible: "filter (\<lambda>c. c \<noteq> CHR 0x0A \<and> c \<noteq> CHR 0x0D) (base64 s) = base64 s"
  by (induction s rule: base64.induct) (simp_all add: Let_def base64_char_visible sextet_ranges)

lemma decoded_base64 [simp]: "decoded_binary (base64 s) = s"
  by (simp add: decoded_binary_def base64_decode_def base64_visible decode_quads_base64)

subsection \<open>Numbered parameters\<close>

lemma itoa_no_dot: "CHR ''.'' \<notin> set (itoa (int n))"
proof -
  have "CHR ''.'' \<notin> set (utoa n)" for n
  proof (induction n rule: utoa.induct)
    case (1 n)
    have dig: "digit_char d \<noteq> CHR ''.''" if "d < 10" for d
    proof
      assume "digit_char d = CHR ''.''"
      then have "digit_val CHR ''.'' = Some d" using digit_val_char [OF that] by simp
      then show False by (simp add: digit_val_def)
    qed
    show ?case using 1 dig [of n] dig [of "n mod 10"] by (subst utoa.simps) auto
  qed
  then show ?thesis by (simp add: itoa_def)
qed

text \<open>How a client of the Query protocol numbers its message attributes.\<close>

definition numbered :: "nat \<Rightarrow> string \<Rightarrow> string" where
  "numbered i rest = ''MessageAttribute.'' @ itoa (int i) @ CHR ''.'' # rest"

definition query_attribute :: "nat \<Rightarrow> string \<times> message_attribute \<Rightarrow> string list gomap" where
  "query_attribute i = (\<lambda>(name, a).
     [(numbered i ''Name'', [name]), (numbered i ''Value.DataType'', [DataType a]),
      (numbered i ''Value.StringValue'', [StringValue a]),
      (numbered i ''Value.BinaryValue'', [base64 (BinaryValue a)])])"

definition query_attributes :: "message_attribute gomap \<Rightarrow> string list gomap" where
  "query_attributes attrs = concat (map (\<lambda>(i, x). query_attribute i x) (enumerate 1 attrs))"

definition json_attributes :: "message_attribute gomap \<Rightarrow> json" where
  "json_attributes attrs = JObject (map (\<lambda>(name, a). (name, JObject [(''DataType'', JString (DataType a)),
     (''StringValue'', JString (StringValue a)), (''BinaryValue'', JString (base64 (BinaryValue a)))])) attrs)"

definition raw_parts :: "string \<times> message_attribute \<Rightarrow> attr_parts" where
  "raw_parts = (\<lambda>(name, a). \<lparr> ap_name = name, ap_dataType = DataType a, ap_stringValue = StringValue a,
     ap_binaryValue = base64 (BinaryValue a) \<rparr>)"

lemma split_numbered:
  "Split (CHR ''.'') (numbered i rest) = ''MessageAttribute'' # itoa (int i) # Split (CHR ''.'') rest"
  using Split_append [of "CHR ''.''" "''MessageAttribute''" "itoa (int i) @ CHR ''.'' # rest"]
    Split_append [OF itoa_no_dot, of i rest] by (simp add: numbered_def)

lemma attr_param_numbered:
  assumes "int64_range (int i)"
  shows "attr_param ''MessageAttribute.'' (numbered i rest, [v]) ms =
    AList.update (int i) (set_part (Split (CHR ''.'') rest) v
      (case map_of ms (int i) of None \<Rightarrow> no_parts | Some a \<Rightarrow> a)) ms"
proof -
  have "HasPrefix (numbered i rest) ''MessageAttribute.''" by (simp add: numbered_def HasPrefix_def)
  moreover have "\<not> length (Split (CHR ''.'') (numbered i rest)) < 3"
    using Split_nonempty [of "CHR ''.''" rest] by (cases "Split (CHR ''.'') rest") (auto simp: split_numbered)
  ultimately show ?thesis
    by (simp add: attr_param_def split_numbered Atoi_itoa [OF assms] Let_def)
qed

lemma update_end: "map_of ms k = None \<Longrightarrow> AList.update k v ms = ms @ [(k, v)]"
  by (induction ms) auto

lemma update_last: "map_of ms k = None \<Longrightarrow> AList.update k v (ms @ [(k, w)]) = ms @ [(k, v)]"
  by (induction ms) auto

lemma query_attribute_read:
  assumes "int64_range (int i)" "map_of ms (int i) = None"
  shows "fold (attr_param ''MessageAttribute.'') (query_attribute i x) ms = ms @ [(int i, raw_parts x)]"
proof -
  have m: "([int i \<mapsto> p] ++ map_of ms) (int i) = Some p" for p
    using assms(2) by (simp add: map_add_def)
  show ?thesis
    by (cases x) (simp add: query_attribute_def attr_param_numbered [OF assms(1)] assms(2) update_end update_last m
        raw_parts_def no_parts_def)
qed

definition numbered_parts :: "nat \<Rightarrow> message_attribute gomap \<Rightarrow> (int \<times> attr_parts) list" where
  "numbered_parts k attrs = map (\<lambda>(i, x). (int i, raw_parts x)) (enumerate k attrs)"

lemma query_attributes_read:
  assumes "int (k + length attrs) < 2 ^ 63" "\<forall>i \<ge> k. map_of ms (int i) = None"
  shows "fold (attr_param ''MessageAttribute.'') (concat (map (\<lambda>(i, x). query_attribute i x) (enumerate k attrs))) ms =
    ms @ numbered_parts k attrs"
  using assms
proof (induction attrs arbitrary: k ms)
  case (Cons x attrs)
  have "int64_range (int k)" using Cons.prems(1) by simp
  moreover have "\<forall>i \<ge> Suc k. map_of (ms @ [(int k, raw_parts x)]) (int i) = None"
    using Cons.prems(2) by (auto simp: map_add_def)
  ultimately show ?case
    using Cons.prems Cons.IH [of "Suc k" "ms @ [(int k, raw_parts x)]"]
    by (simp add: query_attribute_read numbered_parts_def)
qed (simp add: numbered_parts_def)

lemma map_of_numbered:
  "map_of (numbered_parts k attrs) (int i) = (if k \<le> i \<and> i < k + length attrs then Some (raw_parts (attrs ! (i - k))) else None)"
proof (induction attrs arbitrary: k)
  case (Cons x attrs)
  show ?case using Cons [of "Suc k"] by (auto simp: numbered_parts_def nth_Cons' Suc_diff_le)
qed (simp add: numbered_parts_def)

lemma parts_at_numbered:
  assumes "\<forall>(name, a) \<in> set attrs. name \<noteq> [] \<and> DataType a \<noteq> []"
  shows "parts_at (numbered_parts 1 attrs) = map raw_parts attrs"
proof -
  have "List.map_filter (\<lambda>i. map_of (numbered_parts 1 attrs) (int i)) [1 ..< Suc (length attrs)] =
      map (\<lambda>i. raw_parts (attrs ! (i - 1))) [1 ..< Suc (length attrs)]"
    unfolding List.map_filter_def by (rule map_cong) (auto simp: map_of_numbered filter_id_conv)
  also have "\<dots> = map raw_parts attrs"
    by (rule nth_equalityI) (auto simp del: upt_Suc)
  finally have "List.map_filter (\<lambda>i. map_of (numbered_parts 1 attrs) (int i)) [1 ..< Suc (length attrs)] =
      map raw_parts attrs" .
  moreover have "length (numbered_parts 1 attrs) = length attrs" by (simp add: numbered_parts_def)
  moreover have "filter (\<lambda>a. ap_name a \<noteq> [] \<and> ap_dataType a \<noteq> []) (map raw_parts attrs) = map raw_parts attrs"
    using assms by (auto simp: filter_id_conv raw_parts_def)
  ultimately show ?thesis by (simp add: parts_at_def)
qed

lemma fold_update_distinct:
  "distinct (map fst (ms @ kvs)) \<Longrightarrow> fold (\<lambda>(k, v). AList.update k v) kvs ms = ms @ kvs"
proof (induction kvs arbitrary: ms)
  case (Cons kv kvs)
  have "map_of ms (fst kv) = None" using Cons.prems by (auto simp: map_of_eq_None_iff)
  then have "AList.update (fst kv) (snd kv) ms = ms @ [kv]" by (simp add: update_end)
  then show ?case using Cons.prems Cons.IH [of "ms @ [kv]"] by (cases kv) simp
qed simp




subsection \<open>Parameters that are no attributes\<close>

lemma fold_keeps_key:
  assumes "\<And>x m. map_of m k \<noteq> None \<Longrightarrow> map_of (f x m) k \<noteq> None"
  shows "map_of m k \<noteq> None \<Longrightarrow> map_of (fold f xs m) k \<noteq> None"
  using assms by (induction xs arbitrary: m) auto

text \<open>Every flat parameter the parser does not know becomes a queue attribute.\<close>

lemma unknown_is_attribute:
  assumes "(key, v # vs) \<in> set values" "\<not> isKnownParam key"
  shows "map_of (parseQueryAttributes values) key \<noteq> None"
proof -
  let ?f = "\<lambda>(key, vals) attrs.
         if vals = [] \<or> isReservedQueryParam key then attrs
         else if CHR ''.'' \<notin> set key \<and> \<not> isKnownParam key then AList.update key (hd vals) attrs
         else (attrs :: string gomap)"
  have nk: "CHR ''.'' \<notin> set key" "\<not> isReservedQueryParam key" using assms(2) by (auto simp: isKnownParam_def)
  obtain l1 l2 where l: "values = l1 @ (key, v # vs) # l2" using split_list [OF assms(1)] by blast
  have "map_of (fold ?f l2 (AList.update key v m)) key \<noteq> None" for m
    by (rule fold_keeps_key) (auto simp: update_conv')
  then show ?thesis using assms(2) nk by (simp add: parseQueryAttributes_def l)
qed

end
