(* ===== verification/ActionProperties.thy ===== *)
theory ActionProperties
  imports HandlerProperties RequestProperties
begin

section \<open>Single actions, and the two protocols\<close>

text \<open>
  When a send is accepted, what it stores, and what the other actions answer; and that a request
  means the same in both protocols.
\<close>

subsection \<open>Sending\<close>

text \<open>What AWS documents of a send: a body within the limits, and the FIFO parameters.\<close>

definition group_ok :: "string \<Rightarrow> bool" where
  "group_ok i \<longleftrightarrow> 1 \<le> length i \<and> length i \<le> 128"

definition sendable :: "LimitsMode \<Rightarrow> queue_attributes \<Rightarrow> action_request \<Rightarrow> bool" where
  "sendable mode a req \<longleftrightarrow>
     ar_MessageBody req \<noteq> [] \<and>
     int (length (ar_MessageBody req)) \<le> effectiveMax mode (qa_MaximumMessageSize a) \<and>
     0 \<le> ar_DelaySeconds req \<and> ar_DelaySeconds req \<le> 900 \<and>
     (qa_FifoQueue a \<longrightarrow> group_ok (ar_MessageGroupID req) \<and>
        (group_ok (ar_MessageDeduplicationID req) \<or>
         ar_MessageDeduplicationID req = [] \<and> qa_ContentBasedDeduplication a))"

definition request_message :: "'s handler_env \<Rightarrow> draws \<Rightarrow> queue_attributes \<Rightarrow> action_request \<Rightarrow> message" where
  "request_message H d a req = new_message H (dr_now d 0) (dr_message_id d 0) (ar_MessageBody req)
     (ar_MessageAttributes req) (ar_MessageSystemAttributes req)
     (if qa_FifoQueue a then ar_MessageGroupID req else [])
     (if qa_FifoQueue a then ar_MessageDeduplicationID req else [])"

lemma fifo_ids_cases:
  "(case fifo_ids a req of
      Inl err \<Rightarrow> code_of err \<in> {Some ''MissingParameter'', Some ''InvalidParameterValue''} \<and> qa_FifoQueue a \<and>
        \<not> (group_ok (ar_MessageGroupID req) \<and>
          (group_ok (ar_MessageDeduplicationID req) \<or>
           ar_MessageDeduplicationID req = [] \<and> qa_ContentBasedDeduplication a))
    | Inr ids \<Rightarrow>
        ids = (if qa_FifoQueue a then ar_MessageGroupID req else [],
               if qa_FifoQueue a then ar_MessageDeduplicationID req else []) \<and>
        (qa_FifoQueue a \<longrightarrow> group_ok (ar_MessageGroupID req) \<and>
          (group_ok (ar_MessageDeduplicationID req) \<or>
           ar_MessageDeduplicationID req = [] \<and> qa_ContentBasedDeduplication a)))"
  by (auto simp: fifo_ids_def group_ok_def Let_def VerifyMessageGroupId_def VerifyDeduplicationId_def limit_defs
      error_defs Suc_le_eq)

text \<open>The first check a send fails, and what is left of a send that passes them.\<close>

definition send_check :: "LimitsMode \<Rightarrow> queue_attributes \<Rightarrow> action_request \<Rightarrow> go_error option" where
  "send_check mode a req =
     (if ar_MessageBody req = [] then Some (NewMissingParameter ''MessageBody'')
      else case VerifyMessageSize mode (ar_MessageBody req) (qa_MaximumMessageSize a) of
             Some err \<Rightarrow> Some err
           | None \<Rightarrow>
               (case VerifyDelaySeconds (ar_DelaySeconds req) of
                  Some err \<Rightarrow> Some err
                | None \<Rightarrow> (case fifo_ids a req of Inl err \<Rightarrow> Some err | Inr _ \<Rightarrow> None)))"

definition store_send :: "'s handler_env \<Rightarrow> draws \<Rightarrow> action_request \<Rightarrow> 's queue \<Rightarrow> 's handler_state
    \<Rightarrow> (go_error + action_response) \<times> 's handler_state" where
  "store_send H d req q st =
     (case op_SendMessage (hd_ops H) (dr_store_now d 0) (request_message H d (q_attributes q) req)
         (ar_DelaySeconds req) (q_store q) of
        (Some err, msg', s') \<Rightarrow> (Inl (NewInternalError (error_text err)), put_queue (q\<lparr> q_store := s' \<rparr>) st)
      | (None, msg', s') \<Rightarrow>
          (Inr ((respond ''SendMessage'' (dr_request_id d))\<lparr> rp_Message := Some msg' \<rparr>),
           put_queue (q\<lparr> q_store := s' \<rparr>) st))"

lemma send_form:
  assumes "resolved req q st"
  shows "handleSendMessage H d req st =
    (case send_check (hd_mode H) (q_attributes q) req of Some err \<Rightarrow> (Inl err, st) | None \<Rightarrow> store_send H d req q st)"
  using fifo_ids_cases [of "q_attributes q" req]
  by (simp add: handleSendMessage_def resolved_on_queue [OF assms] send_check_def store_send_def request_message_def
      Let_def split: option.splits sum.splits)

lemma send_check_decides:
  "(case send_check mode a req of
      Some err \<Rightarrow> \<not> sendable mode a req \<and> code_of err \<in> {Some ''MissingParameter'', Some ''InvalidParameterValue''}
    | None \<Rightarrow> sendable mode a req)"
  using fifo_ids_cases [of a req]
  by (auto simp: send_check_def sendable_def VerifyMessageSize_def VerifyDelaySeconds_def limit_defs range_error_def
      error_defs Let_def split: sum.splits)


text \<open>
  The queue's own \<open>DelaySeconds\<close> plays no part in a send: whatever it is set to, a
  message sent without a delay of its own is handed to the store with delay 0.
\<close>

theorem queue_delay_ignored:
  assumes "resolved req q st" "ar_Action req = ''SendMessage''"
    and "HandleRequest H d req st = (r, st1)"
    and "HandleRequest H d req (put_queue (q\<lparr> q_attributes := (q_attributes q)\<lparr> qa_DelaySeconds := n \<rparr> \<rparr>) st) = (r', st2)"
  shows "r' = r \<and> (\<exists>q1 q2. LookupQueue (named req) (hs_manager st1) = Inr q1 \<and>
    LookupQueue (named req) (hs_manager st2) = Inr q2 \<and> q_store q2 = q_store q1)"
proof -
  let ?q = "q\<lparr> q_attributes := (q_attributes q)\<lparr> qa_DelaySeconds := n \<rparr> \<rparr>"
  have r': "resolved req ?q (put_queue ?q st)"
    using assms(1) by (simp add: resolved_def put_queue_def update_conv')
  have look: "LookupQueue (named req) (hs_manager (put_queue q0 st0)) = Inr q0" if "q_name q0 = named req" for q0 :: "'a queue" and st0
    using that by (simp add: put_queue_def LookupQueue_update)
  have nm: "q_name q = named req" "LookupQueue (named req) (hs_manager st) = Inr q"
    using assms(1) by (simp_all add: resolved_def Lookup_Some)
  have "qa_FifoQueue (q_attributes ?q) = qa_FifoQueue (q_attributes q)"
    "qa_ContentBasedDeduplication (q_attributes ?q) = qa_ContentBasedDeduplication (q_attributes q)" by simp_all
  then have fifo: "fifo_ids (q_attributes ?q) req = fifo_ids (q_attributes q) req"
    by (simp only: fifo_ids_def)
  have same: "send_check (hd_mode H) (q_attributes ?q) req = send_check (hd_mode H) (q_attributes q) req"
    "request_message H d (q_attributes ?q) req = request_message H d (q_attributes q) req"
    unfolding send_check_def request_message_def fifo by simp_all
  show ?thesis
    using assms(2-4) nm send_form [OF assms(1), of H d] send_form [OF r', of H d] same
    by (cases "send_check (hd_mode H) (q_attributes q) req")
      (auto simp: HandleRequest_def store_send_def look split: option.splits prod.splits)
qed


subsection \<open>Receipt handles the store does not know\<close>

text \<open>
  A receipt handle the store refuses is answered in two ways: \<open>DeleteMessage\<close> and
  \<open>ChangeMessageVisibility\<close> report a failure of the server, an internal error with status 500,
  where the same handle in a batch is reported as \<open>ReceiptHandleIsInvalid\<close>, a fault of the
  sender.  Every message of the queue stays as the store left it, in both.
\<close>

theorem invalid_handle_is_server_error:
  assumes "resolved req q st" "ar_Action req = ''DeleteMessage''" "ar_ReceiptHandle req \<noteq> []"
    and "op_DeleteMessage (hd_ops H) (ar_ReceiptHandle req) (q_store q) = (Some err, s')"
    and "be_ReceiptHandle e = ar_ReceiptHandle req"
  shows "\<exists>x y. HandleRequest H d req st = (Inl (SQSErr x), put_queue (q\<lparr> q_store := s' \<rparr>) st) \<and>
      CodeValue x = ''InternalError'' \<and> HTTPStatusValue x = 500 \<and> ErrorTypeValue x = ''Receiver'' \<and>
      delete_entry H k e (q_store q) = (Inl y, s') \<and>
      bx_Code y = ''ReceiptHandleIsInvalid'' \<and> bx_SenderFault y"
  using assms(2-5)
  by (auto simp: HandleRequest_def handleDeleteMessage_def resolved_on_queue [OF assms(1)] delete_entry_def
      newBatchError_def NewInternalError_def)

subsection \<open>The digest of message attributes\<close>

definition attribute_of :: "string \<Rightarrow> string \<Rightarrow> message_attribute" where
  "attribute_of ty v = \<lparr> DataType = ty, StringValue = v, BinaryValue = [] \<rparr>"

text \<open>
  The digest of message attributes does not tell where a name, a type and a value end:
  whatever the hash, moving the first bytes of a value to the end of its type, or the last
  bytes of a name to the start of its type, gives other attributes with the same digest.
\<close>

theorem attribute_digest_ambiguous:
  "computeMD5OfAttributes md5 [(name, attribute_of ty (x @ v))] =
     computeMD5OfAttributes md5 [(name, attribute_of (ty @ x) v)] \<and>
   computeMD5OfAttributes md5 [(name @ x, attribute_of ty v)] =
     computeMD5OfAttributes md5 [(name, attribute_of (x @ ty) v)]"
  by (simp add: computeMD5OfAttributes_def attribute_bytes_def attribute_of_def)

subsection \<open>Parameters that block a creation\<close>

lemma set_each_names: "set_each J a kvs = Inr a' \<Longrightarrow> \<forall>(k, v) \<in> set kvs. k \<in> set validAttributes"
proof (induction kvs arbitrary: a)
  case (Cons kv kvs)
  then show ?case using SetAttribute_name by (cases kv) (auto split: sum.splits)
qed simp

text \<open>
  A Query request to create a queue that has any flat parameter the server does not know
  creates nothing.  So a client that spells the name \<open>queuename\<close>, which \<open>GetParam\<close> reads as
  a variant of \<open>QueueName\<close>, or that signs with a parameter \<open>Signature\<close>, can never create
  a queue.
\<close>

theorem unknown_parameter_blocks_create:
  assumes "qr_Action r = ''CreateQueue''" "qr_Attributes r = parseQueryAttributes (qr_Params r)"
    and "(key, v # vs) \<in> set (qr_Params r)" "\<not> isKnownParam key" "key \<notin> set validAttributes"
  shows "\<exists>err. HandleRequest H d (QueryRequestAdapter r) st = (Inl err, st)"
proof -
  obtain w where "map_of (qr_Attributes r) key = Some w"
    using unknown_is_attribute [OF assms(3,4)] assms(2) by auto
  then have "(key, w) \<in> set (qr_Attributes r)" by (rule map_of_SomeD)
  then have "\<exists>err. set_each (hd_policy H) NewDefaultQueueAttributes (qr_Attributes r) = Inl err"
    using set_each_names [of "hd_policy H" NewDefaultQueueAttributes "qr_Attributes r"] assms(5)
    by (cases "set_each (hd_policy H) NewDefaultQueueAttributes (qr_Attributes r)") auto
  then show ?thesis
    using assms(1) by (auto simp: HandleRequest_def handleCreateQueue_def QueryRequestAdapter_def Let_def split: option.splits)
qed

lemma unknown_parameter_blocks_create_witness:
  "\<exists>r err. ParseQueryRequest ''Action=CreateQueue&queuename=jobs'' = Inr r \<and>
     query_QueueName r = ''jobs'' \<and>
     HandleRequest sample_handlers sample_draws (QueryRequestAdapter r) sample_server = (Inl err, sample_server)"
proof -
  have parse: "ParseQuery ''Action=CreateQueue&queuename=jobs'' =
      ([(''Action'', [''CreateQueue'']), (''queuename'', [''jobs''])], None)"
    by code_simp
  have low: "lower_name ''QueueName'' = ''queuename''" by code_simp
  obtain r where r: "ParseQueryRequest ''Action=CreateQueue&queuename=jobs'' = Inr r" "qr_Action r = ''CreateQueue''"
    "qr_Params r = [(''Action'', [''CreateQueue'']), (''queuename'', [''jobs''])]"
    "qr_Attributes r = parseQueryAttributes (qr_Params r)"
    by (simp add: ParseQueryRequest_def parse values_get_def)
  have "\<not> isKnownParam ''queuename''" "''queuename'' \<notin> set validAttributes" by code_simp+
  then show ?thesis
    using unknown_parameter_blocks_create [OF r(2,4), of "''queuename''" "''jobs''" "[]" sample_handlers sample_draws
        sample_server] r low
    by (auto simp: GetParam_def values_get_def)
qed

subsection \<open>The theorems of this theory at work\<close>

lemma sample_resolves: "resolved (action_sample a m) (NewQueue ''jobs'' None 0) sample_server"
  by (simp add: resolved_def named_def sample_name sample_server_def NewQueue_def)


lemma queue_delay_ignored_witness:
  "\<exists>r st1 st2. HandleRequest sample_handlers sample_draws (action_sample ''SendMessage'' [(''MessageBody'', JString ''x'')])
       sample_server = (r, st1) \<and>
     HandleRequest sample_handlers sample_draws (action_sample ''SendMessage'' [(''MessageBody'', JString ''x'')])
       (put_queue ((NewQueue ''jobs'' None 0)\<lparr> q_attributes :=
          (q_attributes (NewQueue ''jobs'' None (0 :: nat)))\<lparr> qa_DelaySeconds := 900 \<rparr> \<rparr>) sample_server) = (r, st2)"
proof -
  let ?req = "action_sample ''SendMessage'' [(''MessageBody'', JString ''x'')]"
  let ?st = "put_queue ((NewQueue ''jobs'' None (0 :: nat))\<lparr> q_attributes :=
    (q_attributes (NewQueue ''jobs'' None (0 :: nat)))\<lparr> qa_DelaySeconds := 900 \<rparr> \<rparr>) sample_server"
  obtain r st1 where 1: "HandleRequest sample_handlers sample_draws ?req sample_server = (r, st1)" by fastforce
  obtain r' st2 where 2: "HandleRequest sample_handlers sample_draws ?req ?st = (r', st2)" by fastforce
  have same: "r' = r" using queue_delay_ignored [OF sample_resolves _ 1 2] by (simp only: sample_fields)
  show ?thesis
    by (rule exI [of _ r], rule exI [of _ st1], rule exI [of _ st2], rule conjI [OF 1 2 [unfolded same]])
qed

definition refusing_handlers :: "nat handler_env" where
  "refusing_handlers = sample_handlers\<lparr> hd_ops := counter_ops\<lparr> op_DeleteMessage := (\<lambda>h s. (Some (invalid_handle h), s)) \<rparr> \<rparr>"

lemma invalid_handle_is_server_error_witness:
  "\<exists>x. HandleRequest refusing_handlers sample_draws (action_sample ''DeleteMessage'' [(''ReceiptHandle'', JString ''h'')])
     sample_server = (Inl (SQSErr x), sample_server) \<and> HTTPStatusValue x = 500"
proof -
  let ?req = "action_sample ''DeleteMessage'' [(''ReceiptHandle'', JString ''h'')]"
  let ?q = "NewQueue ''jobs'' None 0 :: nat queue"
  have h: "ar_ReceiptHandle ?req = ''h''"
    by (simp add: action_sample_def JSONRequestAdapter_def json_string_def)
  have same: "put_queue ?q sample_server = sample_server" by (rule put_same [OF sample_resolves])
  have refused: "op_DeleteMessage (hd_ops refusing_handlers) (ar_ReceiptHandle ?req) (q_store ?q) =
      (Some (invalid_handle ''h''), q_store ?q)"
    by (simp add: h refusing_handlers_def)
  show ?thesis
    using invalid_handle_is_server_error [OF sample_resolves _ _ refused,
        where e = "json_entry [(''ReceiptHandle'', JString ''h'')]" and d = sample_draws and k = 0]
    by (auto simp: h same json_entry_def json_string_def)
qed

end
