(* ===== verification/ResponseProperties.thy ===== *)
theory ResponseProperties
  imports RequestHandler ActionProperties
begin

section \<open>What clients read in the responses\<close>

text \<open>
  What an XML parser reads back of a text that was written, and that a request gets one response with
  the status its outcome calls for.
\<close>

subsection \<open>Text in XML\<close>

lemma rune_len_bytes:
  "rune_len (c # s) = n \<Longrightarrow> n \<noteq> 0 \<Longrightarrow>
   (n = 1 \<and> byte_of c < 128) \<or> (2 \<le> n \<and> n \<le> length (c # s) \<and> (\<forall>x \<in> set (take n (c # s)). 128 \<le> byte_of x))"
  by (auto simp: rune_len_def between_def split: list.splits if_splits)

text \<open>A rune is one ASCII byte or several bytes outside ASCII.\<close>

lemma runes_bytes:
  "r \<in> set (runes s) \<Longrightarrow> (\<exists>c. r = [c] \<and> byte_of c < 128) \<or> (2 \<le> length r \<and> (\<forall>c \<in> set r. 128 \<le> byte_of c))"
proof (induction s rule: runes.induct)
  case (2 c s)
  show ?case
  proof (cases "rune_len (c # s) = 0")
    case True
    then show ?thesis using 2 by (auto simp: rune_error_def)
  next
    case False
    then consider "r = take (rune_len (c # s)) (c # s)" | "r \<in> set (runes (drop (rune_len (c # s)) (c # s)))"
      using "2.prems" by (auto simp del: take_Cons' drop_Cons')
    then show ?thesis
    proof cases
      case 1
      from rune_len_bytes [OF refl False] show ?thesis
      proof
        assume "rune_len (c # s) = 1 \<and> byte_of c < 128"
        then show ?thesis using 1 by simp
      next
        assume "2 \<le> rune_len (c # s) \<and> rune_len (c # s) \<le> length (c # s) \<and>
          (\<forall>x \<in> set (take (rune_len (c # s)) (c # s)). 128 \<le> byte_of x)"
        then show ?thesis unfolding 1 by (metis length_take min.absorb2)
      qed
    next
      case 2
      then show ?thesis by (rule "2.IH"(2) [OF False])
    qed
  qed
qed simp

text \<open>The entities the server writes, and how an XML parser reads them.\<close>

definition entities :: "(string \<times> string) list" where
  "entities = [(''&#34;'', [CHR 0x22]), (''&#39;'', [CHR 0x27]), (''&amp;'', ''&''), (''&lt;'', ''<''), (''&gt;'', ''>''),
     (''&#x9;'', [CHR 0x09]), (''&#xA;'', [CHR 0x0A]), (''&#xD;'', [CHR 0x0D])]"

function xml_unescape :: "string \<Rightarrow> string" where
  "xml_unescape [] = []"
| "xml_unescape (c # s) =
     (case find (\<lambda>(e, t). HasPrefix (c # s) e) entities of
        None \<Rightarrow> c # xml_unescape s
      | Some (e, t) \<Rightarrow> t @ xml_unescape (drop (length e) (c # s)))"
  by pat_completeness auto
termination
proof (relation "measure length")
  fix c s x e t
  assume "find (\<lambda>(e, t). HasPrefix (c # s) e) entities = Some x" "(e, t) = x"
  then have "(e, t) \<in> set entities" by (metis find_Some_iff nth_mem)
  then have "0 < length e" by (auto simp: entities_def)
  then show "(drop (length e) (c # s), c # s) \<in> measure length" by simp
qed auto

definition forbidden :: "string \<Rightarrow> bool" where
  "forbidden r \<longleftrightarrow> (\<exists>c. r = [c] \<and> byte_of c < 32 \<and> c \<notin> {CHR 0x09, CHR 0x0A, CHR 0x0D}) \<or>
     map byte_of r = [239, 191, 190] \<or> map byte_of r = [239, 191, 191]"

definition xml_visible :: "string \<Rightarrow> string" where
  "xml_visible r = (if forbidden r then rune_error else r)"

lemma no_entity:
  "c \<noteq> CHR ''&'' \<Longrightarrow> find (\<lambda>(e, t). HasPrefix (c # s) e) entities = None"
  by (simp add: entities_def HasPrefix_def)

lemma unescape_plain: "CHR ''&'' \<notin> set r \<Longrightarrow> xml_unescape (r @ s) = r @ xml_unescape s"
  by (induction r) (auto simp: no_entity)

lemma unescape_entity:
  "(e, t) \<in> set entities \<Longrightarrow> xml_unescape (e @ s) = t @ xml_unescape s"
  by (auto simp: entities_def HasPrefix_def)

lemma amp_bytes: "\<forall>c \<in> set r. 128 \<le> byte_of c \<Longrightarrow> CHR ''&'' \<notin> set r"
proof
  assume "\<forall>c \<in> set r. 128 \<le> byte_of c" "CHR ''&'' \<in> set r"
  then have "128 \<le> byte_of (CHR ''&'')" by blast
  then show False by simp
qed


lemma rune_error_plain: "CHR ''&'' \<notin> set rune_error"
  by (rule amp_bytes) (simp add: rune_error_def)

lemma unescape_rune:
  assumes "r \<in> set (runes s)"
  shows "xml_unescape (escape_rune r @ t) = xml_visible r @ xml_unescape t"
  using runes_bytes [OF assms]
proof
  assume "\<exists>c. r = [c] \<and> byte_of c < 128"
  then obtain c where c: "r = [c]" "byte_of c < 128" by blast
  show ?thesis
  proof (cases "c \<in> {CHR 0x22, CHR 0x27, CHR ''&'', CHR ''<'', CHR ''>'', CHR 0x09, CHR 0x0A, CHR 0x0D}")
    case True
    then have "(escape_rune r, r) \<in> set entities" "\<not> forbidden r"
      by (auto simp: c(1) escape_rune_def entities_def forbidden_def)
    then show ?thesis by (simp add: unescape_entity xml_visible_def)
  next
    case False
    then have "escape_rune r = xml_visible r"
      by (auto simp: c(1) escape_rune_def xml_visible_def forbidden_def)
    moreover have "CHR ''&'' \<notin> set (xml_visible r)"
      using False rune_error_plain by (auto simp: c(1) xml_visible_def)
    ultimately show ?thesis by (simp add: unescape_plain)
  qed
next
  assume r: "2 \<le> length r \<and> (\<forall>c \<in> set r. 128 \<le> byte_of c)"
  then have "length r \<noteq> 1" "\<And>x. r \<noteq> [x]" by auto
  then have "escape_rune r = xml_visible r"
    by (simp add: escape_rune_def xml_visible_def forbidden_def)
  moreover have "CHR ''&'' \<notin> set (xml_visible r)"
    using amp_bytes r rune_error_plain by (auto simp: xml_visible_def)
  ultimately show ?thesis by (simp add: unescape_plain)
qed

lemma unescape_runes:
  "set rs \<subseteq> set (runes s) \<Longrightarrow> xml_unescape (concat (map escape_rune rs)) = concat (map xml_visible rs)"
  by (induction rs) (auto simp: unescape_rune)

lemma EscapeText_read: "xml_unescape (EscapeText s) = concat (map xml_visible (runes s))"
  unfolding EscapeText_def by (rule unescape_runes [OF subset_refl])

lemma escape_rune_clean:
  assumes "r \<in> set (runes s)"
  shows "c \<in> {CHR ''<'', CHR ''>'', CHR 0x22} \<Longrightarrow> c \<notin> set (escape_rune r)"
proof -
  have big: "c \<notin> set x" if "\<forall>c \<in> set x. 128 \<le> byte_of c" "c \<in> {CHR ''<'', CHR ''>'', CHR 0x22}" for x c
  proof
    assume "c \<in> set x"
    then have "128 \<le> byte_of c" using that(1) by blast
    then show False using that(2) by auto
  qed
  show "c \<in> {CHR ''<'', CHR ''>'', CHR 0x22} \<Longrightarrow> c \<notin> set (escape_rune r)"
    using runes_bytes [OF assms] big [of rune_error c] big [of r c]
    by (auto simp: escape_rune_def rune_error_def)
qed




lemma EscapeText_ascii:
  "\<forall>c \<in> set x. byte_of c < 128 \<Longrightarrow> EscapeText (x @ s) = concat (map (\<lambda>c. escape_rune [c]) x) @ EscapeText s"
  by (induction x) (simp_all add: EscapeText_def)

definition control :: "char \<Rightarrow> bool" where
  "control c \<longleftrightarrow> byte_of c < 32 \<and> c \<notin> {CHR 0x09, CHR 0x0A, CHR 0x0D}"

lemma escape_control: "control c \<Longrightarrow> escape_rune [c] = rune_error"
proof -
  assume c: "control c"
  have "\<forall>x \<in> {CHR 0x22, CHR 0x27, CHR ''&'', CHR ''<'', CHR ''>''}. 32 \<le> byte_of x" by simp
  then have "c \<notin> {CHR 0x22, CHR 0x27, CHR ''&'', CHR ''<'', CHR ''>''}"
    using c unfolding control_def by (meson leD)
  then show ?thesis using c by (simp add: control_def escape_rune_def)
qed

lemma EscapeText_control:
  assumes "\<forall>b \<in> set x. byte_of b < 128" "control c"
  shows "EscapeText (x @ c # y) = concat (map (\<lambda>c. escape_rune [c]) x) @ rune_error @ EscapeText y"
proof -
  have "byte_of c < 128" using assms(2) by (simp add: control_def)
  then have "EscapeText (c # y) = rune_error @ EscapeText y"
    using escape_control [OF assms(2)] by (simp add: EscapeText_def)
  then show ?thesis by (simp add: EscapeText_ascii [OF assms(1)])
qed

lemma body_shown:
  assumes "EscapeText b = EscapeText b'"
  shows "write_xml d (buildXMLMessage (m\<lparr> Body := b \<rparr>)) = write_xml d (buildXMLMessage (m\<lparr> Body := b' \<rparr>))"
proof -
  have "shown_attributes (m\<lparr> Body := b \<rparr>) = shown_attributes m" for b by (simp add: shown_attributes_def)
  then show ?thesis using assms by (simp add: buildXMLMessage_def)
qed

text \<open>
  A send never looks at the characters of a body, but the XML of a receive cannot show
  all of them: two bodies that differ in a control character XML forbids are accepted alike
  and give the same document, so at least one of them comes back changed, next to the digest
  of what was sent.
\<close>

theorem control_characters_lost:
  assumes "\<forall>b \<in> set x. byte_of b < 128" "control c" "control c'"
  shows "sendable mode a (req\<lparr> ar_MessageBody := x @ c # y \<rparr>) = sendable mode a (req\<lparr> ar_MessageBody := x @ c' # y \<rparr>) \<and>
    MarshalXMLResponse (ReceiveMessageResponse [m\<lparr> Body := x @ c # y \<rparr>] rid) =
      MarshalXMLResponse (ReceiveMessageResponse [m\<lparr> Body := x @ c' # y \<rparr>] rid)"
proof
  show "sendable mode a (req\<lparr> ar_MessageBody := x @ c # y \<rparr>) = sendable mode a (req\<lparr> ar_MessageBody := x @ c' # y \<rparr>)"
    by (simp add: sendable_def)
  have "EscapeText (x @ c # y) = EscapeText (x @ c' # y)"
    using EscapeText_control [OF assms(1,2), of y] EscapeText_control [OF assms(1,3), of y] by simp
  from body_shown [OF this] show "MarshalXMLResponse (ReceiveMessageResponse [m\<lparr> Body := x @ c # y \<rparr>] rid) =
      MarshalXMLResponse (ReceiveMessageResponse [m\<lparr> Body := x @ c' # y \<rparr>] rid)"
    by (simp add: MarshalXMLResponse_def ReceiveMessageResponse_def)
qed

lemma control_characters_lost_witness:
  "MarshalXMLResponse (ReceiveMessageResponse [zero_message\<lparr> Body := ''a'' @ CHR 0x01 # ''b'' \<rparr>] ''r'') =
   MarshalXMLResponse (ReceiveMessageResponse [zero_message\<lparr> Body := ''a'' @ CHR 0x02 # ''b'' \<rparr>] ''r'')"
proof -
  have "\<forall>b \<in> set ''a''. byte_of b < 128" "control (CHR 0x01)" "control (CHR 0x02)" by (simp_all add: control_def)
  from control_characters_lost [OF this] show ?thesis by blast
qed

subsection \<open>Every request is answered\<close>

lemma dispatch_answers:
  "\<exists>resp. fst (dispatch H d proto req st) = Some resp \<and> rs_Status resp \<in> {200, 400, 403, 500} \<and>
     rs_Header resp = [(''Content-Type'', if proto = JSONProtocol then JSONContentType else XMLContentType)]"
  "snd (dispatch H d proto req st) = snd (HandleRequest H d req st)"
proof -
  obtain out st' where h: "HandleRequest H d req st = (out, st')" by fastforce
  have "answers (ar_Action req) (out, st')" using HandleRequest_answers [of req H d st] h by simp
  then have "(\<exists>err. out = Inl err \<and> reported err) \<or> (\<exists>rp data. out = Inr rp \<and> MarshalResponse rp proto = Some (Inr data))"
    by (cases out) (auto simp: MarshalResponse_def marshalXMLResponse_def marshalJSONResponse_def
        dest: well_shaped_marshals)
  then show "\<exists>resp. fst (dispatch H d proto req st) = Some resp \<and> rs_Status resp \<in> {200, 400, 403, 500} \<and>
      rs_Header resp = [(''Content-Type'', if proto = JSONProtocol then JSONContentType else XMLContentType)]"
    "snd (dispatch H d proto req st) = snd (HandleRequest H d req st)"
    by (auto simp: dispatch_def h writeErrorResponse_def reported_def Let_def)
qed

lemma error_answers:
  "reported err \<Longrightarrow> rs_Status (writeErrorResponse err proto rid) \<in> {400, 403, 500} \<and>
   rs_Header (writeErrorResponse err proto rid) =
     [(''Content-Type'', if proto = JSONProtocol then JSONContentType else XMLContentType)]"
  by (simp add: writeErrorResponse_def reported_def Let_def)

definition answered ::
  "'s handler_env \<Rightarrow> draws \<Rightarrow> ProtocolType \<Rightarrow> 's handler_state \<Rightarrow> response option \<times> 's handler_state \<Rightarrow> bool" where
  "answered H d proto st out \<longleftrightarrow>
     (\<exists>resp. fst out = Some resp \<and> rs_Status resp \<in> {200, 400, 403, 500} \<and>
        rs_Header resp = [(''Content-Type'', if proto = JSONProtocol then JSONContentType else XMLContentType)]) \<and>
     (snd out = st \<or> (\<exists>req. snd out = snd (HandleRequest H d req st)))"

lemma answered_error: "reported err \<Longrightarrow> answered H d proto st (Some (writeErrorResponse err proto rid), st)"
  using error_answers [of err proto rid] by (simp add: answered_def)

lemma answered_dispatch: "answered H d proto st (dispatch H d proto req st)"
  using dispatch_answers [of H d proto req st] unfolding answered_def by blast


end
