(* ===== verification/StartupProperties.thy ===== *)
theory StartupProperties
  imports Startup CredentialProperties ResponseProperties
begin

section \<open>What start-up and the middleware chain guarantee\<close>

text \<open>
  The seeding of credentials, proved in the contract of the credential stores; the layers of
  the middleware chain; and the choice of the store.
\<close>

subsection \<open>Seeding\<close>

text \<open>The credential a configured one becomes, as the \<open>k\<close>-th of the list.\<close>

definition seeded :: "(nat \<Rightarrow> entropy) \<Rightarrow> time \<Rightarrow> string \<Rightarrow> string \<Rightarrow> nat \<Rightarrow> InitialCredential \<Rightarrow> credential" where
  "seeded en now region account k ic =
     imported_credential (en k) now (dflt (ic_Label ic) ''imported'') (ic_AccessKeyID ic) (ic_SecretAccessKey ic)
       (dflt (ic_Region ic) region) (dflt (ic_AccountID ic) account)"

lemma seeded_simps [simp]:
  "cr_ID (seeded en now region account k ic) = GenerateID (en_id (en k))"
  "cr_AccessKeyID (seeded en now region account k ic) = ic_AccessKeyID ic"
  "cr_SecretAccessKey (seeded en now region account k ic) = ic_SecretAccessKey ic"
  by (simp_all add: seeded_def) (simp add: imported_credential_def)

text \<open>What is drawn for the imports: fresh identifiers, and credentials that can be stored.\<close>

definition seedable ::
  "credential set \<Rightarrow> (nat \<Rightarrow> entropy) \<Rightarrow> time \<Rightarrow> string \<Rightarrow> string \<Rightarrow> nat \<Rightarrow> InitialCredential list \<Rightarrow> bool" where
  "seedable cs en now region account k ics \<longleftrightarrow>
     (\<forall>i < length ics. storable (seeded en now region account (k + i) (ics ! i)) \<and>
        GenerateID (en_id (en (k + i))) \<notin> cr_ID ` cs) \<and>
     distinct (map (\<lambda>i. GenerateID (en_id (en (k + i)))) [0 ..< length ics])"

lemma seedable_Cons:
  assumes "seedable cs en now region account k (ic # ics)"
  shows "storable (seeded en now region account k ic)" "GenerateID (en_id (en k)) \<notin> cr_ID ` cs"
    and "seedable (insert (seeded en now region account k ic) cs) en now region account (Suc k) ics"
    and "seedable cs en now region account (Suc k) ics"
proof -
  let ?g = "\<lambda>i. GenerateID (en_id (en i))"
  have each: "storable (seeded en now region account (k + i) ((ic # ics) ! i)) \<and> ?g (k + i) \<notin> cr_ID ` cs"
    if "i < Suc (length ics)" for i
    using assms that by (auto simp: seedable_def)
  have "map (\<lambda>i. ?g (k + i)) [0 ..< Suc (length ics)] = ?g k # map (\<lambda>i. ?g (Suc k + i)) [0 ..< length ics]"
    by (simp add: upt_rec [of 0] map_Suc_upt [symmetric] del: upt_Suc)
  then have dist: "distinct (?g k # map (\<lambda>i. ?g (Suc k + i)) [0 ..< length ics])"
    using assms by (simp add: seedable_def del: upt_Suc)
  show "storable (seeded en now region account k ic)" "?g k \<notin> cr_ID ` cs" using each [of 0] by simp_all
  have rest: "storable (seeded en now region account (Suc k + i) (ics ! i)) \<and> ?g (Suc k + i) \<notin> cr_ID ` cs"
    if "i < length ics" for i
    using each [of "Suc i"] that by simp
  then show "seedable cs en now region account (Suc k) ics" using dist by (simp add: seedable_def)
  have "?g (Suc k + i) \<noteq> ?g k" if "i < length ics" for i
  proof -
    have "?g (Suc k + i) \<in> set (map (\<lambda>i. ?g (Suc k + i)) [0 ..< length ics])" using that by force
    then show ?thesis using dist by auto
  qed
  then show "seedable (insert (seeded en now region account k ic) cs) en now region account (Suc k) ics"
    using rest dist by (auto simp: seedable_def)
qed

context credential_store
begin

lemma seed_present:
  assumes "inv s" "inj_on cr_AccessKeyID (creds s)" "ic_AccessKeyID ` set ics \<subseteq> cr_AccessKeyID ` creds s"
  shows "seed ops en now region account k ics s = (None, s)"
  using assms(3)
proof (induction ics arbitrary: k)
  case (Cons ic ics)
  then obtain c where "c \<in> creds s" "ic_AccessKeyID ic = cr_AccessKeyID c" by auto
  then show ?case using by_key [OF assms(1,2), of c] Cons by simp
qed simp

lemma seed_result:
  assumes "inv s" "inj_on cr_AccessKeyID (creds s)" "seedable (creds s) en now region account k ics"
    "distinct (map ic_AccessKeyID ics)"
  shows "\<exists>s'. seed ops en now region account k ics s = (None, s') \<and> inv s' \<and>
    inj_on cr_AccessKeyID (creds s') \<and> creds s \<subseteq> creds s' \<and>
    (\<forall>ic \<in> set ics. \<exists>c \<in> creds s'. cr_AccessKeyID c = ic_AccessKeyID ic \<and>
       (ic_AccessKeyID ic \<notin> cr_AccessKeyID ` creds s \<longrightarrow> cr_SecretAccessKey c = ic_SecretAccessKey ic))"
  using assms
proof (induction ics arbitrary: k s)
  case (Cons ic ics)
  let ?c = "seeded en now region account k ic"
  show ?case
  proof (cases "ic_AccessKeyID ic \<in> cr_AccessKeyID ` creds s")
    case True
    then obtain d where d: "d \<in> creds s" "cr_AccessKeyID d = ic_AccessKeyID ic" by auto
    have "co_GetByAccessKeyID ops (ic_AccessKeyID ic) s = Inr d"
      using by_key [OF Cons.prems(1,2) d(1)] d(2) by simp
    moreover obtain s' where "seed ops en now region account (Suc k) ics s = (None, s') \<and> inv s' \<and>
        inj_on cr_AccessKeyID (creds s') \<and> creds s \<subseteq> creds s' \<and>
        (\<forall>ic \<in> set ics. \<exists>c \<in> creds s'. cr_AccessKeyID c = ic_AccessKeyID ic \<and>
           (ic_AccessKeyID ic \<notin> cr_AccessKeyID ` creds s \<longrightarrow> cr_SecretAccessKey c = ic_SecretAccessKey ic))"
      using Cons.IH [OF Cons.prems(1,2) seedable_Cons(4) [OF Cons.prems(3)]] Cons.prems(4) by auto
    ultimately show ?thesis using d True by (intro exI [of _ s']) auto
  next
    case False
    then obtain er where "co_GetByAccessKeyID ops (ic_AccessKeyID ic) s = Inl er"
      using by_key_missing [OF Cons.prems(1)] by blast
    moreover obtain x s1 where x: "co_Import ops (en k) now (dflt (ic_Label ic) ''imported'') (ic_AccessKeyID ic)
        (ic_SecretAccessKey ic) (dflt (ic_Region ic) region) (dflt (ic_AccountID ic) account) s = (x, s1)" by fastforce
    have s1: "x = Inr ?c" "inv s1" "creds s1 = insert ?c (creds s)"
      using import_new [OF Cons.prems(1) _ False _ x] seedable_Cons(1,2) [OF Cons.prems(3)]
      by (auto simp: seeded_def)
    have "inj_on cr_AccessKeyID (creds s1)" using Cons.prems(2) False by (auto simp: s1(3))
    then obtain s' where s': "seed ops en now region account (Suc k) ics s1 = (None, s')" "inv s'"
        "inj_on cr_AccessKeyID (creds s')" "creds s1 \<subseteq> creds s'"
        "\<forall>ic \<in> set ics. \<exists>c \<in> creds s'. cr_AccessKeyID c = ic_AccessKeyID ic \<and>
           (ic_AccessKeyID ic \<notin> cr_AccessKeyID ` creds s1 \<longrightarrow> cr_SecretAccessKey c = ic_SecretAccessKey ic)"
      using Cons.IH [OF s1(2), of "Suc k"] seedable_Cons(3) [OF Cons.prems(3)] Cons.prems(4) by (auto simp: s1(3))
    have "\<exists>c \<in> creds s'. cr_AccessKeyID c = ic_AccessKeyID i \<and>
        (ic_AccessKeyID i \<notin> cr_AccessKeyID ` creds s \<longrightarrow> cr_SecretAccessKey c = ic_SecretAccessKey i)"
      if "i \<in> set (ic # ics)" for i
    proof (cases "i = ic")
      case True
      then show ?thesis using s'(4) by (intro bexI [of _ ?c]) (auto simp: s1(3))
    next
      case False
      then have i: "i \<in> set ics" using that by simp
      then have "ic_AccessKeyID i \<in> ic_AccessKeyID ` set ics" by blast
      then have "ic_AccessKeyID i \<noteq> ic_AccessKeyID ic" using Cons.prems(4) by auto
      then show ?thesis using s'(5) i by (auto simp: s1(3))
    qed
    then show ?thesis using calculation x s' s1 by (intro exI [of _ s']) auto
  qed
qed auto

end


subsection \<open>What the chain guarantees\<close>

lemma sqsHandler_chain:
  "sqsHandler c E u get L now unmarshal H d = Chain (middlewares c E u get L now) (mux unmarshal H d)"
  by (simp add: sqsHandler_def Chain_def Let_def)

definition limits ::
  "RateLimitConfig \<Rightarrow> 'l limiter_ops \<Rightarrow> time \<Rightarrow> ('l, 's) server_state middleware" where
  "limits c L now next =
     (if \<not> rc_Enabled c then next else if rc_PerQueue c then limited_per_queue L now next else limited_globally L now next)"

lemma sqsHandler_layers:
  "sqsHandler c E u get L now unmarshal H d =
   (if IsEnabled (cf_Auth c) then Auth E u (Some get) (sc_Region (cf_SQS c)) (limits (cf_RateLimit c) L now (mux unmarshal H d))
    else limits (cf_RateLimit c) L now (mux unmarshal H d))"
  by (simp add: sqsHandler_chain middlewares_def limits_def Chain_def)

text \<open>The handler's state does not depend on the limiters, and changes only behind them.\<close>

lemma mux_cases:
  "\<exists>resp st. mux unmarshal H d r sv = (resp, sv\<lparr> sv_handlers := st \<rparr>) \<and>
     (\<forall>l m. mux unmarshal H d r (sv\<lparr> sv_global := l, sv_limiters := m \<rparr>) =
        (resp, sv\<lparr> sv_global := l, sv_limiters := m, sv_handlers := st \<rparr>))"
proof (cases "rq_Method r \<noteq> ''CONNECT'' \<and> \<not> clean_path (rq_Path r)")
  case True
  then show ?thesis by (intro exI [of _ "\<lparr> rs_Status = 301, rs_Header = [], rs_Body = [] \<rparr>"] exI [of _ "sv_handlers sv"])
      (simp add: mux_def)
next
  case False
  obtain x st where x: "handleSQSRequest unmarshal H d r (sv_handlers sv) = (x, st)" by fastforce
  then show ?thesis using False by (cases x) (auto simp: mux_def)
qed

lemma limits_cases:
  assumes "limits c L now (mux unmarshal H d) r sv = (resp, sv')"
  shows "resp = too_many \<and> sv_handlers sv' = sv_handlers sv \<or>
    (\<exists>sv1. mux unmarshal H d r sv = (resp, sv1) \<and> sv_handlers sv' = sv_handlers sv1)"
proof -
  obtain x st where "mux unmarshal H d r sv = (x, sv\<lparr> sv_handlers := st \<rparr>)" using mux_cases by blast
  then show ?thesis using assms
    by (auto simp: limits_def limited_per_queue_def limited_globally_def PerQueueRateLimiter_def GlobalRateLimiter_def
        split: if_splits prod.splits)
qed

lemma limits_off [simp]: "\<not> rc_Enabled c \<Longrightarrow> limits c L now next = next"
  by (simp add: limits_def)

lemma auth_refuses: "auth_check E u get region r = Inl refusal \<Longrightarrow> \<exists>code msg. refusal = writeAuthError code msg"
  by (auto simp: auth_check_def verifySigV4_def verifyLegacyQuery_def Let_def no_such_key_id_def
      split: if_splits sum.splits prod.splits)

lemma auth_keeps_path: "auth_check E u get region r = Inr r' \<Longrightarrow> rq_Path r' = rq_Path r"
  by (auto simp: auth_check_def verifySigV4_def verifyLegacyQuery_def extractLegacyCredentials_def Let_def
      split: if_splits sum.splits prod.splits option.splits)

lemma limits_bypassed:
  assumes "rc_PerQueue c" "ExtractQueueName (rq_Path r) = []"
  shows "limits c L now (mux unmarshal H d) r sv = mux unmarshal H d r sv"
proof -
  obtain x st where "mux unmarshal H d r sv = (x, sv\<lparr> sv_handlers := st \<rparr>)" using mux_cases by blast
  then show ?thesis using assms
    by (simp add: limits_def limited_per_queue_def PerQueueRateLimiter_def allow_path_def)
qed


text \<open>
  C35.  The per-queue rate limit is no limit for a request whose path names no queue: requests to
  the root, where the AWS clients post the JSON protocol with the queue's URL in the body, are
  answered as if the limiter were off, and no bucket is used.
\<close>

theorem per_queue_limit_bypassed:
  assumes "rc_PerQueue (cf_RateLimit c)" "ExtractQueueName (rq_Path r) = []"
  shows "sqsHandler c E u get L now unmarshal H d r sv =
    sqsHandler (c\<lparr> cf_RateLimit := (cf_RateLimit c)\<lparr> rc_Enabled := False \<rparr> \<rparr>) E u get L now unmarshal H d r sv"
proof (cases "auth_check E u get (sc_Region (cf_SQS c)) r")
  case (Inl refusal)
  then show ?thesis by (simp add: sqsHandler_layers Auth_def limits_bypassed [OF assms])
next
  case (Inr r')
  then have "limits (cf_RateLimit c) L now (mux unmarshal H d) r' sv = mux unmarshal H d r' sv"
    using assms auth_keeps_path [OF Inr] by (intro limits_bypassed) simp_all
  then show ?thesis using Inr by (simp add: sqsHandler_layers Auth_def limits_bypassed [OF assms])
qed

text \<open>
  A configuration that \<open>Validate\<close> accepts starts the store it names.  One that names SQLite or
  BadgerDB without a path, or no known store, is one \<open>Validate\<close> refuses, but \<open>main\<close> never
  calls it and starts the store that forgets everything.
\<close>

theorem store_selected:
  "(Validate c = None \<longrightarrow>
      select_storage (cf_SQS c) = (if sc_StorageType (cf_SQS c) = ''sqlite'' then SQLiteStorage
        else if sc_StorageType (cf_SQS c) = ''badger'' then BadgerStorage else MemoryStorage)) \<and>
   (sc_StorageType (cf_SQS c) \<notin> {[], ''memory''} \<and> select_storage (cf_SQS c) = MemoryStorage \<longrightarrow> Validate c \<noteq> None)"
  by (auto simp: Validate_def select_storage_def Let_def split: if_splits)

subsection \<open>Witnesses\<close>

definition sample_config :: "string \<Rightarrow> ServerConfig" where
  "sample_config storage =
     \<lparr> cf_Port = 9324, cf_SQS = \<lparr> sc_NodeAddress = ''h'', sc_AccountID = ''a'', sc_Region = ''r'', sc_StorageType = storage,
         sc_SQLitePath = [], sc_BadgerPath = ''db'', sc_StrictLimits = True, sc_ServerSecret = ''s'' \<rparr>,
       cf_Queues = \<lparr> qc_AutoCreate = False, qc_Startup = [] \<rparr>,
       cf_RateLimit = \<lparr> rc_Enabled = True, rc_PerQueue = True \<rparr>,
       cf_Auth = \<lparr> ac_Enabled = None, ac_InitialCredentials =
         [\<lparr> ic_Label = [], ic_AccessKeyID = ''AK1'', ic_SecretAccessKey = ''one'', ic_Region = [], ic_AccountID = [] \<rparr>,
          \<lparr> ic_Label = ''ci'', ic_AccessKeyID = ''AK2'', ic_SecretAccessKey = ''two'', ic_Region = ''eu'', ic_AccountID = ''7'' \<rparr>] \<rparr> \<rparr>"

definition sample_imports :: "nat \<Rightarrow> entropy" where
  "sample_imports k = (if k = 0 then sample_entropy 1 else sample_entropy 2)"

lemma sample_seedable:
  "seedable {} sample_imports (secs 2) ''r'' ''a'' 0 (ac_InitialCredentials (cf_Auth (sample_config storage)))"
  by (auto simp: seedable_def sample_config_def sample_imports_def less_Suc_eq seeded_def imported_credential_def
      storable_def stamp_ok_def zero_time_def secs_def dflt_def valid_utf8_ascii upt_rec simp del: One_nat_def)


definition sample_listing :: request where
  "sample_listing = \<lparr> rq_Method = ''GET'', rq_Path = ''/'', rq_RawQuery = ''Action=ListQueues'', rq_Header = [],
     rq_Host = ''h'', rq_Body = [], rq_BodyError = None \<rparr>"

definition sample_running :: "((time \<times> int) option, nat) server_state" where
  "sample_running = \<lparr> sv_global = None, sv_limiters = (\<lambda>q. None), sv_handlers = sample_server \<rparr>"


lemma per_queue_limit_bypassed_witness:
  "sqsHandler (sample_config ''memory'') sample_env (\<lambda>s. s) (\<lambda>k. Inl (Errorf ''none'')) sample_limiter 0
       (\<lambda>s. Inl []) sample_handlers sample_draws sample_listing sample_running =
     sqsHandler ((sample_config ''memory'')\<lparr> cf_RateLimit := \<lparr> rc_Enabled = False, rc_PerQueue = True \<rparr> \<rparr>)
       sample_env (\<lambda>s. s) (\<lambda>k. Inl (Errorf ''none'')) sample_limiter 0
       (\<lambda>s. Inl []) sample_handlers sample_draws sample_listing sample_running"
proof -
  have "ExtractQueueName (rq_Path sample_listing) = []" by code_simp
  from per_queue_limit_bypassed [OF _ this, of "sample_config ''memory''"]
  show ?thesis by (simp add: sample_config_def)
qed

lemma store_selected_witness:
  "Validate (sample_config ''sqlite'') \<noteq> None \<and> select_storage (cf_SQS (sample_config ''sqlite'')) = MemoryStorage \<and>
   Validate (sample_config ''badger'') = None \<and> select_storage (cf_SQS (sample_config ''badger'')) = BadgerStorage"
proof -
  have "select_storage (cf_SQS (sample_config ''sqlite'')) = MemoryStorage" "Validate (sample_config ''badger'') = None"
    by code_simp+
  then show ?thesis using store_selected [of "sample_config ''sqlite''"] store_selected [of "sample_config ''badger''"]
    by (simp add: sample_config_def)
qed

end
