(* ===== verification/Dashboard.thy ===== *)
theory Dashboard
  imports Startup
begin

section \<open>The dashboard\<close>

text \<open>
  \<^verbatim>\<open>ui/handlers.go\<close> and the routes and wrappers of \<^verbatim>\<open>ui/server.go\<close>: the web pages that show and
  change the queues and credentials of the running server.  A page is the name of its template with
  the data the template gets; rendering it with \<open>html/template\<close> and the static files are left
  out.  The metrics the Prometheus client gathers are a parameter.
\<close>

subsection \<open>Paths, forms and dates\<close>

text \<open>\<open>url.PathEscape\<close> and \<open>url.PathUnescape\<close>.\<close>

definition PathEscape :: "string \<Rightarrow> string" where
  "PathEscape s =
     concat (map (\<lambda>c. if url_alnum c \<or> c \<in> set ''-_.~$&+:=@'' then [c] else percent c) s)"

fun PathUnescape :: "string \<Rightarrow> string + string" where
  "PathUnescape [] = Inr []"
| "PathUnescape (c # s) =
     (if c = CHR ''%'' then
        (case s of
           a # b # rest \<Rightarrow>
             (case (unhex a, unhex b) of
                (Some m, Some n) \<Rightarrow>
                  (case PathUnescape rest of Inl e \<Rightarrow> Inl e | Inr t \<Rightarrow> Inr (char_of (16 * m + n) # t))
              | _ \<Rightarrow> Inl (escape_error (c # s)))
         | _ \<Rightarrow> Inl (escape_error (c # s)))
      else (case PathUnescape s of Inl e \<Rightarrow> Inl e | Inr t \<Rightarrow> Inr (c # t)))"

text \<open>
  \<open>ParseForm\<close>, for the forms of the pages: up to 10 MiB of a body of the form type (whose parameters
  are taken to be well formed), then the query.
  The result is the values of \<open>r.Form\<close> and whether something could not be read.
\<close>

definition post_form :: "request \<Rightarrow> string list gomap \<times> string option" where
  "post_form r =
     (if rq_Method r \<notin> {''POST'', ''PUT'', ''PATCH''} then ([], None)
      else if lower_name (TrimSpace (before_first (CHR '';'') (header_get r ''Content-Type''))) \<noteq> QueryProtocolContentType
      then ([], None)
      else case read_limited 10485761 r of
             Inl e \<Rightarrow> ([], Some e)
           | Inr body \<Rightarrow>
               if 10485760 < length body then ([], Some ''http: POST too large'') else ParseQuery body)"

definition ParseForm :: "request \<Rightarrow> string list gomap \<times> string option" where
  "ParseForm r =
     (let (post, err) = post_form r; (query, err2) = ParseQuery (rq_RawQuery r)
      in (fold (\<lambda>(k, vs). fold (add_value k) vs) query post, if err = None then err2 else err))"

definition FormValue :: "request \<Rightarrow> string \<Rightarrow> string" where
  "FormValue r name = values_get (fst (ParseForm r)) name"

text \<open>\<open>Format("2006-01-02 15:04:05")\<close>, in UTC: the civil date of a day counted from 1970-01-01.\<close>

definition civil :: "int \<Rightarrow> int \<times> int \<times> int" where
  "civil days =
     (let z = days + 719468; era = z div 146097; doe = z mod 146097;
          yoe = (doe - doe div 1460 + doe div 36524 - doe div 146096) div 365;
          doy = doe - (365 * yoe + yoe div 4 - yoe div 100);
          mp = (5 * doy + 2) div 153;
          month = (if mp < 10 then mp + 3 else mp - 9)
      in (yoe + era * 400 + (if month \<le> 2 then 1 else 0), month, doy - (153 * mp + 2) div 5 + 1))"

definition padded :: "nat \<Rightarrow> int \<Rightarrow> string" where
  "padded n i = replicate (n - length (itoa i)) (CHR ''0'') @ itoa i"

definition format_time :: "time \<Rightarrow> string" where
  "format_time t =
     (let secs = t div 1000000000; (y, m, d) = civil (secs div 86400); rest = secs mod 86400
      in padded 4 y @ ''-'' @ padded 2 m @ ''-'' @ padded 2 d @ '' '' @
         padded 2 (rest div 3600) @ '':'' @ padded 2 (rest mod 3600 div 60) @ '':'' @ padded 2 (rest mod 60))"

text \<open>\<open>encoding/json\<close> with HTML escaping on, its default: the three characters occur in strings only.\<close>

definition html_escaped :: "string \<Rightarrow> string" where
  "html_escaped s =
     concat (map (\<lambda>c. if c \<in> {CHR ''<'', CHR ''>'', CHR ''&''} then CHR 0x5C # ''u00'' @ hex_byte c else [c]) s)"

subsection \<open>What the pages show\<close>

record queue_item =
  qi_Name :: string
  qi_IsFifo :: bool
  qi_Available :: int
  qi_InFlight :: int
  qi_Delayed :: int
  qi_URL :: string

record message_display =
  md_MessageID :: string
  md_ReceiptHandle :: string
  md_Body :: string
  md_ReceiveCount :: int
  md_SentTimestamp :: string

record credential_display =
  cd_ID :: string
  cd_Label :: string
  cd_AccessKeyID :: string
  cd_SecretAccessKey :: string
  cd_Region :: string
  cd_AccountID :: string
  cd_CreatedAt :: string
  cd_ExportCommands :: string

record metrics_data =
  mx_APIRequests :: "(string \<times> string \<times> int) list"
  mx_QueueSizes :: "(string \<times> string \<times> int) list"
  mx_MessagesSent :: "(string \<times> int) list"
  mx_MessagesReceived :: "(string \<times> int) list"
  mx_MessagesDeleted :: "(string \<times> int) list"
  mx_MoveTaskMessages :: "(string \<times> string \<times> int) list"
  mx_MoveTaskActive :: int
  mx_Raw :: string

record page_data =
  pd_Title :: string
  pd_Queues :: "queue_item list"
  pd_Error :: string
  pd_Success :: string
  pd_MetricsEnabled :: bool
  pd_Metrics :: "metrics_data option"
  pd_Credentials :: "credential_display list"
  pd_CreatedCred :: "credential_display option"
  pd_CLIEnvVars :: string

record queue_detail =
  qd_Title :: string
  qd_Name :: string
  qd_IsFifo :: bool
  qd_URL :: string
  qd_ARN :: string
  qd_Attrs :: "string gomap"
  qd_Tags :: "string gomap"
  qd_Available :: int
  qd_InFlight :: int
  qd_Delayed :: int
  qd_Messages :: "message_display list"
  qd_Error :: string
  qd_Success :: string
  qd_MetricsEnabled :: bool
  qd_EndpointURL :: string
  qd_Region :: string
  qd_AccountID :: string
  qd_CLIEnvVars :: string
  qd_CLISendCommand :: string
  qd_CLIRecvCommand :: string

datatype ui_reply =
    Page string page_data
  | QueuePage string queue_detail
  | Redirect string
  | HTTPError int string
  | JSONReply int string
  | Moved
  | StaticFile string

text \<open>What the handlers are built with, and the state they share with the SQS server.\<close>

record metric_family =
  mf_name :: string
  mf_metrics :: "(string gomap \<times> int) list"
  mf_text :: string

record ('s, 'c) ui_env =
  ue_handlers :: "'s handler_env"
  ue_creds :: "'c credential_ops"
  ue_metricsEnabled :: bool
  ue_gather :: "string + metric_family list"

record ('s, 'c) ui_state =
  us_server :: "'s handler_state"
  us_creds :: 'c

text \<open>What a request draws, with the random bytes and the time of a new credential.\<close>

record ui_draws =
  ud_draws :: draws
  ud_entropy :: entropy
  ud_created :: time

type_synonym ('s, 'c) ui_handler = "ui_draws \<Rightarrow> request \<Rightarrow> ('s, 'c) ui_state \<Rightarrow> ui_reply \<times> ('s, 'c) ui_state"

definition newQueueListItem :: "'s store_ops \<Rightarrow> clock \<Rightarrow> 's manager \<Rightarrow> 's queue \<Rightarrow> queue_item" where
  "newQueueListItem ops now qm q =
     \<lparr> qi_Name = q_name q, qi_IsFifo = IsFifo q, qi_Available = op_ApproximateNumberOfMessages ops (now 0) (q_store q),
       qi_InFlight = op_ApproximateNumberOfMessagesNotVisible ops (now 1) (q_store q),
       qi_Delayed = op_ApproximateNumberOfMessagesDelayed ops (now 2) (q_store q),
       qi_URL = Queue_URL (qm_nodeAddress qm) (qm_accountID qm) q \<rparr>"

definition newMessageDisplay :: "message \<Rightarrow> message_display" where
  "newMessageDisplay m =
     \<lparr> md_MessageID = MessageID m, md_ReceiptHandle = ReceiptHandle m, md_Body = Body m,
       md_ReceiveCount = ApproximateReceiveCount m, md_SentTimestamp = format_time (SentTimestamp m) \<rparr>"

definition quoted :: "string \<Rightarrow> string" where
  "quoted s = [CHR 0x22] @ s @ [CHR 0x22]"

definition buildExportCommands :: "credential \<Rightarrow> string" where
  "buildExportCommands c =
     ''export AWS_ACCESS_KEY_ID='' @ quoted (cr_AccessKeyID c) @ [CHR 0x0A] @
     ''export AWS_SECRET_ACCESS_KEY='' @ quoted (cr_SecretAccessKey c) @ [CHR 0x0A] @
     ''export AWS_DEFAULT_REGION='' @ quoted (cr_Region c) @ [CHR 0x0A] @
     ''export AWS_ACCOUNT_ID='' @ quoted (cr_AccountID c)"

definition newCredentialDisplay :: "credential \<Rightarrow> bool \<Rightarrow> credential_display" where
  "newCredentialDisplay c includeSecret =
     \<lparr> cd_ID = cr_ID c, cd_Label = cr_Label c, cd_AccessKeyID = cr_AccessKeyID c,
       cd_SecretAccessKey = (if includeSecret then cr_SecretAccessKey c else []), cd_Region = cr_Region c,
       cd_AccountID = cr_AccountID c, cd_CreatedAt = format_time (cr_CreatedAt c),
       cd_ExportCommands = (if includeSecret then buildExportCommands c else []) \<rparr>"

definition buildEndpointURL :: "string \<Rightarrow> string" where
  "buildEndpointURL nodeAddress =
     (if HasPrefix nodeAddress ''http://'' \<or> HasPrefix nodeAddress ''https://'' then nodeAddress
      else ''http://'' @ nodeAddress)"

definition buildCLIEnvVars :: "string \<Rightarrow> string \<Rightarrow> string \<Rightarrow> string" where
  "buildCLIEnvVars endpointURL region accountID =
     ''export AWS_ENDPOINT_URL='' @ quoted endpointURL @ [CHR 0x0A] @
     ''export AWS_DEFAULT_REGION='' @ quoted region @ [CHR 0x0A] @
     ''export AWS_ACCOUNT_ID='' @ quoted accountID"

definition cli_vars :: "'s manager \<Rightarrow> string" where
  "cli_vars qm = buildCLIEnvVars (buildEndpointURL (qm_nodeAddress qm)) (qm_region qm) (qm_accountID qm)"

definition buildAttrPairs :: "queue_attributes \<Rightarrow> string gomap" where
  "buildAttrPairs a =
     map (\<lambda>n. (n, case map_of (AllAttributes a) n of None \<Rightarrow> [] | Some v \<Rightarrow> v))
       [''VisibilityTimeout'', ''MaximumMessageSize'', ''MessageRetentionPeriod'', ''DelaySeconds'',
        ''ReceiveMessageWaitTimeSeconds'', ''FifoQueue'', ''ContentBasedDeduplication'', ''QueueArn'',
        ''RedrivePolicy'', ''SqsManagedSseEnabled'']"

definition page :: "string \<Rightarrow> page_data" where
  "page title =
     \<lparr> pd_Title = title, pd_Queues = [], pd_Error = [], pd_Success = [], pd_MetricsEnabled = False, pd_Metrics = None,
       pd_Credentials = [], pd_CreatedCred = None, pd_CLIEnvVars = [] \<rparr>"

definition no_detail :: queue_detail where
  "no_detail =
     \<lparr> qd_Title = [], qd_Name = [], qd_IsFifo = False, qd_URL = [], qd_ARN = [], qd_Attrs = [], qd_Tags = [],
       qd_Available = 0, qd_InFlight = 0, qd_Delayed = 0, qd_Messages = [], qd_Error = [], qd_Success = [],
       qd_MetricsEnabled = False, qd_EndpointURL = [], qd_Region = [], qd_AccountID = [], qd_CLIEnvVars = [],
       qd_CLISendCommand = [], qd_CLIRecvCommand = [] \<rparr>"

text \<open>\<open>renderTemplate\<close> puts in whether there is a metrics tab.\<close>

definition renderTemplate :: "('s, 'c) ui_env \<Rightarrow> string \<Rightarrow> page_data \<Rightarrow> ui_reply" where
  "renderTemplate U name d = Page name (d\<lparr> pd_MetricsEnabled := ue_metricsEnabled U \<rparr>)"

definition renderQueue :: "('s, 'c) ui_env \<Rightarrow> queue_detail \<Rightarrow> ui_reply" where
  "renderQueue U d = QueuePage ''queue.html'' (d\<lparr> qd_MetricsEnabled := ue_metricsEnabled U \<rparr>)"

definition writeJSON :: "json \<Rightarrow> ui_reply" where
  "writeJSON v = JSONReply 200 (html_escaped (jsonMarshal v) @ [CHR 0x0A])"

definition writeJSONError :: "string \<Rightarrow> int \<Rightarrow> ui_reply" where
  "writeJSONError msg code =
     JSONReply code (html_escaped (jsonMarshal (JObject [(''error'', JString msg)])) @ [CHR 0x0A])"

definition not_found :: ui_reply where
  "not_found = HTTPError 404 ''404 page not found''"

definition method_not_allowed :: ui_reply where
  "method_not_allowed = HTTPError 405 ''Method not allowed''"

definition queue_path :: "string \<Rightarrow> string" where
  "queue_path queueName = ''/queues/'' @ PathEscape queueName"

subsection \<open>Pages and forms about queues\<close>

text \<open>The flash messages a redirect leaves in the query.\<close>

definition ui_query :: "request \<Rightarrow> string \<Rightarrow> string" where
  "ui_query r name = values_get (url_query r) name"

text \<open>\<open>list_items\<close> reads the clock three times for each queue.\<close>

definition list_items :: "('s, 'c) ui_env \<Rightarrow> ui_draws \<Rightarrow> 's manager \<Rightarrow> queue_item list" where
  "list_items U d qm =
     map (\<lambda>(k, q). newQueueListItem (hd_ops (ue_handlers U)) (dr_store_now (ud_draws d) k) qm q)
       (enumerate 0 (ListQueues [] qm))"

definition handleIndex :: "('s, 'c) ui_env \<Rightarrow> ('s, 'c) ui_handler" where
  "handleIndex U d r st =
     (let qm = hs_manager (us_server st) in
      if rq_Method r \<noteq> ''GET'' then (method_not_allowed, st)
      else if rq_Path r \<noteq> ''/'' then (not_found, st)
      else (renderTemplate U ''index.html'' ((page ''Queues'')\<lparr> pd_Queues := list_items U d qm, pd_CLIEnvVars := cli_vars qm,
              pd_Error := ui_query r ''error'', pd_Success := ui_query r ''success'' \<rparr>), st))"

definition handleCreateQueueForm :: "('s, 'c) ui_env \<Rightarrow> ('s, 'c) ui_handler" where
  "handleCreateQueueForm U d r st =
     (if rq_Method r \<noteq> ''GET'' then (method_not_allowed, st)
      else (renderTemplate U ''create_queue.html''
              ((page ''Create Queue'')\<lparr> pd_CLIEnvVars := cli_vars (hs_manager (us_server st)) \<rparr>), st))"

definition isValidQueueName :: "string \<Rightarrow> bool" where
  "isValidQueueName name = list_all (\<lambda>c. url_alnum c \<or> c = CHR ''-'' \<or> c = CHR ''_'' \<or> c = CHR ''.'') name"

text \<open>A number of a form: one that cannot be read leaves what there was.\<close>

definition form_int :: "request \<Rightarrow> string \<Rightarrow> int \<Rightarrow> int" where
  "form_int r name old = (case Atoi (FormValue r name) of (n, NumOK) \<Rightarrow> n | _ \<Rightarrow> old)"

definition form_attributes :: "request \<Rightarrow> queue_attributes" where
  "form_attributes r =
     (let a = NewDefaultQueueAttributes in
      a\<lparr> qa_FifoQueue := qa_FifoQueue a \<or> FormValue r ''fifoQueue'' = ''on'',
         qa_ContentBasedDeduplication :=
           (qa_ContentBasedDeduplication a \<or> FormValue r ''contentBasedDeduplication'' = ''on''),
         qa_VisibilityTimeout := form_int r ''visibilityTimeout'' (qa_VisibilityTimeout a),
         qa_DelaySeconds := form_int r ''delaySeconds'' (qa_DelaySeconds a),
         qa_ReceiveMessageWaitTimeSeconds := form_int r ''receiveMessageWaitTimeSeconds'' (qa_ReceiveMessageWaitTimeSeconds a) \<rparr>)"

definition form_policy :: "request \<Rightarrow> unit + string" where
  "form_policy r =
     (if FormValue r ''dlqArn'' = [] then Inr []
      else
        case Atoi (FormValue r ''maxReceiveCount'') of
          (n, NumOK) \<Rightarrow>
            if n < 1 then Inl ()
            else Inr (html_escaped (jsonMarshal (JObject
              [(''deadLetterTargetArn'', JString (FormValue r ''dlqArn'')), (''maxReceiveCount'', JNumber n)])))
        | _ \<Rightarrow> Inl ())"

definition new_queue_error :: "string \<Rightarrow> ui_reply" where
  "new_queue_error msg = Redirect (''/queues/new?error='' @ msg)"

definition ui_handleCreateQueue :: "('s, 'c) ui_env \<Rightarrow> ('s, 'c) ui_handler" where
  "ui_handleCreateQueue U d r st =
     (let queueName = FormValue r ''queueName''; H = ue_handlers U; srv = us_server st in
      if rq_Method r \<noteq> ''POST'' then (method_not_allowed, st)
      else if snd (ParseForm r) \<noteq> None then (new_queue_error ''Invalid+form+data'', st)
      else if queueName = [] then (new_queue_error ''Queue+name+is+required'', st)
      else if \<not> isValidQueueName queueName then
        (new_queue_error ''Queue+name+can+only+contain+alphanumeric+characters,+hyphens,+and+underscores'', st)
      else if FormValue r ''fifoQueue'' = ''on'' \<and> \<not> HasSuffix queueName ''.fifo'' then
        (new_queue_error ''FIFO+queue+names+must+end+with+.fifo'', st)
      else
        case form_policy r of
          Inl _ \<Rightarrow> (new_queue_error ''Invalid+maxReceiveCount'', st)
        | Inr policy \<Rightarrow>
            (case CreateQueue (hd_policy H) (hd_factory H) queueName
                (Some ((form_attributes r)\<lparr> qa_RedrivePolicy :=
                   (if policy = [] then qa_RedrivePolicy NewDefaultQueueAttributes else policy) \<rparr>)) (hs_manager srv) of
               (Inl err, qm) \<Rightarrow> (new_queue_error ''Failed+to+create+queue'', st\<lparr> us_server := srv\<lparr> hs_manager := qm \<rparr> \<rparr>)
             | (Inr q, qm) \<Rightarrow>
                 (Redirect (queue_path queueName @ ''?success=Queue+created''),
                  st\<lparr> us_server := srv\<lparr> hs_manager := qm \<rparr> \<rparr>)))"

text \<open>The look at the messages: a receive with the visibility timeout 0, which is written as a peek.\<close>

definition peek :: "'s handler_env \<Rightarrow> draws \<Rightarrow> 's queue \<Rightarrow> 's handler_state \<Rightarrow> message list \<times> 's handler_state" where
  "peek H d q st =
     (let (result, redriven, s') = hd_receive H (dr_store_now d 0) (dr_nonces d) 10 0 0 (q_store q);
          st1 = put_queue (q\<lparr> q_store := s' \<rparr>) st;
          st2 = st1\<lparr> hs_manager := redrive_all H (dr_store_now d 1) (hd_dlq H s') redriven (hs_manager st1) \<rparr>
      in (case result of Inl err \<Rightarrow> [] | Inr msgs \<Rightarrow> msgs, st2))"

definition current :: "'s queue \<Rightarrow> 's handler_state \<Rightarrow> 's queue" where
  "current q st = (case LookupQueue (q_name q) (hs_manager st) of Inl err \<Rightarrow> q | Inr q' \<Rightarrow> q')"

definition cli_send :: "string \<Rightarrow> string" where
  "cli_send u = ''aws sqs send-message --queue-url '' @ quoted u @ '' --message-body '' @ quoted ''hello''"

definition cli_receive :: "string \<Rightarrow> string" where
  "cli_receive u = ''aws sqs receive-message --queue-url '' @ quoted u"

text \<open>The counts are taken after the messages are received, from the same queue.\<close>

definition detail :: "('s, 'c) ui_env \<Rightarrow> clock \<Rightarrow> 's manager \<Rightarrow> 's queue \<Rightarrow> message list \<Rightarrow> queue_detail" where
  "detail U now qm q msgs =
     (let item = newQueueListItem (hd_ops (ue_handlers U)) now qm q in
      no_detail\<lparr> qd_Title := ''Queue: '' @ q_name q, qd_Name := q_name q, qd_IsFifo := IsFifo q, qd_URL := qi_URL item,
        qd_ARN := Queue_ARN (qm_region qm) (qm_accountID qm) q, qd_Attrs := buildAttrPairs (q_attributes q),
        qd_Tags := q_tags q, qd_Available := qi_Available item, qd_InFlight := qi_InFlight item,
        qd_Delayed := qi_Delayed item, qd_Messages := map newMessageDisplay msgs,
        qd_EndpointURL := buildEndpointURL (qm_nodeAddress qm), qd_Region := qm_region qm,
        qd_AccountID := qm_accountID qm, qd_CLIEnvVars := cli_vars qm,
        qd_CLISendCommand := cli_send (qi_URL item), qd_CLIRecvCommand := cli_receive (qi_URL item) \<rparr>)"

definition handleQueueDetail :: "('s, 'c) ui_env \<Rightarrow> string \<Rightarrow> ('s, 'c) ui_handler" where
  "handleQueueDetail U queueName d r st =
     (case LookupQueue queueName (hs_manager (us_server st)) of
        Inl err \<Rightarrow>
          (renderQueue U (no_detail\<lparr> qd_Title := ''Queue'', qd_Name := queueName,
             qd_Error := ''Queue not found: '' @ queueName, qd_CLIEnvVars := cli_vars (hs_manager (us_server st)) \<rparr>), st)
      | Inr q \<Rightarrow>
          let (msgs, srv) = peek (ue_handlers U) (ud_draws d) q (us_server st) in
          (renderQueue U ((detail U (dr_store_now (ud_draws d) 2) (hs_manager srv) (current q srv) msgs)
             \<lparr> qd_Error := ui_query r ''error'', qd_Success := ui_query r ''success'' \<rparr>),
           st\<lparr> us_server := srv \<rparr>))"

definition ui_handleDeleteQueue :: "('s, 'c) ui_env \<Rightarrow> string \<Rightarrow> ('s, 'c) ui_handler" where
  "ui_handleDeleteQueue U queueName d r st =
     (if rq_Method r \<noteq> ''POST'' then (method_not_allowed, st)
      else
        case DeleteQueue (hd_ops (ue_handlers U)) queueName (hs_manager (us_server st)) of
          (err, qm) \<Rightarrow>
            (Redirect (if err = None then ''/?success=Queue+deleted'' else ''/?error=Failed+to+delete+queue''),
             st\<lparr> us_server := (us_server st)\<lparr> hs_manager := qm \<rparr> \<rparr>))"

text \<open>A form about a queue that may not exist; \<open>to_queue\<close> is the page of the queue with a flash message.\<close>

definition on_named_queue ::
  "string \<Rightarrow> ('s, 'c) ui_state \<Rightarrow> ('s queue \<Rightarrow> ui_reply \<times> ('s, 'c) ui_state) \<Rightarrow> ui_reply \<times> ('s, 'c) ui_state" where
  "on_named_queue queueName st k =
     (case LookupQueue queueName (hs_manager (us_server st)) of
        Inl err \<Rightarrow> (Redirect ''/?error=Queue+not+found'', st)
      | Inr q \<Rightarrow> k q)"

definition with_store :: "'s queue \<Rightarrow> 's \<Rightarrow> ('s, 'c) ui_state \<Rightarrow> ('s, 'c) ui_state" where
  "with_store q s st = st\<lparr> us_server := put_queue (q\<lparr> q_store := s \<rparr>) (us_server st) \<rparr>"

definition to_queue :: "string \<Rightarrow> string \<Rightarrow> ui_reply" where
  "to_queue queueName flash = Redirect (queue_path queueName @ ''?'' @ flash)"

definition ui_handlePurgeQueue :: "('s, 'c) ui_env \<Rightarrow> string \<Rightarrow> ('s, 'c) ui_handler" where
  "ui_handlePurgeQueue U queueName d r st =
     (if rq_Method r \<noteq> ''POST'' then (method_not_allowed, st)
      else on_named_queue queueName st (\<lambda>q.
        case op_Purge (hd_ops (ue_handlers U)) (q_store q) of
          (Some err, s') \<Rightarrow> (to_queue queueName ''error=Failed+to+purge'', with_store q s' st)
        | (None, s') \<Rightarrow> (to_queue queueName ''success=Queue+purged'', with_store q s' st)))"

text \<open>The delay of the form: none is 0; \<open>None\<close> when it is no number or out of bounds.\<close>

definition form_delay :: "request \<Rightarrow> int option" where
  "form_delay r =
     (let t = FormValue r ''delaySeconds'' in
      if t = [] then Some 0
      else case Atoi t of (v, NumOK) \<Rightarrow> if v < 0 \<or> MaxDelaySeconds < v then None else Some v | _ \<Rightarrow> None)"

definition form_message :: "'s handler_env \<Rightarrow> draws \<Rightarrow> 's queue \<Rightarrow> request \<Rightarrow> message" where
  "form_message H d q r =
     (let body = FormValue r ''body'' in
      zero_message\<lparr> MessageID := dr_message_id d 0, Body := body, MD5OfBody := computeMD5 (hd_md5 H) body,
        MessageGroupID := (if IsFifo q then FormValue r ''messageGroupId'' else []),
        MessageDeduplicationID := (if IsFifo q then FormValue r ''messageDeduplicationId'' else []) \<rparr>)"

definition ui_handleSendMessage :: "('s, 'c) ui_env \<Rightarrow> string \<Rightarrow> ('s, 'c) ui_handler" where
  "ui_handleSendMessage U queueName d r st =
     (if rq_Method r \<noteq> ''POST'' then (method_not_allowed, st)
      else if snd (ParseForm r) \<noteq> None then (to_queue queueName ''error=Invalid+form+data'', st)
      else on_named_queue queueName st (\<lambda>q.
        if FormValue r ''body'' = [] then (to_queue queueName ''error=Message+body+is+required'', st)
        else
          case form_delay r of
            None \<Rightarrow> (to_queue queueName ''error=Invalid+delay+seconds'', st)
          | Some delaySeconds \<Rightarrow>
              (case op_SendMessage (hd_ops (ue_handlers U)) (dr_store_now (ud_draws d) 0)
                  (form_message (ue_handlers U) (ud_draws d) q r) delaySeconds (q_store q) of
                 (Some err, msg, s') \<Rightarrow> (to_queue queueName ''error=Failed+to+send+message'', with_store q s' st)
               | (None, msg, s') \<Rightarrow> (to_queue queueName ''success=Message+sent'', with_store q s' st))))"

definition ui_handleDeleteMessage :: "('s, 'c) ui_env \<Rightarrow> string \<Rightarrow> string \<Rightarrow> ('s, 'c) ui_handler" where
  "ui_handleDeleteMessage U queueName receiptHandle d r st =
     (if rq_Method r \<noteq> ''POST'' then (method_not_allowed, st)
      else on_named_queue queueName st (\<lambda>q.
        case op_DeleteMessage (hd_ops (ue_handlers U)) receiptHandle (q_store q) of
          (Some err, s') \<Rightarrow> (to_queue queueName ''error=Failed+to+delete+message'', with_store q s' st)
        | (None, s') \<Rightarrow> (to_queue queueName ''success=Message+deleted'', with_store q s' st)))"

definition handleQueueRoutes :: "('s, 'c) ui_env \<Rightarrow> ('s, 'c) ui_handler" where
  "handleQueueRoutes U d r st =
     (let parts = Split (CHR ''/'') (TrimPrefix (rq_Path r) ''/queues/''); post = (rq_Method r = ''POST'') in
      if parts = [] \<or> hd parts = [] then (Redirect ''/'', st)
      else
        case PathUnescape (hd parts) of
          Inl err \<Rightarrow> (HTTPError 400 ''Invalid queue name encoding'', st)
        | Inr queueName \<Rightarrow>
            if tl parts = [''delete''] \<and> post then ui_handleDeleteQueue U queueName d r st
            else if tl parts = [''purge''] \<and> post then ui_handlePurgeQueue U queueName d r st
            else if tl parts = [''messages''] \<and> post then ui_handleSendMessage U queueName d r st
            else if length parts = 4 \<and> parts ! 1 = ''messages'' \<and> parts ! 3 = ''delete'' \<and> post then
              (case PathUnescape (parts ! 2) of
                 Inl err \<Rightarrow> (HTTPError 400 ''Invalid receipt handle encoding'', st)
               | Inr receiptHandle \<Rightarrow> ui_handleDeleteMessage U queueName receiptHandle d r st)
            else if tl parts = [] \<and> rq_Method r = ''GET'' then handleQueueDetail U queueName d r st
            else (not_found, st))"

subsection \<open>Credentials\<close>

definition list_credentials :: "('s, 'c) ui_env \<Rightarrow> 'c \<Rightarrow> credential_display list" where
  "list_credentials U c =
     (case co_List (ue_creds U) c of Inl err \<Rightarrow> [] | Inr cs \<Rightarrow> map (\<lambda>x. newCredentialDisplay x False) cs)"

definition handleCredentials :: "('s, 'c) ui_env \<Rightarrow> ('s, 'c) ui_handler" where
  "handleCredentials U d r st =
     (if rq_Method r \<noteq> ''GET'' then (method_not_allowed, st)
      else (renderTemplate U ''credentials.html''
              ((page ''Credentials'')\<lparr> pd_Credentials := list_credentials U (us_creds st),
                 pd_Error := ui_query r ''error'', pd_Success := ui_query r ''success'' \<rparr>), st))"

definition created_text :: string where
  "created_text = ''Credential created. Copy your secret key now '' @ [CHR 0xE2, CHR 0x80, CHR 0x94] @
     '' it won'' @ [CHR 0x27] @ ''t be shown again.''"

definition handleCreateCredential :: "('s, 'c) ui_env \<Rightarrow> ('s, 'c) ui_handler" where
  "handleCreateCredential U d r st =
     (let qm = hs_manager (us_server st) in
      if rq_Method r \<noteq> ''POST'' then (method_not_allowed, st)
      else if snd (ParseForm r) \<noteq> None then (Redirect ''/credentials?error=Invalid+form+data'', st)
      else
        case co_Create (ue_creds U) (ud_entropy d) (ud_created d) (FormValue r ''label'')
            (dflt (FormValue r ''region'') (qm_region qm)) (dflt (FormValue r ''accountId'') (qm_accountID qm)) (us_creds st) of
          (Inl err, c) \<Rightarrow> (Redirect ''/credentials?error=Failed+to+create+credential'', st\<lparr> us_creds := c \<rparr>)
        | (Inr cred, c) \<Rightarrow>
            (renderTemplate U ''credentials.html''
               ((page ''Credentials'')\<lparr> pd_Credentials := list_credentials U c, pd_Success := created_text,
                  pd_CreatedCred := Some (newCredentialDisplay cred True) \<rparr>),
             st\<lparr> us_creds := c \<rparr>))"

definition handleCredentialRoutes :: "('s, 'c) ui_env \<Rightarrow> ('s, 'c) ui_handler" where
  "handleCredentialRoutes U d r st =
     (let parts = Split (CHR ''/'') (TrimPrefix (rq_Path r) ''/credentials/'') in
      if parts = [] \<or> hd parts = [] then (Redirect ''/credentials'', st)
      else if tl parts = [''delete''] \<and> rq_Method r = ''POST'' then
        (case co_Delete (ue_creds U) (hd parts) (us_creds st) of
           (err, c) \<Rightarrow>
             (Redirect (if err = None then ''/credentials?success=Credential+deleted''
                        else ''/credentials?error=Failed+to+delete+credential''),
              st\<lparr> us_creds := c \<rparr>))
      else (not_found, st))"

subsection \<open>The JSON interface\<close>

text \<open>A struct without tags: the names of its fields.\<close>

definition item_json :: "queue_item \<Rightarrow> json" where
  "item_json i = JObject
     [(''Name'', JString (qi_Name i)), (''IsFifo'', JBool (qi_IsFifo i)), (''Available'', JNumber (qi_Available i)),
      (''InFlight'', JNumber (qi_InFlight i)), (''Delayed'', JNumber (qi_Delayed i)), (''URL'', JString (qi_URL i))]"

definition message_json :: "message_display \<Rightarrow> json" where
  "message_json m = JObject
     [(''MessageID'', JString (md_MessageID m)), (''ReceiptHandle'', JString (md_ReceiptHandle m)),
      (''Body'', JString (md_Body m)), (''ReceiveCount'', JNumber (md_ReceiveCount m)),
      (''SentTimestamp'', JString (md_SentTimestamp m))]"

definition credential_json :: "credential_display \<Rightarrow> json" where
  "credential_json c = JObject
     [(''ID'', JString (cd_ID c)), (''Label'', JString (cd_Label c)), (''AccessKeyID'', JString (cd_AccessKeyID c)),
      (''SecretAccessKey'', JString (cd_SecretAccessKey c)), (''Region'', JString (cd_Region c)),
      (''AccountID'', JString (cd_AccountID c)), (''CreatedAt'', JString (cd_CreatedAt c)),
      (''ExportCommands'', JString (cd_ExportCommands c))]"

definition handleAPIQueues :: "('s, 'c) ui_env \<Rightarrow> ('s, 'c) ui_handler" where
  "handleAPIQueues U d r st = (writeJSON (JArray (map item_json (list_items U d (hs_manager (us_server st))))), st)"

definition handleAPIQueueMessages :: "('s, 'c) ui_env \<Rightarrow> ('s, 'c) ui_handler" where
  "handleAPIQueueMessages U d r st =
     (let parts = Split (CHR ''/'') (TrimPrefix (rq_Path r) ''/api/queues/''); qm = hs_manager (us_server st) in
      if parts = [] \<or> hd parts = [] then (writeJSONError ''queue name required'' 400, st)
      else
        case PathUnescape (hd parts) of
          Inl err \<Rightarrow> (writeJSONError ''invalid queue name encoding'' 400, st)
        | Inr queueName \<Rightarrow>
            (case LookupQueue queueName qm of
               Inl err \<Rightarrow> (writeJSONError ''queue not found'' 404, st)
             | Inr q \<Rightarrow>
                 if tl parts = [''messages''] then
                   (let (msgs, srv) = peek (ue_handlers U) (ud_draws d) q (us_server st) in
                    (writeJSON (JArray (map (\<lambda>m. message_json (newMessageDisplay m)) msgs)), st\<lparr> us_server := srv \<rparr>))
                 else
                   (writeJSON (item_json (newQueueListItem (hd_ops (ue_handlers U)) (dr_store_now (ud_draws d) 0) qm q)), st)))"

definition handleAPICredentials :: "('s, 'c) ui_env \<Rightarrow> ('s, 'c) ui_handler" where
  "handleAPICredentials U d r st =
     (case co_List (ue_creds U) (us_creds st) of
        Inl err \<Rightarrow> (writeJSONError ''failed to list credentials'' 500, st)
      | Inr cs \<Rightarrow> (writeJSON (JArray (map (\<lambda>c. credential_json (newCredentialDisplay c False)) cs)), st))"

subsection \<open>Metrics\<close>

definition label_value :: "string gomap \<Rightarrow> string \<Rightarrow> string" where
  "label_value labels name = (case map_of labels name of None \<Rightarrow> [] | Some v \<Rightarrow> v)"

definition no_metrics :: metrics_data where
  "no_metrics =
     \<lparr> mx_APIRequests = [], mx_QueueSizes = [], mx_MessagesSent = [], mx_MessagesReceived = [], mx_MessagesDeleted = [],
       mx_MoveTaskMessages = [], mx_MoveTaskActive = 0, mx_Raw = [] \<rparr>"

text \<open>A metric is its labels and its value, cut to an integer; the last of two equal labels counts.\<close>

definition add_metric :: "string \<Rightarrow> string gomap \<times> int \<Rightarrow> metrics_data \<Rightarrow> metrics_data" where
  "add_metric name m md =
     (let l = label_value (rev (fst m)); v = snd m in
      if name = ''opensqs_api_requests_total'' then
        md\<lparr> mx_APIRequests := mx_APIRequests md @ [(l ''action'', l ''protocol'', v)] \<rparr>
      else if name = ''opensqs_queue_size'' then
        md\<lparr> mx_QueueSizes := mx_QueueSizes md @ [(l ''queue'', l ''type'', v)] \<rparr>
      else if name = ''opensqs_messages_sent_total'' then
        md\<lparr> mx_MessagesSent := mx_MessagesSent md @ [(l ''queue'', v)] \<rparr>
      else if name = ''opensqs_messages_received_total'' then
        md\<lparr> mx_MessagesReceived := mx_MessagesReceived md @ [(l ''queue'', v)] \<rparr>
      else if name = ''opensqs_messages_deleted_total'' then
        md\<lparr> mx_MessagesDeleted := mx_MessagesDeleted md @ [(l ''queue'', v)] \<rparr>
      else if name = ''opensqs_move_task_messages_moved_total'' then
        md\<lparr> mx_MoveTaskMessages := mx_MoveTaskMessages md @ [(l ''source_arn'', l ''destination_arn'', v)] \<rparr>
      else if name = ''opensqs_move_task_active'' then md\<lparr> mx_MoveTaskActive := v \<rparr>
      else md)"

definition gatherRaw :: "metric_family list \<Rightarrow> string" where
  "gatherRaw mfs = concat (map (\<lambda>mf. mf_text mf @ [CHR 0x0A]) mfs)"

definition collectMetrics :: "('s, 'c) ui_env \<Rightarrow> metrics_data" where
  "collectMetrics U =
     (case ue_gather U of
        Inl err \<Rightarrow> no_metrics\<lparr> mx_Raw := ''Error gathering metrics: '' @ err \<rparr>
      | Inr mfs \<Rightarrow> (fold (\<lambda>mf. fold (add_metric (mf_name mf)) (mf_metrics mf)) mfs no_metrics)\<lparr> mx_Raw := gatherRaw mfs \<rparr>)"

definition handleMetrics :: "('s, 'c) ui_env \<Rightarrow> ('s, 'c) ui_handler" where
  "handleMetrics U d r st =
     (if rq_Method r \<noteq> ''GET'' then (method_not_allowed, st)
      else if \<not> ue_metricsEnabled U then (not_found, st)
      else (renderTemplate U ''metrics.html'' ((page ''Metrics'')\<lparr> pd_Metrics := Some (collectMetrics U),
              pd_CLIEnvVars := cli_vars (hs_manager (us_server st)) \<rparr>), st))"

text \<open>The lists of a gathering that failed are nil, which is written \<open>null\<close>.\<close>

definition rows_json :: "bool \<Rightarrow> ('a \<Rightarrow> json) \<Rightarrow> 'a list \<Rightarrow> json" where
  "rows_json gathered row xs = (if gathered then JArray (map row xs) else JNull)"

definition count_row :: "string \<times> int \<Rightarrow> json" where
  "count_row = (\<lambda>(q, n). JObject [(''Queue'', JString q), (''Count'', JNumber n)])"

definition metrics_json :: "bool \<Rightarrow> metrics_data \<Rightarrow> json" where
  "metrics_json gathered md = JObject
     [(''APIRequests'', rows_json gathered (\<lambda>(a, p, n). JObject [(''Action'', JString a), (''Protocol'', JString p),
         (''Count'', JNumber n)]) (mx_APIRequests md)),
      (''QueueSizes'', rows_json gathered (\<lambda>(q, t, n). JObject [(''Queue'', JString q), (''Type'', JString t),
         (''Size'', JNumber n)]) (mx_QueueSizes md)),
      (''MessagesSent'', rows_json gathered count_row (mx_MessagesSent md)),
      (''MessagesReceived'', rows_json gathered count_row (mx_MessagesReceived md)),
      (''MessagesDeleted'', rows_json gathered count_row (mx_MessagesDeleted md)),
      (''MoveTaskMessages'', rows_json gathered (\<lambda>(s, t, n). JObject [(''SourceARN'', JString s),
         (''DestinationARN'', JString t), (''Count'', JNumber n)]) (mx_MoveTaskMessages md)),
      (''MoveTaskActive'', JNumber (mx_MoveTaskActive md)), (''Raw'', JString (mx_Raw md))]"

definition handleAPIMetrics :: "('s, 'c) ui_env \<Rightarrow> ('s, 'c) ui_handler" where
  "handleAPIMetrics U d r st =
     (if \<not> ue_metricsEnabled U then (writeJSONError ''metrics not enabled'' 404, st)
      else (writeJSON (metrics_json (\<not> isl (ue_gather U)) (collectMetrics U)), st))"

subsection \<open>Routes and wrappers\<close>

text \<open>
  The patterns of \<open>NewServer\<close>: an exact path first, then the longest of those that end in a slash.
  A path that is not clean, and \<open>/queues\<close> or \<open>/static\<close> without the slash, are redirected, of which
  the model keeps that they are.
\<close>

definition ui_route :: "('s, 'c) ui_env \<Rightarrow> ('s, 'c) ui_handler" where
  "ui_route U d r st =
     (let path = rq_Path r in
      if rq_Method r \<noteq> ''CONNECT'' \<and> \<not> clean_path path then (Moved, st)
      else if path = ''/queues/new'' then handleCreateQueueForm U d r st
      else if path = ''/queues/create'' then ui_handleCreateQueue U d r st
      else if path = ''/credentials'' then handleCredentials U d r st
      else if path = ''/credentials/create'' then handleCreateCredential U d r st
      else if path = ''/metrics'' then handleMetrics U d r st
      else if path = ''/api/queues'' then handleAPIQueues U d r st
      else if path = ''/api/credentials'' then handleAPICredentials U d r st
      else if path = ''/api/metrics'' then handleAPIMetrics U d r st
      else if path \<in> {''/queues'', ''/static''} then (Moved, st)
      else if HasPrefix path ''/queues/'' then handleQueueRoutes U d r st
      else if HasPrefix path ''/credentials/'' then handleCredentialRoutes U d r st
      else if HasPrefix path ''/static/'' then (StaticFile (TrimPrefix path ''/static/''), st)
      else if HasPrefix path ''/api/queues/'' then handleAPIQueueMessages U d r st
      else handleIndex U d r st)"

text \<open>A reply with the headers the wrappers set; \<open>tls\<close> tells whether the connection is encrypted.\<close>

type_synonym ('s, 'c) ui_wrapped = "request \<Rightarrow> ('s, 'c) ui_state \<Rightarrow> (string gomap \<times> ui_reply) \<times> ('s, 'c) ui_state"

definition withSecurityHeaders ::
  "bool \<Rightarrow> (request \<Rightarrow> ('s, 'c) ui_state \<Rightarrow> ui_reply \<times> ('s, 'c) ui_state) \<Rightarrow> ('s, 'c) ui_wrapped" where
  "withSecurityHeaders tls nxt r st =
     (let (reply, st') = nxt r st in
      (([(''X-Content-Type-Options'', ''nosniff''), (''X-Frame-Options'', ''DENY''),
         (''Referrer-Policy'', ''strict-origin-when-cross-origin''),
         (''Content-Security-Policy'', ''default-src 'self'; script-src 'self' 'unsafe-inline'; '' @
            ''style-src 'self' 'unsafe-inline'; img-src 'self' data:;''),
         (''Permissions-Policy'', ''camera=(), microphone=(), geolocation=()'')] @
        (if tls then [(''Strict-Transport-Security'', ''max-age=31536000; includeSubDomains'')] else []), reply), st'))"

definition origin_host :: "string \<Rightarrow> string" where
  "origin_host origin =
     before_first (CHR ''/'')
       (if HasPrefix origin ''http://'' then TrimPrefix origin ''http://''
        else if HasPrefix origin ''https://'' then TrimPrefix origin ''https://'' else origin)"

definition withCSRFProtection :: "('s, 'c) ui_wrapped \<Rightarrow> ('s, 'c) ui_wrapped" where
  "withCSRFProtection nxt r st =
     (if rq_Method r \<in> {''GET'', ''HEAD'', ''OPTIONS''} then nxt r st
      else
        let origin = (if header_get r ''Origin'' = [] then header_get r ''Referer'' else header_get r ''Origin'') in
        if origin = [] then (([], HTTPError 403 ''Forbidden: missing Origin header''), st)
        else if origin_host origin \<noteq> rq_Host r then
          (([], HTTPError 403 ''Forbidden: cross-origin request rejected''), st)
        else nxt r st)"

definition dashboard :: "bool \<Rightarrow> ('s, 'c) ui_env \<Rightarrow> ui_draws \<Rightarrow> ('s, 'c) ui_wrapped" where
  "dashboard tls U d = withCSRFProtection (withSecurityHeaders tls (ui_route U d))"

end
