(* ===== verification/Lifecycle.thy ===== *)
theory Lifecycle
  imports ActionProperties MemoryContract MemoryExamples
begin

section \<open>A message from request to request\<close>

text \<open>
  The handlers over the in-memory store: what a producer sends is what a consumer receives
  and can delete, through the dispatcher and the queue manager.
\<close>

definition memory_handlers :: "env \<Rightarrow> memory_store handler_env \<Rightarrow> bool" where
  "memory_handlers E H \<longleftrightarrow> hd_ops H = memory_ops E \<and>
     (\<forall>now rnd n vt s. hd_receive H now rnd n vt 0 s = (let (r, s') = ReceiveNow E now rnd n vt s in (r, [], s')))"

definition new_cell :: "clock \<Rightarrow> message \<Rightarrow> memoryMessage" where
  "new_cell now m = zero_cell\<lparr> mm_msg := m\<lparr> SentTimestamp := now 3, IsVisible := True \<rparr>, mm_visibleAt := now 2 \<rparr>"

text \<open>An undelayed send to an open standard queue.\<close>

lemma send_standard:
  assumes "\<not> ms_closed s" "\<not> ms_isFifo s"
  shows "\<exists>s'. SendMessage E now m 0 s = (None, m\<lparr> SentTimestamp := now 3, IsVisible := True \<rparr>, s') \<and>
    ms_messages s' = ms_messages s @ [ms_next_cell s] \<and> ms_heap s' (ms_next_cell s) = new_cell now m \<and>
    ms_messageRetentionPeriod s' = ms_messageRetentionPeriod s \<and> \<not> ms_closed s' \<and> \<not> ms_isFifo s'"
  using assms by (simp add: SendMessage_def Let_def grouped_def set_cell_def new_cell_def notifyWaiters_def)

text \<open>A receive of a store whose only message is visible and within retention.\<close>

lemma receive_only:
  assumes "\<not> ms_closed s" "\<not> ms_isFifo s" "ms_messages s = [a]" "ms_heap s a = new_cell now m"
    and "now 2 \<le> t 0" "retention_cutoff (ms_messageRetentionPeriod s) (t 0) \<le> now 3" "1 \<le> n"
  shows "\<exists>s' m'. ReceiveNow E t rnd n vt s = (Inr [m'], s') \<and> m' = delivered E (effective_timeout vt s) (t 0) (rnd 0) s a \<and>
    ms_messages s' = [a] \<and> handle_of s' a = ReceiptHandle m' \<and> \<not> ms_isFifo s'"
proof -
  have live: "\<not> expired (t 0) s a" using assms(4,6) by (simp add: expired_def new_cell_def)
  then have kept: "deleteExpiredMessagesLocked (t 0) s = s"
    using assms(3) by (simp add: deleteExpiredMessagesLocked_def)
  have ready: "receivable (t 0) s a" using assms(2,4,5) by (simp add: receivable_def grouped_def new_cell_def)
  let ?v = "effective_timeout vt s"
  let ?s' = "snd (receiveMessage E ?v (t 0) (rnd 0) a s)"
  have "receive_poll E n ?v (t 0) rnd s = (Inr [fst (receiveMessage E ?v (t 0) (rnd 0) a s)], ?s')"
    using assms(1,3) ready by (simp add: receive_poll_def kept case_prod_unfold Let_def)
  then show ?thesis using assms(2,3)
    by (intro exI [of _ ?s'] exI [of _ "fst (receiveMessage E ?v (t 0) (rnd 0) a s)"])
      (simp add: ReceiveNow_def receiveMessage_eq received_cell_def delivered_def Let_def)
qed

text \<open>The three requests, one by one, at the queue they name.\<close>

definition sent_message :: "memory_store handler_env \<Rightarrow> draws \<Rightarrow> memory_store queue \<Rightarrow> action_request \<Rightarrow> message" where
  "sent_message H d q r = (request_message H d (q_attributes q) r)\<lparr> SentTimestamp := dr_store_now d 0 3, IsVisible := True \<rparr>"

lemma request_send:
  assumes "memory_handlers E H" "resolved r q st" "ar_Action r = ''SendMessage''" "sendable (hd_mode H) (q_attributes q) r"
    and "ar_DelaySeconds r = 0" "\<not> ms_closed (q_store q)" "\<not> ms_isFifo (q_store q)" "ms_messages (q_store q) = []"
  shows "\<exists>s'. HandleRequest H d r st = (Inr ((respond ''SendMessage'' (dr_request_id d))
        \<lparr> rp_Message := Some (sent_message H d q r) \<rparr>), put_queue (q\<lparr> q_store := s' \<rparr>) st) \<and>
    ms_messages s' = [ms_next_cell (q_store q)] \<and>
    ms_heap s' (ms_next_cell (q_store q)) = new_cell (dr_store_now d 0) (request_message H d (q_attributes q) r) \<and>
    ms_messageRetentionPeriod s' = ms_messageRetentionPeriod (q_store q) \<and> \<not> ms_closed s' \<and> \<not> ms_isFifo s'"
proof -
  let ?m = "request_message H d (q_attributes q) r"
  have ops: "hd_ops H = memory_ops E" using assms(1) by (simp add: memory_handlers_def)
  obtain s' where s': "SendMessage E (dr_store_now d 0) ?m 0 (q_store q) = (None, sent_message H d q r, s')"
      "ms_messages s' = [ms_next_cell (q_store q)]" "ms_heap s' (ms_next_cell (q_store q)) = new_cell (dr_store_now d 0) ?m"
      "ms_messageRetentionPeriod s' = ms_messageRetentionPeriod (q_store q)" "\<not> ms_closed s'" "\<not> ms_isFifo s'"
    using send_standard [OF assms(6,7), of E "dr_store_now d 0" ?m] assms(8) by (auto simp: sent_message_def)
  have "send_check (hd_mode H) (q_attributes q) r = None"
    using send_check_decides [of "hd_mode H" "q_attributes q" r] assms(4) by (auto split: option.splits)
  then show ?thesis using assms(3,5) send_form [OF assms(2), of H d] s'
    by (intro exI [of _ s']) (simp add: HandleRequest_def store_send_def ops memory_ops_def)
qed

definition shown_message :: "action_request \<Rightarrow> message \<Rightarrow> message" where
  "shown_message r m = m\<lparr> Attributes := filter_names (ar_AttributeNames r) (Attributes m),
     MessageAttributes := filter_names (ar_MessageAttributeNames r) (MessageAttributes m) \<rparr>"

lemma request_receive:
  assumes "memory_handlers E H" "resolved r q st" "ar_Action r = ''ReceiveMessage''" "ar_MaxNumberOfMessages r \<in> {1..10}"
    and "ar_VisibilityTimeout r \<in> {0..43200}" "ar_WaitTimeSeconds r = 0"
    and "ReceiveNow E (dr_store_now d 0) (dr_nonces d) (ar_MaxNumberOfMessages r) (ar_VisibilityTimeout r) (q_store q) =
      (Inr msgs, s')"
  shows "HandleRequest H d r st = (Inr ((respond ''ReceiveMessage'' (dr_request_id d))
      \<lparr> rp_Messages := map (shown_message r) msgs \<rparr>), put_queue (q\<lparr> q_store := s' \<rparr>) st)"
proof -
  have "hd_receive H (dr_store_now d 0) (dr_nonces d) (ar_MaxNumberOfMessages r) (ar_VisibilityTimeout r) 0 (q_store q) =
      (Inr msgs, [], s')" using assms(1,7) by (simp add: memory_handlers_def)
  moreover have "redrive_all H now arn [] qm = qm" for now arn qm by (simp add: redrive_all_def split: option.splits)
  ultimately show ?thesis using assms(3-6)
    by (simp add: HandleRequest_def handleReceiveMessage_def resolved_on_queue [OF assms(2)] Let_def shown_message_def
        VerifyMaxNumberOfMessages_def VerifyVisibilityTimeout_def VerifyReceiveMessageWaitTime_def limit_defs)
qed

lemma request_delete:
  assumes "memory_handlers E H" "resolved r q st" "ar_Action r = ''DeleteMessage''" "ar_ReceiptHandle r \<noteq> []"
    and "ms_messages (q_store q) = [a]" "handle_of (q_store q) a = ar_ReceiptHandle r"
  shows "\<exists>q' st'. HandleRequest H d r st = (Inr (respond ''DeleteMessage'' (dr_request_id d)), st') \<and>
    LookupQueue (named r) (hs_manager st') = Inr q' \<and> ms_messages (q_store q') = []"
proof -
  have "find_handle (ar_ReceiptHandle r) (q_store q) = Some a" using assms(4-6) by (simp add: find_handle_def)
  then have "DeleteMessage (ar_ReceiptHandle r) (q_store q) = (None, notifyWaiters (removeMessage a (q_store q)))"
    by (simp add: DeleteMessage_def)
  moreover have "ms_messages (notifyWaiters (removeMessage a (q_store q))) = []"
    using assms(5) by (simp add: notifyWaiters_def removeMessage_simps)
  ultimately show ?thesis using assms(1-4)
    by (simp add: resolved_on_queue [OF assms(2)] HandleRequest_def handleDeleteMessage_def memory_handlers_def memory_ops_def
        put_queue_def LookupQueue_update resolved_def)
qed


definition sample_memory_handlers :: "memory_store handler_env" where
  "sample_memory_handlers = \<lparr> hd_ops = memory_ops sample_env,
     hd_receive = (\<lambda>now rnd n vt wait s. let (r, s') = ReceiveNow sample_env now rnd n vt s in (r, [], s')),
     hd_dlq = ms_redriveFunc, hd_factory = (\<lambda>name vt secret cfg. Inr (NewMemoryStore name vt secret cfg)),
     hd_policy = (\<lambda>s. None), hd_md5 = (\<lambda>s. s), hd_mode = StrictMode, hd_autoCreate = False \<rparr>"

definition sample_jobs :: "memory_store queue" where
  "sample_jobs = NewQueue ''jobs'' None (NewMemoryStore ''jobs'' 30 ''s'' (sample_cfg False 0))"

definition sample_memory_server :: "memory_store handler_state" where
  "sample_memory_server = \<lparr> hs_manager = (NewQueueManager ''h'' ''a'' ''r'' ''s'')\<lparr> qm_queues := [(''jobs'', sample_jobs)] \<rparr>,
     hs_tasks = [] \<rparr>"


end
