(* ===== verification/DashboardProperties.thy ===== *)
theory DashboardProperties
  imports Dashboard Lifecycle CredentialProperties
begin

section \<open>What the dashboard can and cannot do\<close>

text \<open>
  What a request from another site can change, that no reply depends on a stored secret, and
  what looking at a queue of the in-memory store does to its messages.
\<close>

subsection \<open>Requests from other sites\<close>

text \<open>What a registry says of its queues beside the messages in their stores.\<close>

definition queue_info :: "'s queue \<Rightarrow> string \<times> queue_attributes \<times> string gomap \<times> time" where
  "queue_info q = (q_name q, q_attributes q, q_tags q, q_lastPurgedAt q)"

definition same_queues :: "'s manager \<Rightarrow> 's manager \<Rightarrow> bool" where
  "same_queues qm qm' \<longleftrightarrow>
     (\<forall>n. map_option queue_info (map_of (qm_queues qm') n) = map_option queue_info (map_of (qm_queues qm) n))"

lemma same_refl [simp]: "same_queues qm qm"
  by (simp add: same_queues_def)

lemma same_trans: "same_queues qm qm1 \<Longrightarrow> same_queues qm1 qm2 \<Longrightarrow> same_queues qm qm2"
  by (simp add: same_queues_def)

lemma same_update:
  "map_of (qm_queues qm) n = Some q \<Longrightarrow> same_queues qm (qm\<lparr> qm_queues := AList.update n (q\<lparr> q_store := s \<rparr>) (qm_queues qm) \<rparr>)"
  by (simp add: same_queues_def update_conv' queue_info_def)

lemma same_redrive: "same_queues qm (snd (redriveMessage ops now arn m qm))"
proof (cases "LookupQueueByArn arn qm")
  case (Inr q)
  then have "map_of (qm_queues qm) (after_last (CHR '':'') arn) = Some q"
    by (simp add: LookupQueueByArn_def Lookup_Some split: if_splits)
  then show ?thesis using Inr by (auto simp: redriveMessage_def put_store_def case_prod_unfold Let_def intro: same_update)
qed (simp add: redriveMessage_def)

lemma same_redrive_all: "same_queues qm (redrive_all H now arn msgs qm)"
proof -
  have "same_queues qm0 (fold (\<lambda>m qm. snd (redriveMessage (hd_ops H) now a m qm)) msgs qm)"
    if "same_queues qm0 qm" for a qm0 qm
    using that by (induction msgs arbitrary: qm) (simp_all add: same_trans [OF _ same_redrive])
  then show ?thesis by (simp add: redrive_all_def split: option.splits)
qed

lemma same_peek:
  assumes "manager_ok (hs_manager st)" "LookupQueue n (hs_manager st) = Inr q" "peek H d q st = (msgs, st')"
  shows "same_queues (hs_manager st) (hs_manager st') \<and> hs_tasks st' = hs_tasks st"
proof -
  have q: "map_of (qm_queues (hs_manager st)) (q_name q) = Some q"
    using assms(1,2) manager_ok_lookup by (fastforce simp: Lookup_Some)
  show ?thesis using assms(3) same_trans [OF same_update [OF q] same_redrive_all]
    by (auto simp: peek_def put_queue_def Let_def split: prod.splits)
qed

definition safe_method :: "request \<Rightarrow> bool" where
  "safe_method r \<longleftrightarrow> rq_Method r \<in> {''GET'', ''HEAD'', ''OPTIONS''}"

text \<open>The page a request comes from: its origin, or else its referrer, names no host or another one.\<close>

definition cross_site :: "request \<Rightarrow> bool" where
  "cross_site r \<longleftrightarrow>
     (let origin = (if header_get r ''Origin'' = [] then header_get r ''Referer'' else header_get r ''Origin'')
      in origin = [] \<or> origin_host origin \<noteq> rq_Host r)"

definition only_messages :: "('s, 'c) ui_state \<Rightarrow> ('s, 'c) ui_state \<Rightarrow> bool" where
  "only_messages st st' \<longleftrightarrow> us_creds st' = us_creds st \<and> hs_tasks (us_server st') = hs_tasks (us_server st) \<and>
     same_queues (hs_manager (us_server st)) (hs_manager (us_server st'))"

lemma only_refl [simp]: "only_messages st st"
  by (simp add: only_messages_def)

lemma only_peek:
  assumes "manager_ok (hs_manager (us_server st))" "LookupQueue n (hs_manager (us_server st)) = Inr q"
  shows "only_messages st (st\<lparr> us_server := snd (peek H d q (us_server st)) \<rparr>)"
  using same_peek [OF assms prod.collapse [symmetric]] by (simp add: only_messages_def)

lemma safe_reads:
  assumes "manager_ok (hs_manager (us_server st))" "rq_Method r \<noteq> ''POST''"
  shows "only_messages st (snd (handleQueueRoutes U d r st))" "only_messages st (snd (handleAPIQueueMessages U d r st))"
  using assms(2) only_peek [OF assms(1)]
  by (auto simp: handleQueueRoutes_def handleAPIQueueMessages_def handleQueueDetail_def Let_def case_prod_unfold
      split: sum.splits)

lemma safe_route:
  assumes "manager_ok (hs_manager (us_server st))" "rq_Method r \<noteq> ''POST''"
  shows "only_messages st (snd (ui_route U d r st))"
  using assms(2) safe_reads [OF assms]
  by (simp add: ui_route_def Let_def handleIndex_def handleCreateQueueForm_def ui_handleCreateQueue_def handleCredentials_def
      handleCreateCredential_def handleCredentialRoutes_def handleAPIQueues_def handleAPICredentials_def handleMetrics_def
      handleAPIMetrics_def split: sum.splits)

lemma dashboard_safe:
  "safe_method r \<Longrightarrow> dashboard tls U d r st =
     (let (reply, st') = ui_route U d r st in ((fst (fst (withSecurityHeaders tls (ui_route U d) r st)), reply), st'))"
  by (simp add: dashboard_def withCSRFProtection_def safe_method_def withSecurityHeaders_def case_prod_unfold)


subsection \<open>Secrets\<close>

lemma hidden_display: "newCredentialDisplay (hide_secret c) False = newCredentialDisplay c False"
  by (simp add: newCredentialDisplay_def hide_secret_def)

lemma listed_displays:
  "map hide_secret cs1 = map hide_secret cs2 \<Longrightarrow>
   map (\<lambda>c. newCredentialDisplay c False) cs1 = map (\<lambda>c. newCredentialDisplay c False) cs2"
  by (metis (no_types, lifting) hidden_display map_eq_conv map_map comp_apply)

lemma same_display_json:
  "map hide_secret cs1 = map hide_secret cs2 \<Longrightarrow>
   map (\<lambda>c. credential_json (newCredentialDisplay c False)) cs1 = map (\<lambda>c. credential_json (newCredentialDisplay c False)) cs2"
  by (drule listed_displays, drule arg_cong [where f = "map credential_json"]) (simp add: comp_def)

text \<open>The pages about queues do not look at the credentials.\<close>

lemma queue_forms:
  "fst (ui_handleDeleteQueue U n d r (st\<lparr> us_creds := c \<rparr>)) = fst (ui_handleDeleteQueue U n d r st)"
  "fst (ui_handlePurgeQueue U n d r (st\<lparr> us_creds := c \<rparr>)) = fst (ui_handlePurgeQueue U n d r st)"
  "fst (ui_handleDeleteMessage U n h d r (st\<lparr> us_creds := c \<rparr>)) = fst (ui_handleDeleteMessage U n h d r st)"
  "fst (handleQueueDetail U n d r (st\<lparr> us_creds := c \<rparr>)) = fst (handleQueueDetail U n d r st)"
  by (simp_all add: ui_handleDeleteQueue_def ui_handlePurgeQueue_def ui_handleDeleteMessage_def handleQueueDetail_def
      on_named_queue_def case_prod_unfold Let_def split: sum.split option.split prod.split)

lemma send_form_free:
  "fst (ui_handleSendMessage U n d r (st\<lparr> us_creds := c \<rparr>)) = fst (ui_handleSendMessage U n d r st)"
  by (simp add: ui_handleSendMessage_def on_named_queue_def split: sum.split option.split prod.split)

lemma queue_routes: "fst (handleQueueRoutes U d r (st\<lparr> us_creds := c \<rparr>)) = fst (handleQueueRoutes U d r st)"
  by (simp add: handleQueueRoutes_def Let_def queue_forms send_form_free if_distrib [of fst] sum.case_distrib [of fst]
      split del: if_split cong: if_cong sum.case_cong)

lemma queue_pages:
  "fst (handleAPIQueueMessages U d r (st\<lparr> us_creds := c \<rparr>)) = fst (handleAPIQueueMessages U d r st)"
  "fst (ui_handleCreateQueue U d r (st\<lparr> us_creds := c \<rparr>)) = fst (ui_handleCreateQueue U d r st)"
  "fst (handleIndex U d r (st\<lparr> us_creds := c \<rparr>)) = fst (handleIndex U d r st)"
  "fst (handleCreateQueueForm U d r (st\<lparr> us_creds := c \<rparr>)) = fst (handleCreateQueueForm U d r st)"
  "fst (handleAPIQueues U d r (st\<lparr> us_creds := c \<rparr>)) = fst (handleAPIQueues U d r st)"
  "fst (handleMetrics U d r (st\<lparr> us_creds := c \<rparr>)) = fst (handleMetrics U d r st)"
  "fst (handleAPIMetrics U d r (st\<lparr> us_creds := c \<rparr>)) = fst (handleAPIMetrics U d r st)"
  by (simp_all add: handleAPIQueueMessages_def ui_handleCreateQueue_def handleIndex_def handleCreateQueueForm_def
      handleAPIQueues_def handleMetrics_def handleAPIMetrics_def Let_def case_prod_unfold split: sum.split)

text \<open>
  C37.  No page shows a secret that is stored.  The reply to a request, other than the forms that
  create and delete credentials, does not depend on the secret access keys of the credentials
  in the store, whatever the store hands out: with two stores that list the same credentials
  but for their secrets the reply is the same.
\<close>

theorem dashboard_hides_secrets:
  assumes "co_List (ue_creds U) c1 = Inr cs1" "co_List (ue_creds U) c2 = Inr cs2"
    and "map hide_secret cs1 = map hide_secret cs2"
    and "\<not> (rq_Method r = ''POST'' \<and> HasPrefix (rq_Path r) ''/credentials/'')"
  shows "fst (dashboard tls U d r (st\<lparr> us_creds := c1 \<rparr>)) = fst (dashboard tls U d r (st\<lparr> us_creds := c2 \<rparr>))"
proof -
  let ?st1 = "st\<lparr> us_creds := c1 \<rparr>" and ?st2 = "st\<lparr> us_creds := c2 \<rparr>"
  have list: "list_credentials U c1 = list_credentials U c2"
    using assms(1,2) listed_displays [OF assms(3)] by (simp add: list_credentials_def)
  have creds: "fst (handleCredentials U d r ?st1) = fst (handleCredentials U d r ?st2)"
    "fst (handleAPICredentials U d r ?st1) = fst (handleAPICredentials U d r ?st2)"
    using assms(1,2) list same_display_json [OF assms(3)] by (simp_all add: handleCredentials_def handleAPICredentials_def)
  have forms: "rq_Path r = ''/credentials/create'' \<Longrightarrow> fst (handleCreateCredential U d r ?st1) = fst (handleCreateCredential U d r ?st2)"
    "HasPrefix (rq_Path r) ''/credentials/'' \<Longrightarrow> fst (handleCredentialRoutes U d r ?st1) = fst (handleCredentialRoutes U d r ?st2)"
    using assms(4) by (auto simp: handleCreateCredential_def handleCredentialRoutes_def Let_def HasPrefix_def)
  have "fst (ui_route U d r ?st1) = fst (ui_route U d r ?st2)"
    using creds forms by (simp add: ui_route_def Let_def queue_pages queue_routes)
  then show ?thesis
    by (simp add: dashboard_def withCSRFProtection_def withSecurityHeaders_def Let_def case_prod_unfold)
qed

subsection \<open>The peek\<close>

lemma PathUnescape_plain: "CHR ''%'' \<notin> set s \<Longrightarrow> PathUnescape s = Inr s"
  by (induction s rule: PathUnescape.induct) auto

lemma form_name_chars: "isValidQueueName n \<Longrightarrow> CHR ''/'' \<notin> set n \<and> CHR ''%'' \<notin> set n"
  by (auto simp: isValidQueueName_def list_all_iff url_alnum_def Let_def)

text \<open>A GET for the page of a queue reaches its handler.\<close>

lemma detail_routed:
  assumes "isValidQueueName n" "n \<notin> {[], ''.'', ''..'', ''new'', ''create''}" "rq_Method r = ''GET''"
    and "rq_Path r = ''/queues/'' @ n"
  shows "ui_route U d r st = handleQueueDetail U n d r st"
proof -
  have n: "Split (CHR ''/'') n = [n]" "PathUnescape n = Inr n"
    using form_name_chars [OF assms(1)] by (simp_all add: Split_no_sep PathUnescape_plain)
  then have "clean_path (rq_Path r)" using assms(2,4) by (auto simp: clean_path_def)
  moreover have "handleQueueRoutes U d r st = handleQueueDetail U n d r st"
    using assms(2-4) n by (simp add: handleQueueRoutes_def TrimPrefix_def HasPrefix_def)
  ultimately show ?thesis using assms(2-4) by (simp add: ui_route_def Let_def HasPrefix_def)
qed

lemma peek_memory:
  assumes "memory_handlers E H" "ReceiveNow E (dr_store_now d 0) (dr_nonces d) 10 0 (q_store q) = (Inr msgs, s')"
  shows "peek H d q st = (msgs, put_queue (q\<lparr> q_store := s' \<rparr>) st)"
  using assms by (auto simp: peek_def memory_handlers_def redrive_all_def Let_def split: option.splits)

text \<open>
  C38.  Looking takes.  The page of a queue of the in-memory store shows up to ten messages that were
  visible, and hides each of them for the queue's default visibility timeout and counts
  a receive for it: a visibility timeout of zero in a receive stands for the default, though the
  code asks for it to leave the messages visible to other consumers.
\<close>

theorem dashboard_peek_hides:
  assumes "memory_handlers E (ue_handlers U)" "manager_ok (hs_manager (us_server st))"
    and "LookupQueue n (hs_manager (us_server st)) = Inr q" "distinct (ms_messages (q_store q))" "\<not> ms_closed (q_store q)"
    and "0 < ms_visibilityTimeout (q_store q)" "ms_visibilityTimeout (q_store q) \<le> MaxVisibilityTimeout"
    and "isValidQueueName n" "n \<notin> {[], ''.'', ''..'', ''new'', ''create''}" "rq_Method r = ''GET''" "rq_Path r = ''/queues/'' @ n"
    and "now = dr_store_now (ud_draws d) 0 0" "shown = picks 10 now (q_store q)"
  shows "\<exists>header p q' st'. dashboard tls U d r st = ((header, QueuePage ''queue.html'' p), st') \<and>
    LookupQueue n (hs_manager (us_server st')) = Inr q' \<and>
    map md_MessageID (qd_Messages p) = map (\<lambda>a. MessageID (mm_msg (ms_heap (q_store q) a))) shown \<and>
    (\<forall>a \<in> set shown. receivable now (q_store q) a \<and> \<not> receivable now (q_store q') a \<and>
       mm_visibleAt (ms_heap (q_store q') a) = now + seconds (ms_visibilityTimeout (q_store q)) \<and>
       mm_receiveCount (ms_heap (q_store q') a) = mm_receiveCount (ms_heap (q_store q) a) + 1)"
proof -
  let ?s = "q_store q" and ?v = "ms_visibilityTimeout (q_store q)" and ?now = "dr_store_now (ud_draws d) 0"
  let ?rnd = "dr_nonces (ud_draws d)"
  define s' where "s' = snd (receive_poll E 10 ?v (?now 0) ?rnd ?s)"
  note polled = poll_open [OF assms(4,5), where E = E and n = 10 and vt = ?v and now = "?now 0" and rnd = ?rnd]
  have name: "q_name q = n" using manager_ok_lookup [OF assms(2)] assms(3) by (auto simp: Lookup_Some)
  let ?msgs = "map (\<lambda>k. delivered E ?v (?now 0) (?rnd k) ?s (shown ! k)) [0..<length shown]"
  have received: "ReceiveNow E ?now ?rnd 10 0 ?s = (Inr ?msgs, s')"
    using polled(1) assms(6,12,13) by (simp add: ReceiveNow_def effective_timeout_def s'_def prod_eq_iff)
  let ?q' = "q\<lparr> q_store := s' \<rparr>"
  have peek: "peek (ue_handlers U) (ud_draws d) q (us_server st) = (?msgs, put_queue ?q' (us_server st))"
    by (rule peek_memory [OF assms(1) received])
  let ?srv = "put_queue ?q' (us_server st)"
  have lookup: "LookupQueue n (hs_manager ?srv) = Inr ?q'"
    by (simp add: put_queue_def LookupQueue_update name)
  have ids: "map MessageID ?msgs = map (\<lambda>a. MessageID (mm_msg (ms_heap ?s a))) shown"
    by (rule nth_equalityI) (simp_all add: delivered_def Let_def)
  have pos: "0 < seconds ?v" using assms(6,7) by (intro seconds_pos) (auto simp: MaxVisibilityTimeout_def)
  have hid: "receivable now ?s a \<and> \<not> receivable now s' a \<and> mm_visibleAt (ms_heap s' a) = now + seconds ?v \<and>
      mm_receiveCount (ms_heap s' a) = mm_receiveCount (ms_heap ?s a) + 1" if "a \<in> set shown" for a
    using polled(4) [of a] that assms(12,13) pos picks_subset [of a 10 now ?s]
    by (auto simp: s'_def receivable_def)
  let ?p = "(detail U (dr_store_now (ud_draws d) 2) (hs_manager ?srv) (current q ?srv) ?msgs)
    \<lparr> qd_Error := ui_query r ''error'', qd_Success := ui_query r ''success'', qd_MetricsEnabled := ue_metricsEnabled U \<rparr>"
  have "ui_route U d r st = (QueuePage ''queue.html'' ?p, st\<lparr> us_server := ?srv \<rparr>)"
    using assms(3) peek by (simp add: detail_routed [OF assms(8-11)] handleQueueDetail_def renderQueue_def)
  then have "dashboard tls U d r st =
      ((fst (fst (withSecurityHeaders tls (ui_route U d) r st)), QueuePage ''queue.html'' ?p), st\<lparr> us_server := ?srv \<rparr>)"
    using assms(10) by (simp add: dashboard_safe safe_method_def)
  moreover have "map md_MessageID (qd_Messages ?p) = map MessageID ?msgs"
    by (simp add: detail_def Let_def newMessageDisplay_def comp_def)
  ultimately show ?thesis using lookup ids hid by (intro exI conjI) (assumption | simp)+
qed

subsection \<open>Witnesses\<close>

definition sample_ui :: "(memory_store, memory_credentials) ui_env" where
  "sample_ui = \<lparr> ue_handlers = sample_memory_handlers, ue_creds = memory_credential_ops, ue_metricsEnabled = False,
     ue_gather = Inr [] \<rparr>"

definition sample_mail :: "memory_store queue" where
  "sample_mail = NewQueue ''mail.fifo'' None sample_s2"

definition sample_board :: "(memory_store, memory_credentials) ui_state" where
  "sample_board = \<lparr> us_server = \<lparr> hs_manager = (NewQueueManager ''h'' ''a'' ''r'' ''s'')\<lparr> qm_queues :=
       [(''mail.fifo'', sample_mail)] \<rparr>, hs_tasks = [] \<rparr>, us_creds = NewMemoryCredentialStore \<rparr>"

definition sample_ui_draws :: ui_draws where
  "sample_ui_draws = \<lparr> ud_draws = sample_draws\<lparr> dr_store_now := (\<lambda>k. at (secs 3)) \<rparr>, ud_entropy = sample_entropy 1, ud_created = secs 3 \<rparr>"

definition browse :: "string \<Rightarrow> string \<Rightarrow> string \<Rightarrow> request" where
  "browse method path origin = \<lparr> rq_Method = method, rq_Path = path, rq_RawQuery = [], rq_Header = [(''Origin'', [origin])],
     rq_Host = ''h'', rq_Body = [], rq_BodyError = None \<rparr>"

lemma sample_board_ok: "manager_ok (hs_manager (us_server sample_board))"
  by (simp add: sample_board_def manager_ok_def sample_mail_def NewQueue_def)

lemma sample_cross_site: "cross_site (browse m p ''http://evil'')"
  unfolding cross_site_def by (simp add: browse_def) code_simp


definition sample_secret :: "string \<Rightarrow> memory_credentials" where
  "sample_secret secret = snd (memory_Import (sample_entropy 1) (secs 1) ''l'' ''AK'' secret ''r'' ''a'' NewMemoryCredentialStore)"

lemma dashboard_hides_secrets_witness:
  "sample_secret ''one'' \<noteq> sample_secret ''two'' \<and>
   fst (dashboard False sample_ui sample_ui_draws (browse ''GET'' ''/api/credentials'' []) (sample_board\<lparr> us_creds := sample_secret ''one'' \<rparr>)) =
   fst (dashboard False sample_ui sample_ui_draws (browse ''GET'' ''/api/credentials'' []) (sample_board\<lparr> us_creds := sample_secret ''two'' \<rparr>))"
  by (intro conjI dashboard_hides_secrets [where ?cs1.0 = "map hide_secret (map snd (mc_credentials (sample_secret ''one'')))"
        and ?cs2.0 = "map hide_secret (map snd (mc_credentials (sample_secret ''two'')))"])
    (simp_all add: sample_ui_def memory_credential_ops_def memory_List_def sample_secret_def memory_Import_def
      imported_credential_def mc_put_def NewMemoryCredentialStore_def hide_secret_def browse_def Let_def)

lemma dashboard_peek_hides_witness:
  "\<exists>header p q' st'. dashboard False sample_ui sample_ui_draws (browse ''GET'' ''/queues/mail.fifo'' []) sample_board =
       ((header, QueuePage ''queue.html'' p), st') \<and>
     LookupQueue ''mail.fifo'' (hs_manager (us_server st')) = Inr q' \<and> map md_MessageID (qd_Messages p) = [''m1''] \<and>
     mm_visibleAt (ms_heap (q_store q') 0) = secs 33"
proof -
  have env: "memory_handlers sample_env (ue_handlers sample_ui)"
    by (simp add: memory_handlers_def sample_memory_handlers_def sample_ui_def)
  have q: "LookupQueue ''mail.fifo'' (hs_manager (us_server sample_board)) = Inr sample_mail"
    by (simp add: sample_board_def LookupQueue_def)
  have store: "q_store sample_mail = sample_s2" by (simp add: sample_mail_def NewQueue_def)
  have name: "isValidQueueName ''mail.fifo''" by code_simp
  have id: "MessageID (mm_msg (ms_heap sample_s2 0)) = ''m1''" by code_simp
  have now: "dr_store_now (ud_draws sample_ui_draws) 0 0 = secs 3" by (simp add: sample_ui_draws_def)
  have later: "secs 3 + seconds 30 = secs 33" by (simp add: secs_def seconds_def wrap64_def)
  show ?thesis
    using dashboard_peek_hides [OF env sample_board_ok q, of "browse ''GET'' ''/queues/mail.fifo'' []" "secs 3" sample_ui_draws
        "[0]" False] name id now later
    by (auto simp: store sample_facts2 browse_def MaxVisibilityTimeout_def)
qed

end
