(* ===== verification/Spec2Isabelle.thy ===== *)
theory Spec2Isabelle
  imports Attributes Limits MoveLoss CredentialProperties AuthProperties RateLimiter HandlerProperties StartupProperties DashboardProperties
begin

text \<open>
  OpenSQS is a message queue server in Go that speaks the two protocols of Amazon SQS: form
  parameters with XML responses, and JSON.  This library models the server and proves what its
  parts promise.  Paths are relative to \<^verbatim>\<open>src/\<close>; definitions keep the names of the code, and a name
  that more than one part uses has a prefix (\<open>sqlite_\<close>, \<open>badger_\<close>, \<open>ui_\<close>).

  The path of a request.  \<^verbatim>\<open>main.go\<close> puts authentication and a rate limit in front of the request
  handler.  The handler detects the protocol, parses the request and gives it, through the adapter of
  the protocol, to the handler of its action.  That finds its queue in the queue manager, works on
  the queue's store, and its result is marshalled for the protocol.  A store is in memory, a table of
  SQLite, or a range of keys of BadgerDB.  A message received too often goes to a dead-letter queue
  through the redrive callback of its store, and comes back by a move task.  Beside this the dashboard
  works on the same manager and stores.

  \<^bold>\<open>Theories and sources.\<close>

  \<^item> \<open>Prelude\<close>, \<open>GoText\<close>, \<open>Http\<close>: what the program uses of Go's \<open>strings\<close>, \<open>strconv\<close>, \<open>time\<close>,
    \<open>net/http\<close>, \<open>net/url\<close> and \<open>encoding/xml\<close>.  Text is a list of bytes; \<open>int\<close> and \<open>int64\<close>
    are \<open>int\<close> with the wrap-around written out (\<open>wrap64\<close>) where a sum can leave 64 bits; an instant
    is its nanoseconds since 1970.  A Go map is an association list (\<open>gomap\<close>), whose order
    stands for the order a \<open>range\<close> over it happens to have.
  \<^item> \<open>SQSTypes\<close>, \<open>Limits\<close>, \<open>RedrivePolicy\<close>, \<open>Attributes\<close>: \<^verbatim>\<open>pkgs/v1/queue\<close> with \<^verbatim>\<open>types\<close>, the error
    factories, \<^verbatim>\<open>limits.go\<close>, \<^verbatim>\<open>dlq/redrive.go\<close> and \<^verbatim>\<open>attributes.go\<close>.  An error is a value of
    \<open>go_error\<close>; a fallible function returns \<open>go_error + 'a\<close>, one that only fails an option.
  \<^item> \<open>StoreCommon\<close>, \<open>StoreContract\<close>, \<open>ReceiptHandles\<close>: \<^verbatim>\<open>store/store.go\<close>, the interface as a record of
    operations (\<open>store_ops\<close>), the laws a store keeps (the locale \<open>message_store\<close>), and the
    encodings inside a receipt handle.
  \<^item> \<open>MemoryStore\<close>: \<^verbatim>\<open>store/memory/memory.go\<close>, as a heap of cells that the list of messages, the timers
    and the groups point into.  \<open>MemoryInvariants\<close> has the interleavings of calls, polls and timers as
    step relations and the invariant \<open>mem_inv\<close>; \<open>MemoryProperties\<close>, \<open>MemoryContract\<close> and
    \<open>MemoryExamples\<close> what follows.
  \<^item> \<open>SqliteStore\<close>, \<open>SqliteProperties\<close>: \<^verbatim>\<open>store/sqlite/sqlite.go\<close> over the rows of the table;
    \<open>BadgerStore\<close>, \<open>BadgerProperties\<close>: \<^verbatim>\<open>store/badger/badger.go\<close> over the sorted pairs of the database;
    \<open>StoreExamples\<close> runs both.
  \<^item> \<open>QueueManager\<close>: \<^verbatim>\<open>queue.go\<close> and \<^verbatim>\<open>manager.go\<close>.  \<open>MoveTask\<close>, \<open>MoveLoss\<close>: \<^verbatim>\<open>dlq/move_task.go\<close>.
  \<^item> \<open>Credentials\<close>, \<open>CredentialStores\<close>, \<open>CredentialProperties\<close>: \<^verbatim>\<open>store/credentials\<close>, its three
    implementations against one list of credentials (the locale \<open>credential_store\<close>).
  \<^item> \<open>Auth\<close>, \<open>AuthProperties\<close>, \<open>RateLimiter\<close>: \<^verbatim>\<open>apps/go/server/middleware\<close>.
  \<^item> \<open>Requests\<close>, \<open>RequestProperties\<close>: \<^verbatim>\<open>protocol/query.go\<close>, \<^verbatim>\<open>protocol/json.go\<close> and the adapters.
    \<open>Handlers\<close>, \<open>HandlerProperties\<close>, \<open>ActionProperties\<close>: \<^verbatim>\<open>apps/go/server/handlers\<close>, the dispatcher
    and the 23 actions.  \<open>Marshal\<close>, \<open>ResponseProperties\<close>: \<^verbatim>\<open>handlers/marshal.go\<close>,
    \<^verbatim>\<open>protocol/marshal.go\<close> and \<^verbatim>\<open>protocol/errors.go\<close>, to the bytes.  \<open>RequestHandler\<close>:
    \<^verbatim>\<open>request_handler.go\<close> and \<^verbatim>\<open>error_response.go\<close>.
  \<^item> \<open>Startup\<close>, \<open>StartupProperties\<close>: \<^verbatim>\<open>config.go\<close>, \<^verbatim>\<open>startup_queues.go\<close>, \<^verbatim>\<open>startup_credentials.go\<close> and the
    wiring of \<^verbatim>\<open>main.go\<close>.  \<open>Lifecycle\<close> joins the handlers and the in-memory store.
  \<^item> \<open>Dashboard\<close>, \<open>DashboardProperties\<close>: \<^verbatim>\<open>ui/handlers.go\<close> and \<^verbatim>\<open>ui/server.go\<close>.

  \<^bold>\<open>State.\<close>  An operation takes the state of its component and returns it changed; a method that
  locks a mutex is one step.  The stores' states are \<open>memory_store\<close>, \<open>sqlite_store\<close> and \<open>badger_store\<close>;
  a \<open>manager\<close> maps names to queues, each with its store; \<open>handler_state\<close> adds the move tasks,
  \<open>server_state\<close> the limiters, \<open>ui_state\<close> the credentials.  Where the code works outside a lock, or a
  goroutine or timer runs beside the calls, the interleavings are a step relation
  (\<open>prompt_step\<close>, \<open>run_until\<close> and the like).

  \<^bold>\<open>What is shown.\<close>  A message that is sent is the one that is received and can then be deleted, by
  requests; a request changes no other queue; sends and batches are accepted exactly when
  documented; every request gets one response that can be marshalled; attributes and texts survive both
  protocols.  For the stores: which messages a receive delivers, that two receives do not share one,
  FIFO groups, deduplication, sequence numbers, the timers' releases and redrives, that what is
  deleted stays deleted.  For the rest: bounds of the attributes, the registry's invariant, receipt
  handles, the agreement of the credential stores, what a signature covers, that only
  authenticated requests are served, the buckets of the rate limit, and what the dashboard may
  change and show.  Some statements describe what the code does where it does not do what it
  means to: an expired message that blocks its FIFO group, move tasks that repeat or lose messages, a limit
  that JSON clients pass by, a peek that takes.

  \<^bold>\<open>Parameters.\<close>  What is not the program's code is an argument, with its documented behaviour as a named
  hypothesis: SHA-256, HMAC and MD5 (\<open>env\<close>, \<open>hd_md5\<close>), the JSON decoder and encoder, the SQL engine
  with its \<open>ORDER BY\<close> and errors (\<open>engine\<close>, \<open>fails\<close>), the codec and errors of BadgerDB, the token
  bucket of \<open>x/time/rate\<close> (\<open>limiter_ops\<close>), the metrics of the Prometheus client, Unicode
  lower case.  Readings of the clock, random bytes and identifiers are drawn from arguments (\<open>clock\<close>,
  \<open>entropy\<close>, \<open>draws\<close>); the clock may go back unless a statement says not.

  \<^bold>\<open>Bounds and fuel.\<close>  Recursions are structural or have a measure.  The only loop that may wait is the long
  poll: \<open>receive_turns\<close> and its relatives take the list of the wake-ups that happen, and return \<open>None\<close>
  when it is used up; the list is long enough when one turn comes at or after the deadline, which a
  theorem on termination shows.  A run of a move task takes the number of its ticks.  Request bodies
  are read up to 1 MiB (\<open>maxRequestBodySize\<close>), forms of the dashboard up to 10 MiB, as in the code.

  \<^bold>\<open>Not modelled.\<close>  The YAML reader, the environment, the logger and the request log; opening database
  files and TLS; the health server and the life cycle of the listeners; counting metrics; the UUID
  generator; HTML templates and static files; and the programs for developers (\<^verbatim>\<open>tools\<close>, the
  examples).  They are input and output, or wrappers of a library without logic of their own, or no part
  of the server.  Data races the mutexes exclude, and the cancellation of a request's context in
  the middle of a store call, are left out.
\<close>

end
